theory Spec2Isabelle
  imports Main "HOL-Library.Word"
begin

unbundle bit_operations_syntax

chapter \<open>The IPC port manager of the library OS and the PAL streams it uses\<close>

section \<open>Platform abstraction layer: error codes, constants, host calls\<close>

text \<open>
  A PAL function returns a negated error code or a non-negative value. The error codes
  are kept symbolic: \<open>return -PAL_ERROR_INVAL\<close> is \<open>Inl PAL_ERROR_INVAL\<close>, and
  \<open>return n\<close> is \<open>Inr n\<close>. \<open>PAL_ERROR_UNIX e\<close> stands for an error code that
  \<open>unix_to_pal_error\<close> derives from a host error.
\<close>

datatype pal_error =
    PAL_ERROR_INVAL
  | PAL_ERROR_NOTCONNECTION
  | PAL_ERROR_BADHANDLE
  | PAL_ERROR_TRYAGAIN
  | PAL_ERROR_INTERRUPTED
  | PAL_ERROR_NOTSUPPORT
  | PAL_ERROR_DENIED
  | PAL_ERROR_UNIX int

text \<open>
  Where C has no defined result the model returns one of these instead: a failed
  \<open>assert\<close>, a null pointer that is dereferenced, an array read past its end.
\<close>

datatype crash = ASSERT_FAILED | NULL_DEREFERENCE | OUT_OF_BOUNDS

text \<open>
  The macros of \<open>pal_host.h\<close>, \<open>pal.h\<close> and \<open>pal_linux_error.h\<close> are not part of
  the sources at hand. The functions below take them as a parameter: the number of
  descriptor slots of a handle, the flag bits of slot \<open>n\<close>, the mask \<open>HAS_FDS\<close>, the
  poison value of a descriptor and the translation of host errors.
\<close>

record pal_defs =
  MAX_FDS :: nat
  RFD :: "nat \<Rightarrow> 32 word"
  WFD :: "nat \<Rightarrow> 32 word"
  WRITEABLE :: "nat \<Rightarrow> 32 word"
  ERROR :: "nat \<Rightarrow> 32 word"
  HAS_FDS :: "32 word"
  PAL_IDX_POISON :: int
  unix_to_pal_error :: "int \<Rightarrow> pal_error"

text \<open>The event bits of \<open>poll\<close>, as the Linux ABI numbers them.\<close>

definition POLLIN :: "16 word" where "POLLIN = 1"
definition POLLOUT :: "16 word" where "POLLOUT = 4"
definition POLLERR :: "16 word" where "POLLERR = 8"
definition POLLHUP :: "16 word" where "POLLHUP = 16"

section \<open>The eventfd stream driver (\<open>db_eventfd.c\<close>)\<close>

datatype pal_handle_type = pal_type_eventfd | pal_type_other nat

text \<open>The header of a handle and the \<open>eventfd\<close> member of the handle union.\<close>

record eventfd_handle =
  hdr_type :: pal_handle_type
  hdr_flags :: "32 word"
  eventfd_fd :: int
  eventfd_nonblocking :: bool

text \<open>
  The enclave reaches the host through ocalls. What the untrusted host answers is a
  parameter; every ocall that is made is recorded, in order.
\<close>

record host_calls =
  ocall_read :: "int \<Rightarrow> nat \<Rightarrow> int"
  ocall_write :: "int \<Rightarrow> nat \<Rightarrow> int"
  ocall_close :: "int \<Rightarrow> int"
  ocall_fionread :: "int \<Rightarrow> int"
  ocall_poll :: "int \<Rightarrow> 16 word \<Rightarrow> int \<times> 16 word"

datatype ocall =
    OCALL_READ int nat
  | OCALL_WRITE int nat
  | OCALL_CLOSE int
  | OCALL_FIONREAD int
  | OCALL_POLL int "16 word"

definition IS_HANDLE_TYPE_eventfd :: "eventfd_handle \<Rightarrow> bool" where
  "IS_HANDLE_TYPE_eventfd handle = (hdr_type handle = pal_type_eventfd)"

text \<open>\<open>sizeof(uint64_t)\<close>\<close>

definition sizeof_uint64 :: nat where "sizeof_uint64 = 8"

definition eventfd_pal_read ::
  "pal_defs \<Rightarrow> host_calls \<Rightarrow> eventfd_handle \<Rightarrow> nat \<Rightarrow> nat \<Rightarrow> (pal_error + int) \<times> ocall list"
where
  "eventfd_pal_read D H handle offset len =
    (if offset \<noteq> 0 then (Inl PAL_ERROR_INVAL, [])
     else if \<not> IS_HANDLE_TYPE_eventfd handle then (Inl PAL_ERROR_NOTCONNECTION, [])
     else if len < sizeof_uint64 then (Inl PAL_ERROR_INVAL, [])
     else
       let bytes = ocall_read H (eventfd_fd handle) len in
       (if bytes < 0 then Inl (unix_to_pal_error D bytes) else Inr bytes,
        [OCALL_READ (eventfd_fd handle) len]))"

definition eventfd_pal_write ::
  "pal_defs \<Rightarrow> host_calls \<Rightarrow> eventfd_handle \<Rightarrow> nat \<Rightarrow> nat \<Rightarrow> (pal_error + int) \<times> ocall list"
where
  "eventfd_pal_write D H handle offset len =
    (if offset \<noteq> 0 then (Inl PAL_ERROR_INVAL, [])
     else if \<not> IS_HANDLE_TYPE_eventfd handle then (Inl PAL_ERROR_NOTCONNECTION, [])
     else if len < sizeof_uint64 then (Inl PAL_ERROR_INVAL, [])
     else
       let bytes = ocall_write H (eventfd_fd handle) len in
       (if bytes < 0 then Inl (unix_to_pal_error D bytes) else Inr bytes,
        [OCALL_WRITE (eventfd_fd handle) len]))"

record PAL_STREAM_ATTR =
  handle_type :: pal_handle_type
  nonblocking :: bool
  disconnected :: bool
  pending_size :: int
  readable :: bool
  writable :: bool
  no_of_fds :: nat
  attr_fds :: "int list"

text \<open>
  The attribute query writes the caller's \<open>attr\<close> field by field, so an error return
  leaves the fields written so far.
\<close>

definition eventfd_pal_attrquerybyhdl ::
  "pal_defs \<Rightarrow> host_calls \<Rightarrow> eventfd_handle \<Rightarrow> PAL_STREAM_ATTR
     \<Rightarrow> (pal_error + int) \<times> PAL_STREAM_ATTR \<times> ocall list"
where
  "eventfd_pal_attrquerybyhdl D H handle attr =
    (if eventfd_fd handle = PAL_IDX_POISON D then (Inl PAL_ERROR_BADHANDLE, attr, [])
     else
       let fd = eventfd_fd handle;
           attr1 = attr\<lparr>handle_type := hdr_type handle,
                        nonblocking := eventfd_nonblocking handle,
                        disconnected := (hdr_flags handle AND ERROR D 0 \<noteq> 0)\<rparr>;
           ret = ocall_fionread H fd
       in if ret < 0 then (Inl (unix_to_pal_error D ret), attr1, [OCALL_FIONREAD fd])
       else
         let attr2 = attr1\<lparr>pending_size := ret\<rparr>;
             events = POLLIN OR POLLOUT;
             (ret2, revents) = ocall_poll H fd events;
             calls = [OCALL_FIONREAD fd, OCALL_POLL fd events]
         in if ret2 < 0 then (Inl (unix_to_pal_error D ret2), attr2, calls)
         else
           (Inr 0,
            attr2\<lparr>readable := (ret2 = 1 \<and> revents AND (POLLIN OR POLLERR OR POLLHUP) = POLLIN),
                   writable := (ret2 = 1 \<and> revents AND (POLLOUT OR POLLERR OR POLLHUP) = POLLOUT),
                   no_of_fds := 1,
                   attr_fds := (attr_fds attr2)[0 := fd]\<rparr>,
            calls))"

definition eventfd_pal_close ::
  "pal_defs \<Rightarrow> host_calls \<Rightarrow> eventfd_handle \<Rightarrow> int \<times> eventfd_handle \<times> ocall list"
where
  "eventfd_pal_close D H handle =
    (if IS_HANDLE_TYPE_eventfd handle then
       (if eventfd_fd handle \<noteq> PAL_IDX_POISON D
        then (0, handle\<lparr>eventfd_fd := PAL_IDX_POISON D\<rparr>, [OCALL_CLOSE (eventfd_fd handle)])
        else (0, handle, []))
     else (0, handle, []))"

text \<open>
  Concrete values for running the definitions: the flag layout of the Linux PAL
  (three descriptor slots, one bit per slot and kind), and a host that grants what it
  is asked for.
\<close>

definition linux_pal_defs :: pal_defs where
  "linux_pal_defs =
    \<lparr>MAX_FDS = 3,
     RFD = (\<lambda>n. push_bit n 1),
     WFD = (\<lambda>n. push_bit n 8),
     WRITEABLE = (\<lambda>n. push_bit n 64),
     ERROR = (\<lambda>n. push_bit n 512),
     HAS_FDS = 63,
     PAL_IDX_POISON = -1,
     unix_to_pal_error = PAL_ERROR_UNIX\<rparr>"

definition willing_host :: host_calls where
  "willing_host =
    \<lparr>ocall_read = (\<lambda>fd len. int len),
     ocall_write = (\<lambda>fd len. int len),
     ocall_close = (\<lambda>fd. 0),
     ocall_fionread = (\<lambda>fd. 8),
     ocall_poll = (\<lambda>fd events. (1, events AND POLLIN))\<rparr>"

definition open_eventfd :: eventfd_handle where
  "open_eventfd =
    \<lparr>hdr_type = pal_type_eventfd, hdr_flags = 9, eventfd_fd = 5, eventfd_nonblocking = False\<rparr>"

definition closed_eventfd :: eventfd_handle where
  "closed_eventfd = open_eventfd\<lparr>eventfd_fd := PAL_IDX_POISON linux_pal_defs\<rparr>"

definition pipe_handle :: eventfd_handle where
  "pipe_handle = open_eventfd\<lparr>hdr_type := pal_type_other 1\<rparr>"

section \<open>Waiting for handles (\<open>db_object.c\<close>)\<close>

text \<open>
  The generic part of a handle (\<open>__in\<close>): its flags and its descriptor slots. Handles
  are compared by address in the wait, so they live in a store and the array holds
  addresses; \<open>None\<close> is the null pointer.
\<close>

record pal_handle =
  in_flags :: "32 word"
  in_fds :: "nat \<Rightarrow> int"

type_synonym handle_store = "nat \<Rightarrow> pal_handle"

text \<open>
  The \<open>ppoll\<close> system call is the environment: it gets the descriptors with their
  requested events and the timeout, and answers with an error number
  (\<open>IS_ERR(ret)\<close>, \<open>ERRNO(ret)\<close>) or with its return value and the \<open>revents\<close> of
  each entry. \<open>handle_wait\<close> is the \<open>wait\<close> entry of a handle's operations table.
\<close>

datatype poll_result = POLL_ERR int | POLL_RET int "16 word list"

record linux_sys =
  sys_ppoll :: "(int \<times> 16 word) list \<Rightarrow> (int \<times> int) option \<Rightarrow> poll_result"
  handle_wait :: "nat \<Rightarrow> (int \<Rightarrow> pal_error + int) option"

definition EINTR :: int where "EINTR = 4"
definition ERESTART :: int where "ERESTART = 85"

definition timeout_ts :: "int \<Rightarrow> (int \<times> int) option" where
  "timeout_ts timeout =
    (if timeout \<ge> 0 then
       let sec = timeout div 1000000;
           microsec = timeout - sec * 1000000
       in Some (sec, microsec * 1000)
     else None)"

text \<open>The events to poll slot \<open>j\<close> of a handle for.\<close>

definition slot_events :: "pal_defs \<Rightarrow> pal_handle \<Rightarrow> nat \<Rightarrow> 16 word" where
  "slot_events D h j =
    (if in_flags h AND RFD D j \<noteq> 0 \<and> in_flags h AND ERROR D j = 0 then POLLIN else 0)
    OR (if in_flags h AND WFD D j \<noteq> 0 \<and> in_flags h AND WRITEABLE D j = 0
           \<and> in_flags h AND ERROR D j = 0 then POLLOUT else 0)"

text \<open>What a non-zero \<open>revents\<close> of slot \<open>j\<close> adds to the flags.\<close>

definition note_revents :: "pal_defs \<Rightarrow> nat \<Rightarrow> 16 word \<Rightarrow> 32 word \<Rightarrow> 32 word" where
  "note_revents D j revents flags =
    (let flags1 = (if revents AND POLLOUT \<noteq> 0 then flags OR WRITEABLE D j else flags)
     in if revents AND (POLLHUP OR POLLERR) \<noteq> 0 then flags1 OR ERROR D j else flags1)"

definition poll_error :: "pal_defs \<Rightarrow> int \<Rightarrow> pal_error" where
  "poll_error D e =
    (if e = EINTR \<or> e = ERESTART then PAL_ERROR_INTERRUPTED else unix_to_pal_error D e)"

text \<open>The answer of \<open>ppoll\<close> for \<open>n\<close> entries, one \<open>revents\<close> per entry.\<close>

definition revents_of :: "nat \<Rightarrow> 16 word list \<Rightarrow> 16 word list" where
  "revents_of n revs = take n (revs @ replicate n 0)"

fun note_one :: "pal_defs \<Rightarrow> (nat \<times> 16 word) list \<Rightarrow> 32 word \<Rightarrow> 32 word" where
  "note_one D [] flags = flags"
| "note_one D ((slot, revents) # rest) flags =
    (if revents = 0 then note_one D rest flags
     else note_one D rest (note_revents D slot revents flags))"

text \<open>The slots of a handle that the single-handle wait polls (its array \<open>off\<close>).\<close>

definition poll_slots :: "pal_defs \<Rightarrow> pal_handle \<Rightarrow> nat list" where
  "poll_slots D h = filter (\<lambda>i. slot_events D h i \<noteq> 0) [0..<MAX_FDS D]"

definition slot_request :: "pal_defs \<Rightarrow> pal_handle \<Rightarrow> nat list \<Rightarrow> (int \<times> 16 word) list" where
  "slot_request D h off = map (\<lambda>i. (in_fds h i, slot_events D h i OR POLLHUP OR POLLERR)) off"

definition DkObjectWaitOne ::
  "pal_defs \<Rightarrow> linux_sys \<Rightarrow> handle_store \<Rightarrow> nat \<Rightarrow> int \<Rightarrow> (pal_error + int) \<times> handle_store"
where
  "DkObjectWaitOne D S store handle timeout =
    (let h = store handle in
     if in_flags h AND HAS_FDS D \<noteq> 0 then
       let off = poll_slots D h;
           fds = slot_request D h off
       in if off = [] then (Inl PAL_ERROR_TRYAGAIN, store)
          else
            (case sys_ppoll S fds (timeout_ts timeout) of
               POLL_ERR e \<Rightarrow> (Inl (poll_error D e), store)
             | POLL_RET ret revs \<Rightarrow>
                 if ret = 0 then (Inl PAL_ERROR_TRYAGAIN, store)
                 else
                   (Inr 0,
                    store(handle :=
                      h\<lparr>in_flags := note_one D (zip off (revents_of (length off) revs)) (in_flags h)\<rparr>)))
     else
       (case handle_wait S handle of
          None \<Rightarrow> (Inl PAL_ERROR_NOTSUPPORT, store)
        | Some wait \<Rightarrow> (wait timeout, store)))"

text \<open>
  The handles of the array in the order of their first occurrence: null entries and
  repeated entries are skipped.
\<close>

fun distinct_handles :: "nat option list \<Rightarrow> nat option list \<Rightarrow> nat list" where
  "distinct_handles prev [] = []"
| "distinct_handles prev (None # rest) = distinct_handles (prev @ [None]) rest"
| "distinct_handles prev (Some hdl # rest) =
    (if Some hdl \<in> set prev then [] else [hdl]) @ distinct_handles (prev @ [Some hdl]) rest"

text \<open>The entries \<open>(fd, events, hdl)\<close> that the second loop makes for one handle.\<close>

definition handle_pollfds :: "pal_defs \<Rightarrow> handle_store \<Rightarrow> nat \<Rightarrow> (int \<times> 16 word \<times> nat) list" where
  "handle_pollfds D store hdl =
    map (\<lambda>j. (in_fds (store hdl) j, slot_events D (store hdl) j OR POLLHUP OR POLLERR, hdl))
      (filter (\<lambda>j. slot_events D (store hdl) j \<noteq> 0 \<and> in_fds (store hdl) j \<noteq> PAL_IDX_POISON D)
         [0..<MAX_FDS D])"

definition collect_pollfds ::
  "pal_defs \<Rightarrow> handle_store \<Rightarrow> nat option list \<Rightarrow> (int \<times> 16 word \<times> nat) list" where
  "collect_pollfds D store handleArray =
    concat (map (handle_pollfds D store) (distinct_handles [] handleArray))"

text \<open>The first slot of the handle that is in use and holds the descriptor.\<close>

definition find_slot :: "pal_defs \<Rightarrow> pal_handle \<Rightarrow> int \<Rightarrow> nat option" where
  "find_slot D h fd =
    find (\<lambda>j. in_flags h AND (RFD D j OR WFD D j) \<noteq> 0 \<and> in_fds h j = fd) [0..<MAX_FDS D]"

text \<open>
  The last loop, over the polled entries \<open>(fd, revents, hdl)\<close>: the first entry with
  events fixes the polled handle, and only entries of that handle are recorded.
\<close>

fun note_polled ::
  "pal_defs \<Rightarrow> (int \<times> 16 word \<times> nat) list \<Rightarrow> nat option \<times> handle_store
     \<Rightarrow> nat option \<times> handle_store"
where
  "note_polled D [] st = st"
| "note_polled D ((fd, revents, hdl) # rest) (polled_hdl, store) =
    (if revents = 0 then note_polled D rest (polled_hdl, store)
     else if polled_hdl \<noteq> None \<and> polled_hdl \<noteq> Some hdl then note_polled D rest (polled_hdl, store)
     else
       (case find_slot D (store hdl) fd of
          None \<Rightarrow> note_polled D rest (Some hdl, store)
        | Some j \<Rightarrow>
            note_polled D rest
              (Some hdl,
               store(hdl := (store hdl)\<lparr>in_flags := note_revents D j revents (in_flags (store hdl))\<rparr>))))"

text \<open>
  The flags that a wait records (\<open>WRITEABLE\<close>, \<open>ERROR\<close>) are other bits than those
  that tell which slots are in use (\<open>RFD\<close>, \<open>WFD\<close>), as the header has them.
\<close>

definition flags_apart :: "pal_defs \<Rightarrow> bool" where
  "flags_apart D =
    list_all (\<lambda>i. list_all (\<lambda>j. (WRITEABLE D i OR ERROR D i) AND (RFD D j OR WFD D j) = 0)
                      [0..<MAX_FDS D])
      [0..<MAX_FDS D]"

text \<open>An entry of the array that is a handle without descriptors.\<close>

definition lacks_fds :: "pal_defs \<Rightarrow> handle_store \<Rightarrow> nat option \<Rightarrow> bool" where
  "lacks_fds D store e =
    (case e of None \<Rightarrow> False | Some hdl \<Rightarrow> in_flags (store hdl) AND HAS_FDS D = 0)"

text \<open>The array handed to \<open>ppoll\<close>: descriptor and requested events.\<close>

definition poll_request :: "(int \<times> 16 word \<times> nat) list \<Rightarrow> (int \<times> 16 word) list" where
  "poll_request fds = map (\<lambda>(fd, events, hdl). (fd, events)) fds"

text \<open>The polled array after \<open>ppoll\<close>: each entry with the \<open>revents\<close> it got.\<close>

definition polled_entries ::
  "(int \<times> 16 word \<times> nat) list \<Rightarrow> 16 word list \<Rightarrow> (int \<times> 16 word \<times> nat) list" where
  "polled_entries fds revs =
    map (\<lambda>((fd, events, hdl), revents). (fd, revents, hdl)) (zip fds (revents_of (length fds) revs))"

text \<open>
  \<open>_DkObjectsWaitAny\<close>. The result is the return value, the caller's \<open>*polled\<close>
  (which keeps its value on the paths that do not write it) and the handles.
  The first loop also counts descriptors to size the stack arrays; only its
  not-supported exit is behaviour.
\<close>

definition DkObjectsWaitAny ::
  "pal_defs \<Rightarrow> linux_sys \<Rightarrow> handle_store \<Rightarrow> int \<Rightarrow> nat option list \<Rightarrow> int \<Rightarrow> nat option
     \<Rightarrow> crash + (pal_error + int) \<times> nat option \<times> handle_store"
where
  "DkObjectsWaitAny D S store count handleArray timeout polled =
    (if count \<le> 0 then Inr (Inr 0, polled, store)
     else if length handleArray < nat count then Inl OUT_OF_BOUNDS
     else if count = 1 then
       (case hd handleArray of
          None \<Rightarrow> Inl NULL_DEREFERENCE
        | Some h0 \<Rightarrow>
            (let (ret, store') = DkObjectWaitOne D S store h0 timeout
             in Inr (ret, Some h0, store')))
     else
       let arr = take (nat count) handleArray in
       if list_ex (lacks_fds D store) arr
       then Inr (Inl PAL_ERROR_NOTSUPPORT, polled, store)
       else
         let fds = collect_pollfds D store arr in
         if fds = [] then Inr (Inl PAL_ERROR_TRYAGAIN, polled, store)
         else
           (case sys_ppoll S (poll_request fds) (timeout_ts timeout) of
              POLL_ERR e \<Rightarrow> Inr (Inl (poll_error D e), polled, store)
            | POLL_RET ret revs \<Rightarrow>
                if ret = 0 then Inr (Inl PAL_ERROR_TRYAGAIN, polled, store)
                else
                  (let (polled_hdl, store') = note_polled D (polled_entries fds revs) (None, store)
                   in Inr (if polled_hdl \<noteq> None then Inr 0 else Inl PAL_ERROR_TRYAGAIN,
                           polled_hdl, store'))))"

text \<open>
  Two handles for running the wait: each has descriptor slot 0 open for reading, on
  descriptors 10 and 11. The kernel reports input on the first entry and a hang-up on
  every other one.
\<close>

definition two_handles :: handle_store where
  "two_handles =
    (\<lambda>p. \<lparr>in_flags = 1, in_fds = (\<lambda>j. if j = 0 then 10 + int p else -1)\<rparr>)"

definition errored_handles :: handle_store where
  "errored_handles =
    (\<lambda>p. \<lparr>in_flags = 513, in_fds = (\<lambda>j. if j = 0 then 10 + int p else -1)\<rparr>)"

text \<open>
  The first handle with a second slot open for reading, on descriptor 20; and the second
  handle replaced by one without descriptors.
\<close>

definition two_slots :: handle_store where
  "two_slots =
    two_handles(0 := \<lparr>in_flags = 3, in_fds = (\<lambda>j. if j = 0 then 10 else if j = 1 then 20 else -1)\<rparr>)"

definition with_event :: handle_store where
  "with_event = two_handles(1 := \<lparr>in_flags = 0, in_fds = (\<lambda>j. -1)\<rparr>)"

definition hangup_everywhere :: linux_sys where
  "hangup_everywhere =
    \<lparr>sys_ppoll = (\<lambda>fds ts. POLL_RET (int (length fds)) (replicate (length fds) POLLHUP)),
     handle_wait = (\<lambda>h. None)\<rparr>"

definition interrupted_poll :: linux_sys where
  "interrupted_poll = \<lparr>sys_ppoll = (\<lambda>fds ts. POLL_ERR EINTR), handle_wait = (\<lambda>h. None)\<rparr>"

definition idle_poll :: linux_sys where
  "idle_poll = \<lparr>sys_ppoll = (\<lambda>fds ts. POLL_RET 0 []), handle_wait = (\<lambda>h. None)\<rparr>"

definition input_then_hangup :: linux_sys where
  "input_then_hangup =
    \<lparr>sys_ppoll = (\<lambda>fds ts. POLL_RET (int (length fds)) (POLLIN # replicate (length fds - 1) POLLHUP)),
     handle_wait = (\<lambda>h. None)\<rparr>"

section \<open>IPC ports and the helper (\<open>shim_ipc_helper.c\<close>)\<close>

subsection \<open>Data\<close>

text \<open>
  A port is addressed by a number (its address); the ports live in a store. A
  teardown callback (\<open>port_fini\<close>) is a function pointer: \<open>ipc_broadcast_exit\<close> of
  this file, or one of another file, known by its address only.
\<close>

type_synonym IDTYPE = "32 word"

datatype port_fini = ipc_broadcast_exit | fini_callback nat

text \<open>An outstanding request on a port's \<open>msgs\<close> list: its object and the waiting thread.\<close>

record shim_ipc_msg_obj =
  obj_id :: nat
  obj_thread :: "nat option"

text \<open>
  The fields of \<open>struct shim_ipc_port\<close> that the functions below use. \<open>fini\<close> is the
  array of \<open>MAX_IPC_PORT_FINI_CB\<close> callbacks, a null entry being \<open>None\<close>; \<open>freed\<close>
  says that the object went back to the memory manager. Whether the port is on the
  port list and in the hash table is read off those two collections.
\<close>

record shim_ipc_port =
  pal_handle :: "nat option"
  info_vmid :: IDTYPE
  info_type :: "32 word"
  fini :: "nat \<Rightarrow> port_fini option"
  update :: bool
  recent :: bool
  ref_count :: int
  msgs :: "shim_ipc_msg_obj list"
  freed :: bool

datatype helper_state =
    HELPER_UNINITIALIZED
  | HELPER_DELAYED
  | HELPER_NOTALIVE
  | HELPER_ALIVE
  | HELPER_HANDEDOVER

text \<open>A message: the header fields and the payload.\<close>

record shim_ipc_msg =
  msg_code :: nat
  msg_size :: int
  msg_src :: IDTYPE
  msg_dst :: IDTYPE
  msg_seq :: nat
  msg_payload :: "8 word list"

text \<open>What the functions do to the world outside the port manager, in order.\<close>

datatype ipc_event =
    OBJECT_CLOSE nat
  | FINI_CALL port_fini nat IDTYPE "32 word"
  | MSG_RETVAL nat int
  | THREAD_WAKEUP nat
  | SET_EVENT
  | THREAD_CREATE nat
  | SEND_MESSAGE nat shim_ipc_msg
  | CALLBACK nat shim_ipc_msg nat

text \<open>
  What the next calls of \<open>DkStreamRead\<close> will find on the stream: data, or a failure
  with its PAL error.
\<close>

datatype read_outcome = READ_DATA "8 word list" | READ_FAIL nat

text \<open>
  The globals of the file: the port store, the port list \<open>pobj_list\<close> (head first),
  the hash table \<open>ipc_port_pool\<close> (bucket number to chain, head first), the state of
  the helper, and \<open>broadcast_port\<close>. \<open>pal_errno\<close> is the thread's last PAL error
  (\<open>PAL_NATIVE_ERRNO\<close>), \<open>stream\<close> what is to come on the stream that is read.
\<close>

record ipc_state =
  ports :: "nat \<Rightarrow> shim_ipc_port"
  pobj_list :: "nat list"
  ipc_port_pool :: "nat \<Rightarrow> nat list"
  ipc_helper_state :: helper_state
  ipc_helper_thread :: "nat option"
  ipc_helper_update :: bool
  broadcast_port :: "nat option"
  pal_errno :: nat
  stream :: "read_outcome list"
  trace :: "ipc_event list"

text \<open>
  What the file takes from its headers and from the rest of the library OS, none of
  it among the sources at hand: the process id, the two role bits the port manager
  tests, the size of the callback array, the thread the caller runs on, and what thread
  allocation, thread creation and \<open>send_ipc_message\<close> answer. \<open>thread_create\<close>
  answers with the new handle, or with \<open>-PAL_ERRNO\<close> of its failure;
  \<open>send_ipc_message\<close> with its return value and the message as it leaves it.
\<close>

record shim_env =
  cur_vmid :: IDTYPE
  IPC_PORT_IFPOLL :: "32 word"
  IPC_PORT_KEEPALIVE :: "32 word"
  MAX_IPC_PORT_FINI_CB :: nat
  get_cur_thread :: "nat option"
  get_new_internal_thread :: "nat option"
  thread_create :: "nat \<Rightarrow> int + nat"
  send_ipc_message :: "shim_ipc_msg \<Rightarrow> nat \<Rightarrow> int \<times> shim_ipc_msg"

text \<open>Error numbers of Linux.\<close>

definition ECHILD :: int where "ECHILD = 10"
definition EAGAIN :: int where "EAGAIN = 11"
definition ENOMEM :: int where "ENOMEM = 12"
definition ECONNRESET :: int where "ECONNRESET = 104"

definition PID_HASH_NUM :: nat where "PID_HASH_NUM = 64"

definition PID_HASH :: "IDTYPE \<Rightarrow> nat" where
  "PID_HASH pid = unat (pid AND 63)"

definition update_port :: "nat \<Rightarrow> (shim_ipc_port \<Rightarrow> shim_ipc_port) \<Rightarrow> ipc_state \<Rightarrow> ipc_state" where
  "update_port port f s = s\<lparr>ports := (ports s)(port := f (ports s port))\<rparr>"

definition emit :: "ipc_event \<Rightarrow> ipc_state \<Rightarrow> ipc_state" where
  "emit e s = s\<lparr>trace := trace s @ [e]\<rparr>"

text \<open>\<open>list_empty(&port->list)\<close> and \<open>hlist_unhashed(&port->hlist)\<close>\<close>

definition list_empty :: "ipc_state \<Rightarrow> nat \<Rightarrow> bool" where
  "list_empty s port = (port \<notin> set (pobj_list s))"

definition hlist_unhashed :: "ipc_state \<Rightarrow> nat \<Rightarrow> bool" where
  "hlist_unhashed s port = list_all (\<lambda>b. port \<notin> set (ipc_port_pool s b)) [0..<PID_HASH_NUM]"

definition list_del_init :: "nat \<Rightarrow> ipc_state \<Rightarrow> ipc_state" where
  "list_del_init port s = s\<lparr>pobj_list := removeAll port (pobj_list s)\<rparr>"

definition hlist_del_init :: "nat \<Rightarrow> ipc_state \<Rightarrow> ipc_state" where
  "hlist_del_init port s = s\<lparr>ipc_port_pool := (\<lambda>b. removeAll port (ipc_port_pool s b))\<rparr>"

definition IN_HELPER :: "shim_env \<Rightarrow> ipc_state \<Rightarrow> bool" where
  "IN_HELPER E s = (ipc_helper_thread s \<noteq> None \<and> ipc_helper_thread s = get_cur_thread E)"

subsection \<open>Reference counts\<close>

definition get_ipc_port :: "nat \<Rightarrow> ipc_state \<Rightarrow> ipc_state" where
  "get_ipc_port pobj s = update_port pobj (\<lambda>p. p\<lparr>ref_count := ref_count p + 1\<rparr>) s"

text \<open>
  \<open>REF_DEC\<close> gives the count after the decrement. At zero the handle is closed and
  cleared and the object is freed.
\<close>

definition put_ipc_port :: "nat \<Rightarrow> ipc_state \<Rightarrow> ipc_state" where
  "put_ipc_port pobj s =
    (let s1 = update_port pobj (\<lambda>p. p\<lparr>ref_count := ref_count p - 1\<rparr>) s in
     if ref_count (ports s1 pobj) = 0 then
       let s2 = (case pal_handle (ports s1 pobj) of
                   None \<Rightarrow> s1
                 | Some hdl \<Rightarrow> update_port pobj (\<lambda>p. p\<lparr>pal_handle := None\<rparr>) (emit (OBJECT_CLOSE hdl) s1))
       in update_port pobj (\<lambda>p. p\<lparr>freed := True\<rparr>) s2
     else s1)"

subsection \<open>The helper's state machine\<close>

text \<open>
  \<open>create_ipc_helper\<close>. The second test of the state, under the lock, repeats the first
  one; it only differs when another thread runs in between.
\<close>

definition create_ipc_helper :: "shim_env \<Rightarrow> ipc_state \<Rightarrow> int \<times> ipc_state" where
  "create_ipc_helper E s =
    (if ipc_helper_state s = HELPER_ALIVE then (0, s)
     else
       (case get_new_internal_thread E of
          None \<Rightarrow> (- ENOMEM, s)
        | Some new \<Rightarrow>
            if ipc_helper_state s = HELPER_ALIVE then (0, s)
            else
              let s1 = s\<lparr>ipc_helper_thread := Some new, ipc_helper_state := HELPER_ALIVE\<rparr> in
              (case thread_create E new of
                 Inl ret \<Rightarrow>
                   (ret, s1\<lparr>ipc_helper_thread := None, ipc_helper_state := HELPER_NOTALIVE\<rparr>)
               | Inr handle \<Rightarrow> (0, emit (THREAD_CREATE new) s1))))"

definition restart_ipc_helper :: "shim_env \<Rightarrow> bool \<Rightarrow> ipc_state \<Rightarrow> ipc_state" where
  "restart_ipc_helper E need_create s =
    (case ipc_helper_state s of
       HELPER_UNINITIALIZED \<Rightarrow> s\<lparr>ipc_helper_state := HELPER_DELAYED\<rparr>
     | HELPER_DELAYED \<Rightarrow> s
     | HELPER_NOTALIVE \<Rightarrow> (if need_create then snd (create_ipc_helper E s) else s)
     | HELPER_ALIVE \<Rightarrow>
         (if IN_HELPER E s then s\<lparr>ipc_helper_update := True\<rparr> else emit SET_EVENT s)
     | HELPER_HANDEDOVER \<Rightarrow> s\<lparr>ipc_helper_update := True\<rparr>)"

definition exit_with_ipc_helper :: "shim_env \<Rightarrow> bool \<Rightarrow> ipc_state \<Rightarrow> int \<times> ipc_state" where
  "exit_with_ipc_helper E handover s =
    (if IN_HELPER E s \<or> ipc_helper_state s \<noteq> HELPER_ALIVE then (0, s)
     else
       let handover1 =
             (if handover
              then list_ex (\<lambda>pobj. info_type (ports s pobj) AND IPC_PORT_KEEPALIVE E \<noteq> 0) (pobj_list s)
              else False);
           new_state = (if handover1 then HELPER_HANDEDOVER else HELPER_NOTALIVE)
       in (if new_state = HELPER_NOTALIVE then 0 else - EAGAIN,
           emit SET_EVENT (s\<lparr>ipc_helper_state := new_state\<rparr>)))"

subsection \<open>Admitting and evicting a port\<close>

text \<open>
  \<open>__add_ipc_port\<close>, in the three parts of its body. The search of the callback array
  stops at the first slot that is empty or holds the callback; the assertion fails when
  there is none.
\<close>

definition fini_slot :: "shim_env \<Rightarrow> (nat \<Rightarrow> port_fini option) \<Rightarrow> port_fini \<Rightarrow> nat option" where
  "fini_slot E a f = find (\<lambda>cb. a cb = None \<or> a cb = Some f) [0..<MAX_IPC_PORT_FINI_CB E]"

text \<open>The peer id, the hash table and the roles (the first three \<open>if\<close>s and \<open>need_restart\<close>).\<close>

definition add_port_roles ::
  "shim_env \<Rightarrow> nat \<Rightarrow> IDTYPE \<Rightarrow> 32 word \<Rightarrow> ipc_state \<Rightarrow> bool \<times> ipc_state"
where
  "add_port_roles E port vmid type s =
    (let s1 = (if vmid \<noteq> 0 \<and> info_vmid (ports s port) = 0
               then update_port port (\<lambda>p. p\<lparr>info_vmid := vmid, update := True\<rparr>) s
               else s);
         s2 = (if info_vmid (ports s1 port) \<noteq> 0 \<and> hlist_unhashed s1 port
               then (let s' = get_ipc_port port s1 in
                     s'\<lparr>ipc_port_pool :=
                          (ipc_port_pool s')(PID_HASH vmid := port # ipc_port_pool s' (PID_HASH vmid))\<rparr>)
               else s1);
         need_restart = (info_type (ports s2 port) AND IPC_PORT_IFPOLL E = 0
                         \<and> type AND IPC_PORT_IFPOLL E \<noteq> 0);
         s3 = (if info_type (ports s2 port) AND type \<noteq> type
               then update_port port (\<lambda>p. p\<lparr>info_type := info_type p OR type, update := True\<rparr>) s2
               else s2)
     in (need_restart, s3))"

text \<open>The callback (\<open>if (fini && (type & ~IPC_PORT_IFPOLL))\<close>).\<close>

definition add_port_fini ::
  "shim_env \<Rightarrow> nat \<Rightarrow> 32 word \<Rightarrow> port_fini option \<Rightarrow> ipc_state \<Rightarrow> crash + ipc_state"
where
  "add_port_fini E port type fini_cb s =
    (case fini_cb of
       None \<Rightarrow> Inr s
     | Some f \<Rightarrow>
         if type AND NOT (IPC_PORT_IFPOLL E) \<noteq> 0 then
           (case fini_slot E (fini (ports s port)) f of
              None \<Rightarrow> Inl ASSERT_FAILED
            | Some cb \<Rightarrow> Inr (update_port port (\<lambda>p. p\<lparr>fini := (fini p)(cb := Some f)\<rparr>) s))
         else Inr s)"

text \<open>The port list (\<open>if (need_restart) ... else ...\<close>).\<close>

definition add_port_list :: "nat \<Rightarrow> bool \<Rightarrow> ipc_state \<Rightarrow> bool \<times> ipc_state" where
  "add_port_list port need_restart s =
    (if need_restart then
       (if list_empty s port then
          (let s1 = get_ipc_port port s in
           (True, update_port port (\<lambda>p. p\<lparr>recent := True\<rparr>) (s1\<lparr>pobj_list := port # pobj_list s1\<rparr>)))
        else if \<not> recent (ports s port) then
          (let s1 = list_del_init port s in
           (True, update_port port (\<lambda>p. p\<lparr>recent := True\<rparr>) (s1\<lparr>pobj_list := port # pobj_list s1\<rparr>)))
        else (True, s))
     else
       (if list_empty s port then
          (let s1 = get_ipc_port port s in (False, s1\<lparr>pobj_list := pobj_list s1 @ [port]\<rparr>))
        else (False, s)))"

text \<open>\<open>__add_ipc_port\<close>, the part of \<open>add_ipc_port\<close> that runs under the lock.\<close>

definition add_ipc_port_locked ::
  "shim_env \<Rightarrow> nat \<Rightarrow> IDTYPE \<Rightarrow> 32 word \<Rightarrow> port_fini option \<Rightarrow> ipc_state \<Rightarrow> crash + bool \<times> ipc_state"
where
  "add_ipc_port_locked E port vmid type fini_cb s =
    (if vmid = cur_vmid E then Inl ASSERT_FAILED
     else
       let (need_restart, s3) = add_port_roles E port vmid type s in
       (case add_port_fini E port type fini_cb s3 of
          Inl c \<Rightarrow> Inl c
        | Inr s4 \<Rightarrow> Inr (add_port_list port need_restart s4)))"

text \<open>\<open>__del_ipc_port\<close>, the part of \<open>del_ipc_port\<close> that runs under the lock.\<close>

definition del_ipc_port_locked :: "shim_env \<Rightarrow> nat \<Rightarrow> 32 word \<Rightarrow> ipc_state \<Rightarrow> bool \<times> ipc_state" where
  "del_ipc_port_locked E port type0 s =
    (let p = ports s port;
         type = (if type0 \<noteq> 0 then type0 AND info_type p else info_type p);
         need_restart1 =
           ((type AND IPC_PORT_KEEPALIVE E) XOR (info_type p AND IPC_PORT_KEEPALIVE E) \<noteq> 0)
     in if info_type p AND NOT (type OR IPC_PORT_IFPOLL E OR IPC_PORT_KEEPALIVE E) \<noteq> 0 then
          (need_restart1,
           update_port port (\<lambda>p. p\<lparr>update := True\<rparr>)
             (update_port port (\<lambda>p. p\<lparr>info_type := info_type p AND NOT type\<rparr>) s))
        else
          let need_restart = (need_restart1 \<or> info_type p AND IPC_PORT_IFPOLL E \<noteq> 0);
              s1 = (if \<not> list_empty s port
                    then put_ipc_port port
                           (update_port port (\<lambda>p. p\<lparr>info_type := info_type p AND IPC_PORT_IFPOLL E\<rparr>)
                              (list_del_init port s))
                    else s);
              s2 = (if \<not> hlist_unhashed s1 port
                    then put_ipc_port port (hlist_del_init port s1)
                    else s1)
          in (need_restart, update_port port (\<lambda>p. p\<lparr>update := True\<rparr>) s2))"

subsection \<open>Broadcast\<close>

text \<open>
  A call of \<open>send_ipc_message\<close>: the event records the message as it is handed over,
  the environment gives the return value and the message as the call leaves it.
\<close>

definition do_send :: "shim_env \<Rightarrow> shim_ipc_msg \<Rightarrow> nat \<Rightarrow> ipc_state \<Rightarrow> int \<times> shim_ipc_msg \<times> ipc_state" where
  "do_send E msg port s =
    (let (ret, msg') = send_ipc_message E msg port
     in (ret, msg', emit (SEND_MESSAGE port msg) s))"

text \<open>
  The loop of \<open>broadcast_ipc\<close> over the port list. The exclusion array is a list, its
  length being \<open>exsize\<close>. The return value of a send is dropped.
\<close>

fun broadcast_ports ::
  "shim_env \<Rightarrow> nat list \<Rightarrow> 32 word \<Rightarrow> nat list \<Rightarrow> shim_ipc_msg \<times> ipc_state \<Rightarrow> shim_ipc_msg \<times> ipc_state"
where
  "broadcast_ports E exclude target_type [] (msg, s) = (msg, s)"
| "broadcast_ports E exclude target_type (pobj # rest) (msg, s) =
    (if info_type (ports s pobj) AND target_type \<noteq> 0 then
       (if exclude \<noteq> [] \<and> pobj \<in> set exclude
        then broadcast_ports E exclude target_type rest (msg, s)
        else
          let msg1 = msg\<lparr>msg_dst := info_vmid (ports s pobj)\<rparr>;
              (ret, msg2, s1) = do_send E msg1 pobj s
          in broadcast_ports E exclude target_type rest (msg2, s1))
     else broadcast_ports E exclude target_type rest (msg, s))"

definition broadcast_all ::
  "shim_env \<Rightarrow> nat list \<Rightarrow> 32 word \<Rightarrow> shim_ipc_msg \<times> ipc_state \<Rightarrow> int \<times> shim_ipc_msg \<times> ipc_state"
where
  "broadcast_all E exclude target_type ms =
    (let (msg', s') = broadcast_ports E exclude target_type (pobj_list (snd ms)) ms
     in (0, msg', s'))"

definition broadcast_ipc ::
  "shim_env \<Rightarrow> shim_ipc_msg \<Rightarrow> nat list \<Rightarrow> 32 word \<Rightarrow> ipc_state \<Rightarrow> int \<times> shim_ipc_msg \<times> ipc_state"
where
  "broadcast_ipc E msg exclude target_type s =
    (if target_type = 0 \<and> broadcast_port s \<noteq> None then
       (let bp = the (broadcast_port s) in
        if bp \<in> set exclude then (0, msg, s)
        else
          let s1 = get_ipc_port bp s;
              (ret, msg1, s2) = do_send E msg bp s1;
              s3 = put_ipc_port bp s2
          in if ret = 0 then (0, msg1, s3)
             else broadcast_all E exclude target_type (msg1, s3))
     else broadcast_all E exclude target_type (msg, s))"

text \<open>The messages that a run of events sends to a port.\<close>

fun sent_to :: "nat \<Rightarrow> ipc_event list \<Rightarrow> shim_ipc_msg list" where
  "sent_to port [] = []"
| "sent_to port (SEND_MESSAGE p m # es) = (if p = port then [m] else []) @ sent_to port es"
| "sent_to port (e # es) = sent_to port es"

subsection \<open>Teardown of a port\<close>

text \<open>
  A call of a teardown callback. \<open>ipc_broadcast_exit\<close> is in this file: it clears
  \<open>broadcast_port\<close> and drops its reference when the port is the broadcast port. Of
  the other callbacks only the call is known. The exit code is an \<open>unsigned int\<close>.
\<close>

definition run_fini :: "port_fini \<Rightarrow> nat \<Rightarrow> IDTYPE \<Rightarrow> 32 word \<Rightarrow> ipc_state \<Rightarrow> ipc_state" where
  "run_fini f port vmid exitcode s =
    (let s1 = emit (FINI_CALL f port vmid exitcode) s in
     case f of
       ipc_broadcast_exit \<Rightarrow>
         (if broadcast_port s1 = Some port
          then put_ipc_port port (s1\<lparr>broadcast_port := None\<rparr>)
          else s1)
     | fini_callback n \<Rightarrow> s1)"

text \<open>The loop over the outstanding requests: each gets \<open>-ECONNRESET\<close> and its thread is woken.\<close>

definition complete_msgs :: "nat \<Rightarrow> ipc_state \<Rightarrow> ipc_state" where
  "complete_msgs port s =
    update_port port (\<lambda>p. p\<lparr>msgs := []\<rparr>)
      (fold (\<lambda>m st.
               let st1 = emit (MSG_RETVAL (obj_id m) (- ECONNRESET)) st in
               case obj_thread m of None \<Rightarrow> st1 | Some t \<Rightarrow> emit (THREAD_WAKEUP t) st1)
            (msgs (ports s port)) s)"

text \<open>The callbacks that are installed, in the order of their slots.\<close>

definition installed_fini :: "shim_env \<Rightarrow> shim_ipc_port \<Rightarrow> port_fini list" where
  "installed_fini E p = concat (map (\<lambda>i. case fini p i of None \<Rightarrow> [] | Some f \<Rightarrow> [f]) [0..<MAX_IPC_PORT_FINI_CB E])"

definition del_ipc_port_fini :: "shim_env \<Rightarrow> nat \<Rightarrow> 32 word \<Rightarrow> ipc_state \<Rightarrow> crash + ipc_state" where
  "del_ipc_port_fini E port exitcode s =
    (if \<not> ref_count (ports s port) > 0 then Inl ASSERT_FAILED
     else
       let vmid = info_vmid (ports s port);
           called = installed_fini E (ports s port);
           s1 = update_port port
                  (\<lambda>p. p\<lparr>fini := (\<lambda>i. if i < MAX_IPC_PORT_FINI_CB E then None else fini p i)\<rparr>) s;
           s2 = get_ipc_port port s1;
           (need_restart, s3) = del_ipc_port_locked E port 0 s2;
           s4 = fold (\<lambda>f. run_fini f port vmid exitcode) called s3;
           s5 = (if \<not> list_empty s4 port then complete_msgs port s4 else s4);
           s6 = put_ipc_port port s5
       in if \<not> ref_count (ports s6 port) > 0 then Inl ASSERT_FAILED
          else Inr (if need_restart then restart_ipc_helper E False s6 else s6))"

subsection \<open>Receiving messages\<close>

text \<open>
  What \<open>receive_ipc_message\<close> takes from \<open>shim_ipc.h\<close> and from other files: the
  minimal size of a message and the read-ahead, the value \<open>RESPONSE_CALLBACK\<close>, the
  contents of fresh stack memory of a given size (\<open>__alloca\<close>), the layout of
  \<open>struct shim_ipc_msg\<close> (reading the message at the start of the buffer, and storing
  its \<open>size\<close> field), the table \<open>ipc_callbacks\<close> with what each callback returns, the
  translation \<open>PAL_ERRNO\<close> of the PAL error, and the response message that
  \<open>create_ipc_resp_msg_on_stack\<close> builds and the store of its \<open>retval\<close>.
\<close>

record recv_env =
  IPC_MSG_MINIMAL_SIZE :: nat
  IPC_MSG_READAHEAD :: nat
  RESPONSE_CALLBACK :: int
  alloca :: "nat \<Rightarrow> 8 word list"
  read_header :: "8 word list \<Rightarrow> shim_ipc_msg"
  write_size :: "int \<Rightarrow> 8 word list \<Rightarrow> 8 word list"
  ipc_callbacks :: "nat \<Rightarrow> (shim_ipc_msg \<Rightarrow> nat \<Rightarrow> int) option"
  convert_pal_errno :: "nat \<Rightarrow> int"
  create_ipc_resp_msg :: "int \<Rightarrow> IDTYPE \<Rightarrow> nat \<Rightarrow> shim_ipc_msg"
  set_retval :: "int \<Rightarrow> shim_ipc_msg \<Rightarrow> shim_ipc_msg"

text \<open>
  \<open>DkStreamRead\<close> returns the bytes it read, none on end of stream or failure; a
  failure sets the PAL error. Data beyond \<open>count\<close> stays on the stream.
\<close>

definition DkStreamRead :: "nat \<Rightarrow> ipc_state \<Rightarrow> 8 word list \<times> ipc_state" where
  "DkStreamRead count s =
    (case stream s of
       [] \<Rightarrow> ([], s)
     | READ_FAIL e # rest \<Rightarrow> ([], s\<lparr>pal_errno := e, stream := rest\<rparr>)
     | READ_DATA d # rest \<Rightarrow>
         (take count d,
          s\<lparr>stream := (if drop count d = [] then rest else READ_DATA (drop count d) # rest)\<rparr>))"

text \<open>The locals of \<open>receive_ipc_message\<close>; \<open>buf\<close> is the memory that \<open>msg\<close> points to, \<open>retv\<close> is \<open>ret\<close>.\<close>

record recv_locals =
  bufsize :: int
  buf :: "8 word list"
  expected_size :: int
  bytes :: int
  retv :: int

text \<open>
  The buffer is doubled until the expected size and the read-ahead fit. The size starts
  as the sum of the minimal size and the read-ahead and is positive then; for a size of
  0 the doubling in the C code would not end, where the function here stops. The
  arithmetic on \<open>int\<close> is taken without overflow.
\<close>

function grow_size :: "int \<Rightarrow> int \<Rightarrow> int" where
  "grow_size need bsz = (if bsz < need \<and> 0 < bsz then grow_size need (bsz * 2) else bsz)"
  by pat_completeness auto
termination
  by (relation "measure (\<lambda>(need, bsz). nat (need - bsz))") auto

declare grow_size.simps [simp del]

definition grow :: "recv_env \<Rightarrow> recv_locals \<Rightarrow> recv_locals" where
  "grow R l =
    (if expected_size l + int (IPC_MSG_READAHEAD R) > bufsize l then
       let bsz = grow_size (expected_size l + int (IPC_MSG_READAHEAD R)) (bufsize l);
           new_buff = alloca R (nat bsz)
       in l\<lparr>bufsize := bsz, buf := take (nat (bytes l)) (buf l) @ drop (nat (bytes l)) new_buff\<rparr>
     else l)"

text \<open>Bytes stored in memory at an offset.\<close>

definition store_at :: "nat \<Rightarrow> 8 word list \<Rightarrow> 8 word list \<Rightarrow> 8 word list" where
  "store_at n d mem = take n mem @ d @ drop (n + length d) mem"

text \<open>
  One pass from the label \<open>retry_read\<close> to the end of the body of the inner loop; the
  flag is false when the read returned 0 and the loop is left by \<open>break\<close>.
\<close>

definition read_once :: "recv_env \<Rightarrow> recv_locals \<times> ipc_state \<Rightarrow> bool \<times> recv_locals \<times> ipc_state" where
  "read_once R ls =
    (let l1 = grow R (fst ls);
         (d, s1) = DkStreamRead (nat (expected_size l1 - bytes l1 + int (IPC_MSG_READAHEAD R))) (snd ls)
     in if d = [] then (False, l1\<lparr>retv := 0\<rparr>, s1)
        else (True,
              l1\<lparr>buf := store_at (nat (bytes l1)) d (buf l1),
                 bytes := bytes l1 + int (length d),
                 retv := int (length d)\<rparr>,
              s1))"

fun stream_weight :: "read_outcome list \<Rightarrow> nat" where
  "stream_weight [] = 0"
| "stream_weight (READ_DATA d # rest) = Suc (length d) + stream_weight rest"
| "stream_weight (READ_FAIL e # rest) = Suc (stream_weight rest)"

lemma DkStreamRead_consumes:
  "DkStreamRead count s = (d, s1) \<Longrightarrow> d \<noteq> [] \<Longrightarrow> stream_weight (stream s1) < stream_weight (stream s)"
  by (cases "stream s" rule: stream_weight.cases)
     (auto simp add: DkStreamRead_def split: if_splits)

lemma read_once_consumes:
  "fst (read_once R ls) \<Longrightarrow>
   stream_weight (stream (snd (snd (read_once R ls)))) < stream_weight (stream (snd ls))"
  by (auto simp add: read_once_def Let_def split: prod.splits if_splits dest: DkStreamRead_consumes)

text \<open>The inner loop, entered at \<open>retry_read\<close>.\<close>

function read_body :: "recv_env \<Rightarrow> recv_locals \<times> ipc_state \<Rightarrow> recv_locals \<times> ipc_state" where
  "read_body R ls =
    (if fst (read_once R ls)
        \<and> bytes (fst (snd (read_once R ls))) < expected_size (fst (snd (read_once R ls)))
     then read_body R (snd (read_once R ls))
     else snd (read_once R ls))"
  by pat_completeness auto
termination
  by (relation "measure (\<lambda>(R, ls). stream_weight (stream (snd ls)))")
     (auto simp add: read_once_consumes)

declare read_body.simps [simp del]

text \<open>The inner loop, entered at its head with the minimal size expected.\<close>

definition read_top :: "recv_env \<Rightarrow> recv_locals \<times> ipc_state \<Rightarrow> recv_locals \<times> ipc_state" where
  "read_top R ls =
    (let l = (fst ls)\<lparr>expected_size := int (IPC_MSG_MINIMAL_SIZE R)\<rparr>
     in if bytes l < expected_size l then read_body R (l, snd ls) else (l, snd ls))"

text \<open>\<open>__response_ipc_message\<close>\<close>

definition response_ipc_message ::
  "shim_env \<Rightarrow> recv_env \<Rightarrow> nat \<Rightarrow> IDTYPE \<Rightarrow> int \<Rightarrow> nat \<Rightarrow> ipc_state \<Rightarrow> int \<times> ipc_state"
where
  "response_ipc_message E R port dest r seq s =
    (let resp = create_ipc_resp_msg R r dest seq;
         r1 = (if r = RESPONSE_CALLBACK R then 0 else r);
         (r2, resp2, s1) = do_send E (set_retval R r1 resp) port s
     in (r2, s1))"

text \<open>
  The callback of the message's code, if the table has one, and the response that
  follows it. Of a callback the call and its return value are known.
\<close>

definition dispatch ::
  "shim_env \<Rightarrow> recv_env \<Rightarrow> nat \<Rightarrow> shim_ipc_msg \<Rightarrow> recv_locals \<times> ipc_state \<Rightarrow> recv_locals \<times> ipc_state"
where
  "dispatch E R port h ls =
    (case ipc_callbacks R (msg_code h) of
       None \<Rightarrow> ls
     | Some callback \<Rightarrow>
         let s1 = emit (CALLBACK (msg_code h) h port) (snd ls);
             r = callback h port
         in if (r < 0 \<or> r = RESPONSE_CALLBACK R) \<and> msg_seq h \<noteq> 0 then
              (let (r2, s2) = response_ipc_message E R port (msg_src h) r (msg_seq h) s1
               in ((fst ls)\<lparr>retv := r2\<rparr>, s2))
            else ((fst ls)\<lparr>retv := r\<rparr>, s1))"

text \<open>
  How a call ends: it returns a value, with the message it hands to the caller if any,
  or it stops at a failed assertion, or the model runs out of fuel. Each carries the
  state reached.
\<close>

datatype recv_outcome =
    OUT_OF_FUEL ipc_state
  | CRASHED crash ipc_state
  | RETURNED int "8 word list option" ipc_state

fun state_of :: "recv_outcome \<Rightarrow> ipc_state" where
  "state_of (OUT_OF_FUEL s) = s"
| "state_of (CRASHED c s) = s"
| "state_of (RETURNED r m s) = s"

text \<open>
  The message is handed to the caller: into the caller's buffer, cut to the \<open>size\<close>
  that buffer states (\<open>Some cap\<close>), or into a new one (\<open>None\<close>). This path returns
  without \<open>put_ipc_port\<close>.
\<close>

definition deliver :: "recv_env \<Rightarrow> int option \<Rightarrow> shim_ipc_msg \<Rightarrow> recv_locals \<times> ipc_state \<Rightarrow> recv_outcome" where
  "deliver R provided h ls =
    (let cut = (case provided of None \<Rightarrow> False | Some cap \<Rightarrow> msg_size h > cap);
         sz = (if cut then the provided else msg_size h);
         mem = (if cut then write_size R sz (buf (fst ls)) else buf (fst ls))
     in RETURNED 0 (Some (take (nat sz) mem)) (snd ls))"

text \<open>The end of the function behind the loop.\<close>

definition finish :: "nat \<Rightarrow> recv_locals \<times> ipc_state \<Rightarrow> recv_outcome" where
  "finish port ls = RETURNED (retv (fst ls)) None (put_ipc_port port (snd ls))"

text \<open>The label \<open>next\<close>: the message is taken off the front of the buffer.\<close>

definition consume :: "recv_locals \<Rightarrow> recv_locals" where
  "consume l =
    (let b = bytes l - expected_size l
     in l\<lparr>bytes := b,
          buf := (if b > 0
                  then take (nat b) (drop (nat (expected_size l)) (buf l)) @ drop (nat b) (buf l)
                  else buf l)\<rparr>)"

text \<open>
  The outer loop. An iteration starts at the head of the \<open>do\<close> body or, after
  \<open>goto retry_read\<close>, inside the inner loop; it runs to the next such point or to
  the end of the call. The loop need not end (a message that states the size 0 is never
  consumed), so the iterations are counted down from a given number. \<open>msgptr\<close> is \<open>None\<close> for a null pointer, \<open>Some None\<close> when it points to a
  null pointer and \<open>Some (Some cap)\<close> when it points to a buffer that states the size
  \<open>cap\<close>.
\<close>

datatype entry = LOOP_HEAD | RETRY_READ

text \<open>One iteration: the call ends, or the loop goes on at an entry.\<close>

datatype recv_step = DONE recv_outcome | AGAIN entry "recv_locals \<times> ipc_state"

text \<open>
  The inner loop ended with no byte in the buffer (\<open>if (!bytes)\<close>): with a PAL error
  the port is torn down and the PAL error is returned, then the loop is left.
\<close>

definition stream_closed :: "shim_env \<Rightarrow> recv_env \<Rightarrow> nat \<Rightarrow> recv_locals \<times> ipc_state \<Rightarrow> recv_outcome" where
  "stream_closed E R port ls =
    (if pal_errno (snd ls) \<noteq> 0 then
       (case del_ipc_port_fini E port (word_of_int (- ECHILD)) (snd ls) of
          Inl c \<Rightarrow> CRASHED c (snd ls)
        | Inr s2 \<Rightarrow> finish port ((fst ls)\<lparr>retv := - convert_pal_errno R (pal_errno s2)\<rparr>, s2))
     else finish port ls)"

text \<open>A message of the process itself is skipped, any other goes to its callback.\<close>

definition skip_or_dispatch ::
  "shim_env \<Rightarrow> recv_env \<Rightarrow> nat \<Rightarrow> shim_ipc_msg \<Rightarrow> recv_locals \<times> ipc_state \<Rightarrow> recv_locals \<times> ipc_state"
where
  "skip_or_dispatch E R port h ls =
    (if msg_src h = cur_vmid E then ls else dispatch E R port h ls)"

text \<open>The label \<open>next\<close> and the condition of the outer loop.\<close>

definition next_message :: "recv_env \<Rightarrow> nat \<Rightarrow> nat \<Rightarrow> recv_locals \<times> ipc_state \<Rightarrow> recv_step" where
  "next_message R port seq ls =
    (let l4 = consume (fst ls)
     in if bytes l4 > 0 \<or> (seq \<noteq> 0 \<and> msg_seq (read_header R (buf l4)) \<noteq> seq)
        then AGAIN LOOP_HEAD (l4, snd ls)
        else DONE (finish port (l4, snd ls)))"

definition recv_iteration ::
  "shim_env \<Rightarrow> recv_env \<Rightarrow> nat \<Rightarrow> nat \<Rightarrow> int option option \<Rightarrow> entry
     \<Rightarrow> recv_locals \<times> ipc_state \<Rightarrow> recv_step"
where
  "recv_iteration E R port seq msgptr e ls =
    (let ls1 = (case e of LOOP_HEAD \<Rightarrow> read_top R ls | RETRY_READ \<Rightarrow> read_body R ls)
     in if bytes (fst ls1) = 0 then DONE (stream_closed E R port ls1)
        else
          let h = read_header R (buf (fst ls1));
              ls2 = ((fst ls1)\<lparr>expected_size := msg_size h\<rparr>, snd ls1)
          in if bytes (fst ls2) < expected_size (fst ls2) then AGAIN RETRY_READ ls2
             else if msgptr \<noteq> None \<and> (seq = 0 \<or> msg_seq h = seq)
             then DONE (deliver R (the msgptr) h ls2)
             else next_message R port seq (skip_or_dispatch E R port h ls2))"

fun recv_loop ::
  "nat \<Rightarrow> shim_env \<Rightarrow> recv_env \<Rightarrow> nat \<Rightarrow> nat \<Rightarrow> int option option \<Rightarrow> entry
     \<Rightarrow> recv_locals \<times> ipc_state \<Rightarrow> recv_outcome"
where
  "recv_loop 0 E R port seq msgptr e ls = OUT_OF_FUEL (snd ls)"
| "recv_loop (Suc n) E R port seq msgptr e ls =
    (case recv_iteration E R port seq msgptr e ls of
       DONE outcome \<Rightarrow> outcome
     | AGAIN e' ls' \<Rightarrow> recv_loop n E R port seq msgptr e' ls')"

text \<open>The locals when the loop is entered: a buffer for a minimal message and the read-ahead.\<close>

definition entry_locals :: "recv_env \<Rightarrow> recv_locals" where
  "entry_locals R =
    (let bufsize0 = int (IPC_MSG_MINIMAL_SIZE R + IPC_MSG_READAHEAD R)
     in \<lparr>bufsize = bufsize0, buf = alloca R (nat bufsize0), expected_size = 0,
         bytes = 0, retv = 0\<rparr>)"

definition receive_ipc_message ::
  "nat \<Rightarrow> shim_env \<Rightarrow> recv_env \<Rightarrow> nat \<Rightarrow> nat \<Rightarrow> int option option \<Rightarrow> ipc_state \<Rightarrow> recv_outcome"
where
  "receive_ipc_message fuel E R port seq msgptr s =
    recv_loop fuel E R port seq msgptr LOOP_HEAD (entry_locals R, get_ipc_port port s)"

subsection \<open>Runs of events\<close>

text \<open>
  A state extends another by events of a kind when its trace is the other's followed by
  such events only.
\<close>

definition extends :: "(ipc_event \<Rightarrow> bool) \<Rightarrow> ipc_state \<Rightarrow> ipc_state \<Rightarrow> bool" where
  "extends P s s' = (\<exists>new. trace s' = trace s @ new \<and> list_all P new)"

text \<open>Any event but the call of a message callback on a message of the process itself.\<close>

definition benign :: "shim_env \<Rightarrow> ipc_event \<Rightarrow> bool" where
  "benign E e = (case e of CALLBACK code m port \<Rightarrow> msg_src m \<noteq> cur_vmid E | _ \<Rightarrow> True)"

text \<open>
  The events of the teardown of a port: no message is sent or dispatched, and every
  teardown callback is called on that port with its peer id and the exit code.
\<close>

definition teardown_event :: "nat \<Rightarrow> IDTYPE \<Rightarrow> 32 word \<Rightarrow> ipc_event \<Rightarrow> bool" where
  "teardown_event port vmid exitcode e =
    (case e of
       CALLBACK code m p \<Rightarrow> False
     | SEND_MESSAGE p m \<Rightarrow> False
     | FINI_CALL f p v c \<Rightarrow> p = port \<and> v = vmid \<and> c = exitcode
     | _ \<Rightarrow> True)"

subsection \<open>Values for running the port manager\<close>

text \<open>\<open>__get_new_ipc_port\<close>: a zeroed object with the handle, one reference, \<open>update\<close> set.\<close>

definition get_new_ipc_port :: "nat option \<Rightarrow> shim_ipc_port" where
  "get_new_ipc_port hdl =
    \<lparr>pal_handle = hdl, info_vmid = 0, info_type = 0, fini = (\<lambda>cb. None), update = True,
     recent = False, ref_count = 1, msgs = [], freed = False\<rparr>"

text \<open>
  A process with id 1 whose caller runs on thread 7. The role bits are \<open>LISTEN\<close> = 2,
  \<open>DIRPRT\<close> = 16, \<open>IFPOLL\<close> = 2048 and \<open>KEEPALIVE\<close> = 4096; the callback array has 3
  slots. Threads can be had, and a send succeeds and stamps the sender.
\<close>

definition LISTEN :: "32 word" where "LISTEN = 2"
definition DIRPRT :: "32 word" where "DIRPRT = 16"
definition IFPOLL :: "32 word" where "IFPOLL = 2048"
definition KEEPALIVE :: "32 word" where "KEEPALIVE = 4096"

definition shim1 :: shim_env where
  "shim1 =
    \<lparr>cur_vmid = 1, IPC_PORT_IFPOLL = IFPOLL, IPC_PORT_KEEPALIVE = KEEPALIVE,
     MAX_IPC_PORT_FINI_CB = 3, get_cur_thread = Some 7, get_new_internal_thread = Some 9,
     thread_create = (\<lambda>t. Inr 100),
     send_ipc_message = (\<lambda>m port. (0, m\<lparr>msg_src := 1\<rparr>))\<rparr>"

text \<open>The same process when no thread object can be allocated, and when no thread can be created.\<close>

definition no_threads :: shim_env where
  "no_threads = shim1\<lparr>get_new_internal_thread := None\<rparr>"

definition failing_create :: shim_env where
  "failing_create = shim1\<lparr>thread_create := (\<lambda>new. Inl (- ENOMEM))\<rparr>"

text \<open>No port admitted yet; port \<open>n\<close> is a fresh object on handle \<open>100 + n\<close>.\<close>

definition boot :: ipc_state where
  "boot =
    \<lparr>ports = (\<lambda>port. get_new_ipc_port (Some (100 + port))), pobj_list = [],
     ipc_port_pool = (\<lambda>b. []), ipc_helper_state = HELPER_UNINITIALIZED,
     ipc_helper_thread = None, ipc_helper_update = False, broadcast_port = None,
     pal_errno = 0, stream = [], trace = []\<rparr>"

text \<open>Port 0 on the list with the given roles, the helper alive on the given thread.\<close>

definition one_port :: "32 word \<Rightarrow> nat \<Rightarrow> ipc_state" where
  "one_port type helper =
    boot\<lparr>ports := (ports boot)(0 := (get_new_ipc_port (Some 100))\<lparr>info_type := type, ref_count := 2\<rparr>),
         pobj_list := [0], ipc_helper_state := HELPER_ALIVE, ipc_helper_thread := Some helper\<rparr>"

text \<open>Port 0 admitted for peer 7 with the roles \<open>LISTEN\<close>, \<open>DIRPRT\<close> and \<open>IFPOLL\<close>.\<close>

definition admitted :: ipc_state where
  "admitted =
    (case add_ipc_port_locked shim1 0 7 (LISTEN OR DIRPRT OR IFPOLL) None boot of
       Inl c \<Rightarrow> boot
     | Inr (need_restart, s) \<Rightarrow> s)"

text \<open>The same port after a callback was installed, and with all three slots taken.\<close>

definition admitted_fini :: ipc_state where
  "admitted_fini =
    (case add_ipc_port_locked shim1 0 7 LISTEN (Some (fini_callback 1)) admitted of
       Inl c \<Rightarrow> admitted
     | Inr (need_restart, s) \<Rightarrow> s)"

definition crowded :: ipc_state where
  "crowded = update_port 0 (\<lambda>p. p\<lparr>fini := (\<lambda>cb. Some (fini_callback cb))\<rparr>) admitted"

text \<open>
  Three ports on the list: ports 0 and 2 with the role \<open>DIRPRT\<close>, port 1 with
  \<open>LISTEN\<close>; their peers are 10, 11 and 12. A send fails on every port but 2.
\<close>

definition three_ports :: ipc_state where
  "three_ports =
    boot\<lparr>ports := (\<lambda>port. (get_new_ipc_port (Some (100 + port)))
                     \<lparr>info_vmid := 10 + of_nat port,
                      info_type := (if port = 1 then LISTEN else DIRPRT),
                      ref_count := 2\<rparr>),
         pobj_list := [0, 1, 2]\<rparr>"

definition failing_sends :: shim_env where
  "failing_sends = shim1\<lparr>send_ipc_message := (\<lambda>m port. (if port = 2 then 0 else - ECHILD, m))\<rparr>"

definition hello :: shim_ipc_msg where
  "hello = \<lparr>msg_code = 1, msg_size = 32, msg_src = 1, msg_dst = 0, msg_seq = 0, msg_payload = []\<rparr>"

text \<open>
  A layout for running the receive routine: a header of five bytes (code, size, source,
  destination, sequence number), the rest being payload; a read-ahead of three bytes;
  fresh stack memory is zero. Every code has a callback that returns 0.
\<close>

definition byte_at :: "8 word list \<Rightarrow> nat \<Rightarrow> 8 word" where
  "byte_at mem i = (if i < length mem then mem ! i else 0)"

definition recv1 :: recv_env where
  "recv1 =
    \<lparr>IPC_MSG_MINIMAL_SIZE = 5, IPC_MSG_READAHEAD = 3, RESPONSE_CALLBACK = 1,
     alloca = (\<lambda>n. replicate n 0),
     read_header = (\<lambda>mem. \<lparr>msg_code = unat (byte_at mem 0), msg_size = uint (byte_at mem 1),
                           msg_src = ucast (byte_at mem 2), msg_dst = ucast (byte_at mem 3),
                           msg_seq = unat (byte_at mem 4),
                           msg_payload = take (unat (byte_at mem 1) - 5) (drop 5 mem)\<rparr>),
     write_size = (\<lambda>sz mem. mem[1 := word_of_int sz]),
     ipc_callbacks = (\<lambda>code. Some (\<lambda>m port. 0)),
     convert_pal_errno = (\<lambda>e. int e),
     create_ipc_resp_msg = (\<lambda>r dest seq.
        \<lparr>msg_code = 0, msg_size = 6, msg_src = 1, msg_dst = dest, msg_seq = seq, msg_payload = []\<rparr>),
     set_retval = (\<lambda>r m. m\<lparr>msg_payload := [word_of_int r]\<rparr>)\<rparr>"

text \<open>
  The admitted port with its callback, when the stream fails at once with the PAL error
  7, and when it carries three messages: one of peer 9, one of the process itself, and a
  reply of peer 8 with the sequence number 4 that arrives in two pieces.
\<close>

definition broken :: ipc_state where
  "broken = admitted_fini\<lparr>stream := [READ_FAIL 7]\<rparr>"

definition busy :: ipc_state where
  "busy = admitted_fini\<lparr>stream := [READ_DATA [3, 5, 9, 1, 0], READ_DATA [4, 6, 1, 1, 0, 42],
                                    READ_DATA [3, 7, 8], READ_DATA [1, 4, 1, 2]]\<rparr>"

text \<open>The stream carries one message, of the process itself.\<close>

definition echo :: ipc_state where
  "echo = admitted_fini\<lparr>stream := [READ_DATA [4, 6, 1, 1, 0, 42]]\<rparr>"

section \<open>Properties of the eventfd driver\<close>

lemma eventfd_pal_close_closes:
  "eventfd_pal_close linux_pal_defs willing_host open_eventfd = (0, closed_eventfd, [OCALL_CLOSE 5])"
  by (simp add: eventfd_pal_close_def IS_HANDLE_TYPE_eventfd_def open_eventfd_def
      closed_eventfd_def linux_pal_defs_def)

lemma eventfd_pal_close_idempotent:
  "eventfd_fd handle = PAL_IDX_POISON D \<Longrightarrow> eventfd_pal_close D H handle = (0, handle, [])"
  by (simp add: eventfd_pal_close_def)

lemma eventfd_pal_attrquerybyhdl_closed:
  "eventfd_fd handle = PAL_IDX_POISON D \<Longrightarrow>
   eventfd_pal_attrquerybyhdl D H handle attr = (Inl PAL_ERROR_BADHANDLE, attr, [])"
  by (simp add: eventfd_pal_attrquerybyhdl_def)

text \<open>
  C9. Close is idempotent and the attribute query refuses a closed handle, but read and
  write have no such guard: on a closed handle (descriptor poisoned) they pass the
  poison value to the host and return what the host answers. Here the host answers 8,
  and both calls succeed with 8 bytes after an ocall on descriptor -1.
\<close>

theorem eventfd_read_write_on_closed_handle:
  "eventfd_fd closed_eventfd = PAL_IDX_POISON linux_pal_defs
   \<and> eventfd_pal_close linux_pal_defs willing_host closed_eventfd = (0, closed_eventfd, [])
   \<and> fst (eventfd_pal_attrquerybyhdl linux_pal_defs willing_host closed_eventfd attr)
       = Inl PAL_ERROR_BADHANDLE
   \<and> eventfd_pal_read linux_pal_defs willing_host closed_eventfd 0 8
       = (Inr 8, [OCALL_READ (-1) 8])
   \<and> eventfd_pal_write linux_pal_defs willing_host closed_eventfd 0 8
       = (Inr 8, [OCALL_WRITE (-1) 8])"
  by (simp add: eventfd_pal_read_def eventfd_pal_write_def eventfd_pal_close_def
      eventfd_pal_attrquerybyhdl_def IS_HANDLE_TYPE_eventfd_def sizeof_uint64_def
      closed_eventfd_def open_eventfd_def linux_pal_defs_def willing_host_def)

text \<open>
  C10, as stated, asks for the not-connection error whenever the handle is not an
  eventfd handle. The offset is checked first: a handle of another type with a non-zero
  offset gets the invalid-argument error.
\<close>

theorem eventfd_rw_wrong_type_counterexample:
  "\<not> IS_HANDLE_TYPE_eventfd pipe_handle
   \<and> eventfd_pal_read linux_pal_defs willing_host pipe_handle 1 8 = (Inl PAL_ERROR_INVAL, [])
   \<and> eventfd_pal_write linux_pal_defs willing_host pipe_handle 1 8 = (Inl PAL_ERROR_INVAL, [])
   \<and> fst (eventfd_pal_read linux_pal_defs willing_host pipe_handle 1 8)
       \<noteq> Inl PAL_ERROR_NOTCONNECTION"
  by (simp add: eventfd_pal_read_def eventfd_pal_write_def IS_HANDLE_TYPE_eventfd_def
      pipe_handle_def open_eventfd_def)

text \<open>
  C10, amended. Read and write check, in this order and before any ocall: a non-zero
  offset gives the invalid-argument error for every handle; with a zero offset a handle
  that is not of eventfd type gives the not-connection error; and an eventfd handle
  with a length below 8 gives the invalid-argument error. So an eventfd handle with a
  non-zero offset or a length below 8 always gets the invalid-argument error.
\<close>

theorem eventfd_rw_argument_checks:
  "(offset \<noteq> 0 \<longrightarrow>
      eventfd_pal_read D H handle offset len = (Inl PAL_ERROR_INVAL, [])
      \<and> eventfd_pal_write D H handle offset len = (Inl PAL_ERROR_INVAL, []))
   \<and> (offset = 0 \<and> \<not> IS_HANDLE_TYPE_eventfd handle \<longrightarrow>
      eventfd_pal_read D H handle offset len = (Inl PAL_ERROR_NOTCONNECTION, [])
      \<and> eventfd_pal_write D H handle offset len = (Inl PAL_ERROR_NOTCONNECTION, []))
   \<and> (IS_HANDLE_TYPE_eventfd handle \<and> (offset \<noteq> 0 \<or> len < 8) \<longrightarrow>
      eventfd_pal_read D H handle offset len = (Inl PAL_ERROR_INVAL, [])
      \<and> eventfd_pal_write D H handle offset len = (Inl PAL_ERROR_INVAL, []))"
  by (auto simp add: eventfd_pal_read_def eventfd_pal_write_def sizeof_uint64_def)

theorem eventfd_rw_argument_checks_witness:
  "eventfd_pal_read linux_pal_defs willing_host open_eventfd 1 8 = (Inl PAL_ERROR_INVAL, [])
   \<and> eventfd_pal_write linux_pal_defs willing_host open_eventfd 1 8 = (Inl PAL_ERROR_INVAL, [])
   \<and> eventfd_pal_read linux_pal_defs willing_host pipe_handle 0 8
       = (Inl PAL_ERROR_NOTCONNECTION, [])
   \<and> eventfd_pal_write linux_pal_defs willing_host pipe_handle 0 8
       = (Inl PAL_ERROR_NOTCONNECTION, [])
   \<and> IS_HANDLE_TYPE_eventfd open_eventfd
   \<and> eventfd_pal_read linux_pal_defs willing_host open_eventfd 0 7 = (Inl PAL_ERROR_INVAL, [])
   \<and> eventfd_pal_write linux_pal_defs willing_host open_eventfd 0 7 = (Inl PAL_ERROR_INVAL, [])"
proof -
  have t1: "IS_HANDLE_TYPE_eventfd open_eventfd"
    by (simp add: IS_HANDLE_TYPE_eventfd_def open_eventfd_def)
  have t2: "\<not> IS_HANDLE_TYPE_eventfd pipe_handle"
    by (simp add: IS_HANDLE_TYPE_eventfd_def pipe_handle_def open_eventfd_def)
  show ?thesis
    using t1 t2
      eventfd_rw_argument_checks [of 1 linux_pal_defs willing_host open_eventfd 8]
      eventfd_rw_argument_checks [of 0 linux_pal_defs willing_host pipe_handle 8]
      eventfd_rw_argument_checks [of 0 linux_pal_defs willing_host open_eventfd 7]
    by simp
qed

section \<open>Properties of the wait for handles\<close>

lemma or_keeps_mask: "(f::'a::len word) AND m = m \<Longrightarrow> (f OR x) AND m = m"
  by (metis and.assoc word_ao_absorbs(7))

lemma note_revents_keeps: "flags AND m = m \<Longrightarrow> note_revents D j r flags AND m = m"
  by (simp add: note_revents_def Let_def or_keeps_mask)

lemma note_revents_error:
  "r AND (POLLHUP OR POLLERR) \<noteq> 0 \<Longrightarrow> note_revents D j r flags AND ERROR D j = ERROR D j"
  by (simp add: note_revents_def Let_def)

lemma note_one_keeps: "flags AND m = m \<Longrightarrow> note_one D zs flags AND m = m"
  by (induction zs arbitrary: flags) (auto simp add: note_revents_keeps)

lemma note_one_error:
  "(slot, r) \<in> set zs \<Longrightarrow> r AND (POLLHUP OR POLLERR) \<noteq> 0 \<Longrightarrow>
   note_one D zs flags AND ERROR D slot = ERROR D slot"
proof (induction zs arbitrary: flags)
  case Nil
  then show ?case by simp
next
  case (Cons z zs)
  obtain s' r' where z: "z = (s', r')" by (cases z)
  show ?case
  proof (cases "(slot, r) = z")
    case True
    with Cons.prems z have "r' \<noteq> 0" by auto
    with True z Cons.prems show ?thesis
      by (simp add: note_one_keeps note_revents_error)
  next
    case False
    with Cons z show ?thesis by auto
  qed
qed

lemma note_polled_keeps:
  "in_flags (s p) AND m = m \<Longrightarrow> in_flags (snd (note_polled D es (ph, s)) p) AND m = m"
proof (induction es arbitrary: ph s)
  case Nil
  then show ?case by simp
next
  case (Cons e es)
  obtain fd r hdl where e: "e = (fd, r, hdl)" by (cases e)
  have upd: "in_flags ((s(hdl := (s hdl)\<lparr>in_flags := note_revents D j r (in_flags (s hdl))\<rparr>)) p) AND m = m"
    for j
    using Cons.prems by (auto simp add: note_revents_keeps)
  let ?upd = "\<lambda>j. s(hdl := (s hdl)\<lparr>in_flags := note_revents D j r (in_flags (s hdl))\<rparr>)"
  have keep1: "in_flags (snd (note_polled D es (ph1, s)) p) AND m = m" for ph1
    by (rule Cons.IH) (rule Cons.prems)
  have keep2: "in_flags (snd (note_polled D es (ph1, ?upd j)) p) AND m = m" for ph1 j
    by (rule Cons.IH) (rule upd)
  show ?case
    using keep1 keep2 e by (simp split: option.splits)
qed

lemma note_polled_frame:
  "note_polled D es (ph, s) = (ph', s') \<Longrightarrow>
   (ph \<noteq> None \<longrightarrow> ph' = ph) \<and> (\<forall>q. Some q \<noteq> ph' \<longrightarrow> s' q = s q)"
proof (induction es arbitrary: ph s)
  case Nil
  then show ?case by simp
next
  case (Cons e es)
  obtain fd r hdl where e: "e = (fd, r, hdl)" by (cases e)
  show ?case
  proof (cases "r = 0 \<or> (ph \<noteq> None \<and> ph \<noteq> Some hdl)")
    case True
    with Cons.prems e have "note_polled D es (ph, s) = (ph', s')"
      by (auto split: if_splits)
    from Cons.IH [OF this] show ?thesis .
  next
    case False
    show ?thesis
    proof (cases "find_slot D (s hdl) fd")
      case None
      with False Cons.prems e have "note_polled D es (Some hdl, s) = (ph', s')" by auto
      from Cons.IH [OF this] False show ?thesis by auto
    next
      case (Some j)
      let ?s = "s(hdl := (s hdl)\<lparr>in_flags := note_revents D j r (in_flags (s hdl))\<rparr>)"
      from Some False Cons.prems e have "note_polled D es (Some hdl, ?s) = (ph', s')" by auto
      from Cons.IH [OF this] False show ?thesis by auto
    qed
  qed
qed

lemma note_polled_idle:
  "\<forall>e \<in> set es. fst (snd e) = 0 \<Longrightarrow> note_polled D es st = st"
proof (induction es)
  case Nil
  then show ?case by simp
next
  case (Cons e es)
  obtain fd r hdl where e: "e = (fd, r, hdl)" by (cases e)
  obtain ph s where st: "st = (ph, s)" by (cases st)
  from Cons e st show ?case by simp
qed

lemma note_polled_first:
  assumes "find (\<lambda>e. fst (snd e) \<noteq> 0) es = Some (fd, r, hdl)"
    and "note_polled D es (None, s) = (ph', s')"
  shows "ph' = Some hdl
    \<and> (r AND (POLLHUP OR POLLERR) \<noteq> 0 \<longrightarrow> (\<forall>j. find_slot D (s hdl) fd = Some j \<longrightarrow>
          in_flags (s' hdl) AND ERROR D j = ERROR D j))"
  using assms
proof (induction es)
  case Nil
  then show ?case by simp
next
  case (Cons e es)
  obtain fd1 r1 hdl1 where e: "e = (fd1, r1, hdl1)" by (cases e)
  show ?case
  proof (cases "r1 = 0")
    case True
    with Cons e show ?thesis by simp
  next
    case False
    with Cons.prems(1) e have same: "fd1 = fd" "r1 = r" "hdl1 = hdl" by simp_all
    show ?thesis
    proof (cases "find_slot D (s hdl) fd")
      case None
      with False same Cons.prems(2) e have "note_polled D es (Some hdl, s) = (ph', s')" by simp
      from note_polled_frame [OF this] None show ?thesis by simp
    next
      case (Some j)
      let ?s = "s(hdl := (s hdl)\<lparr>in_flags := note_revents D j r (in_flags (s hdl))\<rparr>)"
      from Some False same Cons.prems(2) e
      have run: "note_polled D es (Some hdl, ?s) = (ph', s')" by simp
      have "r AND (POLLHUP OR POLLERR) \<noteq> 0 \<Longrightarrow> in_flags (?s hdl) AND ERROR D j = ERROR D j"
        by (simp add: note_revents_error)
      then have "r AND (POLLHUP OR POLLERR) \<noteq> 0 \<Longrightarrow> in_flags (s' hdl) AND ERROR D j = ERROR D j"
        using note_polled_keeps [of ?s hdl "ERROR D j" D es "Some hdl"] run by simp
      with note_polled_frame [OF run] Some show ?thesis by simp
    qed
  qed
qed


lemma flags_apartD:
  "flags_apart D \<Longrightarrow> i < MAX_FDS D \<Longrightarrow> j < MAX_FDS D \<Longrightarrow>
   (WRITEABLE D i OR ERROR D i) AND (RFD D j OR WFD D j) = 0"
  by (simp add: flags_apart_def list_all_iff)

lemma apart_in_use:
  fixes flags :: "32 word"
  assumes "(w OR e) AND m = 0"
  shows "(flags OR w) AND m = flags AND m" "(flags OR e) AND m = flags AND m"
    "(flags OR w OR e) AND m = flags AND m"
proof -
  have w: "w AND m = 0" and e: "e AND m = 0"
    using assms by (simp_all add: bit.conj_disj_distrib2 or_eq_0_iff)
  show "(flags OR w) AND m = flags AND m" using w by (simp add: bit.conj_disj_distrib2)
  show "(flags OR e) AND m = flags AND m" using e by (simp add: bit.conj_disj_distrib2)
  show "(flags OR w OR e) AND m = flags AND m" using w e by (simp add: bit.conj_disj_distrib2)
qed

lemma note_revents_in_use:
  assumes "flags_apart D" "i < MAX_FDS D" "j < MAX_FDS D"
  shows "note_revents D i r flags AND (RFD D j OR WFD D j) = flags AND (RFD D j OR WFD D j)"
  using apart_in_use [OF flags_apartD [OF assms], of flags]
  by (simp add: note_revents_def Let_def or.assoc)

lemma find_slot_bound: "find_slot D h fd = Some j \<Longrightarrow> j < MAX_FDS D"
  by (auto simp add: find_slot_def find_Some_iff)

lemma find_slot_stable:
  assumes "flags_apart D" "i < MAX_FDS D"
  shows "find_slot D (h\<lparr>in_flags := note_revents D i r (in_flags h)\<rparr>) fd = find_slot D h fd"
  unfolding find_slot_def
  by (rule find_cong) (simp_all add: note_revents_in_use [OF assms])

lemma note_polled_started:
  "find (\<lambda>e. fst (snd e) \<noteq> 0) es = Some (fd, r, hdl) \<Longrightarrow>
   note_polled D es (None, s) = note_polled D es (Some hdl, s)"
proof (induction es)
  case Nil
  then show ?case by simp
next
  case (Cons e es)
  obtain fd1 r1 hdl1 where e: "e = (fd1, r1, hdl1)" by (cases e)
  show ?case
  proof (cases "r1 = 0")
    case True
    with Cons e show ?thesis by simp
  next
    case False
    with Cons.prems e have "hdl1 = hdl" by simp
    with False e show ?thesis by simp
  qed
qed

lemma note_polled_every:
  assumes apart: "flags_apart D"
  shows "note_polled D es (Some hdl, s) = (ph', s') \<Longrightarrow>
    (fd, r, hdl) \<in> set es \<Longrightarrow> r AND (POLLHUP OR POLLERR) \<noteq> 0 \<Longrightarrow>
    find_slot D (s hdl) fd = Some j \<Longrightarrow>
    in_flags (s' hdl) AND ERROR D j = ERROR D j"
proof (induction es arbitrary: s)
  case Nil
  then show ?case by simp
next
  case (Cons e es)
  obtain fd1 r1 hdl1 where e: "e = (fd1, r1, hdl1)" by (cases e)
  define s1 where "s1 =
    (if r1 = 0 \<or> hdl1 \<noteq> hdl then s
     else case find_slot D (s hdl) fd1 of
            None \<Rightarrow> s
          | Some k \<Rightarrow> s(hdl := (s hdl)\<lparr>in_flags := note_revents D k r1 (in_flags (s hdl))\<rparr>))"
  have run: "note_polled D es (Some hdl, s1) = (ph', s')"
    using Cons.prems(1) e by (auto simp add: s1_def split: option.splits if_splits)
  have same: "find_slot D (s1 hdl) fd = find_slot D (s hdl) fd"
    using find_slot_stable [OF apart find_slot_bound]
    by (auto simp add: s1_def split: option.splits)
  show ?case
  proof (cases "(fd, r, hdl) = e")
    case True
    with e Cons.prems(3) have r1: "r1 \<noteq> 0" "r1 = r" "fd1 = fd" "hdl1 = hdl" by auto
    with Cons.prems(4) have "s1 = s(hdl := (s hdl)\<lparr>in_flags := note_revents D j r (in_flags (s hdl))\<rparr>)"
      by (simp add: s1_def)
    then have "in_flags (s1 hdl) AND ERROR D j = ERROR D j"
      using Cons.prems(3) by (simp add: note_revents_error)
    from note_polled_keeps [where s=s1 and p=hdl and m="ERROR D j" and D=D and es=es
        and ph="Some hdl", OF this] run
    show ?thesis by simp
  next
    case False
    with Cons.prems(2) have "(fd, r, hdl) \<in> set es" by auto
    from Cons.IH [OF run this Cons.prems(3)] same Cons.prems(4) show ?thesis by simp
  qed
qed

lemma DkObjectsWaitAny_many:
  assumes multi: "2 \<le> count" and len: "nat count \<le> length handleArray"
    and fdsok: "\<not> list_ex (lacks_fds D store) (take (nat count) handleArray)"
  shows
   "(let fds = collect_pollfds D store (take (nat count) handleArray);
         answer = sys_ppoll S (poll_request fds) (timeout_ts timeout);
         result = DkObjectsWaitAny D S store count handleArray timeout polled
     in (fds = [] \<longrightarrow> result = Inr (Inl PAL_ERROR_TRYAGAIN, polled, store))
      \<and> (fds \<noteq> [] \<longrightarrow>
           (\<forall>e. answer = POLL_ERR e \<and> (e = EINTR \<or> e = ERESTART) \<longrightarrow>
                result = Inr (Inl PAL_ERROR_INTERRUPTED, polled, store))
         \<and> (\<forall>revs. answer = POLL_RET 0 revs \<longrightarrow>
                result = Inr (Inl PAL_ERROR_TRYAGAIN, polled, store))
         \<and> (\<forall>ret revs. answer = POLL_RET ret revs \<and> ret \<noteq> 0 \<longrightarrow>
              (\<exists>r ph store'. result = Inr (r, ph, store')
                 \<and> (\<forall>q. Some q \<noteq> ph \<longrightarrow> store' q = store q)
                 \<and> (case find (\<lambda>e. fst (snd e) \<noteq> 0) (polled_entries fds revs) of
                      None \<Rightarrow> r = Inl PAL_ERROR_TRYAGAIN \<and> ph = None
                    | Some (fd, revents, hdl) \<Rightarrow>
                        r = Inr 0 \<and> ph = Some hdl
                        \<and> (revents AND (POLLHUP OR POLLERR) \<noteq> 0 \<longrightarrow>
                             (\<forall>j. find_slot D (store hdl) fd = Some j \<longrightarrow>
                                in_flags (store' hdl) AND ERROR D j = ERROR D j))
                        \<and> (flags_apart D \<longrightarrow>
                             (\<forall>(fd', r', h') \<in> set (polled_entries fds revs).
                                h' = hdl \<and> r' AND (POLLHUP OR POLLERR) \<noteq> 0 \<longrightarrow>
                                (\<forall>j. find_slot D (store hdl) fd' = Some j \<longrightarrow>
                                   in_flags (store' hdl) AND ERROR D j = ERROR D j))))))))"
proof -
  define fds where "fds = collect_pollfds D store (take (nat count) handleArray)"
  define answer where "answer = sys_ppoll S (poll_request fds) (timeout_ts timeout)"
  define result where "result = DkObjectsWaitAny D S store count handleArray timeout polled"
  have pre: "\<not> count \<le> 0" "\<not> length handleArray < nat count" "count \<noteq> 1"
    using multi len by auto
  have unfold: "result =
    (if fds = [] then Inr (Inl PAL_ERROR_TRYAGAIN, polled, store)
     else (case answer of
              POLL_ERR e \<Rightarrow> Inr (Inl (poll_error D e), polled, store)
            | POLL_RET ret revs \<Rightarrow>
                if ret = 0 then Inr (Inl PAL_ERROR_TRYAGAIN, polled, store)
                else
                  (let (polled_hdl, store') = note_polled D (polled_entries fds revs) (None, store)
                   in Inr (if polled_hdl \<noteq> None then Inr 0 else Inl PAL_ERROR_TRYAGAIN,
                           polled_hdl, store'))))"
    unfolding result_def answer_def fds_def DkObjectsWaitAny_def
    using pre fdsok by (simp add: Let_def)
  have a: "fds = [] \<Longrightarrow> result = Inr (Inl PAL_ERROR_TRYAGAIN, polled, store)"
    using unfold by simp
  have b: "result = Inr (Inl PAL_ERROR_INTERRUPTED, polled, store)"
    if "fds \<noteq> []" "answer = POLL_ERR e" "e = EINTR \<or> e = ERESTART" for e
    using unfold that by (auto simp add: poll_error_def)
  have c: "result = Inr (Inl PAL_ERROR_TRYAGAIN, polled, store)"
    if "fds \<noteq> []" "answer = POLL_RET 0 revs" for revs
    using unfold that by simp
  have d: "\<exists>r ph store'. result = Inr (r, ph, store')
                 \<and> (\<forall>q. Some q \<noteq> ph \<longrightarrow> store' q = store q)
                 \<and> (case find (\<lambda>e. fst (snd e) \<noteq> 0) (polled_entries fds revs) of
                      None \<Rightarrow> r = Inl PAL_ERROR_TRYAGAIN \<and> ph = None
                    | Some (fd, revents, hdl) \<Rightarrow>
                        r = Inr 0 \<and> ph = Some hdl
                        \<and> (revents AND (POLLHUP OR POLLERR) \<noteq> 0 \<longrightarrow>
                             (\<forall>j. find_slot D (store hdl) fd = Some j \<longrightarrow>
                                in_flags (store' hdl) AND ERROR D j = ERROR D j))
                        \<and> (flags_apart D \<longrightarrow>
                             (\<forall>(fd', r', h') \<in> set (polled_entries fds revs).
                                h' = hdl \<and> r' AND (POLLHUP OR POLLERR) \<noteq> 0 \<longrightarrow>
                                (\<forall>j. find_slot D (store hdl) fd' = Some j \<longrightarrow>
                                   in_flags (store' hdl) AND ERROR D j = ERROR D j))))"
    if ne: "fds \<noteq> []" and ans: "answer = POLL_RET ret revs" and ret: "ret \<noteq> 0" for ret revs
  proof -
    obtain ph store' where run: "note_polled D (polled_entries fds revs) (None, store) = (ph, store')"
      by (cases "note_polled D (polled_entries fds revs) (None, store)")
    have res: "result = Inr (if ph \<noteq> None then Inr 0 else Inl PAL_ERROR_TRYAGAIN, ph, store')"
      using unfold ne ans ret run by simp
    have frame: "\<forall>q. Some q \<noteq> ph \<longrightarrow> store' q = store q"
      using note_polled_frame [OF run] by simp
    show ?thesis
    proof (cases "find (\<lambda>e. fst (snd e) \<noteq> 0) (polled_entries fds revs)")
      case None
      then have "\<forall>e \<in> set (polled_entries fds revs). fst (snd e) = 0"
        unfolding find_None_iff by blast
      from note_polled_idle [OF this] run have "ph = None" by simp
      with res frame None show ?thesis by simp
    next
      case (Some e)
      obtain fd revents hdl where e: "e = (fd, revents, hdl)" by (cases e)
      have run2: "note_polled D (polled_entries fds revs) (Some hdl, store) = (ph, store')"
        using note_polled_started [OF Some [unfolded e]] run by simp
      have every: "in_flags (store' hdl) AND ERROR D j = ERROR D j"
        if "flags_apart D" "(fd', r', hdl) \<in> set (polled_entries fds revs)"
          "r' AND (POLLHUP OR POLLERR) \<noteq> 0" "find_slot D (store hdl) fd' = Some j" for fd' r' j
        using note_polled_every [OF that(1) run2 that(2,3,4)] .
      have "flags_apart D \<longrightarrow>
             (\<forall>(fd', r', h') \<in> set (polled_entries fds revs).
                h' = hdl \<and> r' AND (POLLHUP OR POLLERR) \<noteq> 0 \<longrightarrow>
                (\<forall>j. find_slot D (store hdl) fd' = Some j \<longrightarrow>
                   in_flags (store' hdl) AND ERROR D j = ERROR D j))"
        using every by blast
      with note_polled_first [OF Some [unfolded e] run] res frame Some e
      show ?thesis by simp
    qed
  qed
  show ?thesis
    using a b c d unfolding Let_def fds_def [symmetric] answer_def [symmetric] result_def [symmetric]
    by blast
qed


lemma DkObjectsWaitAny_one:
  assumes one: "count = 1" and arr: "handleArray = Some h0 # rest"
    and fdsok: "in_flags (store h0) AND HAS_FDS D \<noteq> 0"
  shows
   "(let off = poll_slots D (store h0);
         answer = sys_ppoll S (slot_request D (store h0) off) (timeout_ts timeout);
         result = DkObjectsWaitAny D S store count handleArray timeout polled
     in (off = [] \<longrightarrow> result = Inr (Inl PAL_ERROR_TRYAGAIN, Some h0, store))
      \<and> (off \<noteq> [] \<longrightarrow>
           (\<forall>e. answer = POLL_ERR e \<and> (e = EINTR \<or> e = ERESTART) \<longrightarrow>
                result = Inr (Inl PAL_ERROR_INTERRUPTED, Some h0, store))
         \<and> (\<forall>revs. answer = POLL_RET 0 revs \<longrightarrow>
                result = Inr (Inl PAL_ERROR_TRYAGAIN, Some h0, store))
         \<and> (\<forall>ret revs. answer = POLL_RET ret revs \<and> ret \<noteq> 0 \<longrightarrow>
              (\<exists>store'. result = Inr (Inr 0, Some h0, store')
                 \<and> (\<forall>q. q \<noteq> h0 \<longrightarrow> store' q = store q)
                 \<and> (\<forall>(slot, revents) \<in> set (zip off (revents_of (length off) revs)).
                       revents AND (POLLHUP OR POLLERR) \<noteq> 0 \<longrightarrow>
                       in_flags (store' h0) AND ERROR D slot = ERROR D slot)))))"
  using one arr fdsok
  by (auto simp add: DkObjectsWaitAny_def DkObjectWaitOne_def Let_def poll_error_def
      note_one_error split: poll_result.splits)


lemma DkObjectsWaitAny_none:
  "count \<le> 0 \<Longrightarrow>
   DkObjectsWaitAny D S store count handleArray timeout polled = Inr (Inr 0, polled, store)"
  by (simp add: DkObjectsWaitAny_def)

lemma DkObjectsWaitAny_one_object:
  assumes "count = 1" "handleArray = Some h0 # rest" "in_flags (store h0) AND HAS_FDS D = 0"
  shows "DkObjectsWaitAny D S store count handleArray timeout polled
     = Inr (case handle_wait S h0 of None \<Rightarrow> Inl PAL_ERROR_NOTSUPPORT | Some wait \<Rightarrow> wait timeout,
            Some h0, store)"
  using assms
  by (simp add: DkObjectsWaitAny_def DkObjectWaitOne_def Let_def split: option.splits)

lemma DkObjectsWaitAny_objects:
  assumes "2 \<le> count" "nat count \<le> length handleArray"
    "list_ex (lacks_fds D store) (take (nat count) handleArray)"
  shows "DkObjectsWaitAny D S store count handleArray timeout polled
     = Inr (Inl PAL_ERROR_NOTSUPPORT, polled, store)"
  using assms by (simp add: DkObjectsWaitAny_def Let_def)

text \<open>
  C7, as stated, says that try-again is returned whenever no descriptor is eligible and
  that hang-ups and errors are recorded on the handle they belong to. With a count of
  zero the wait returns 0; and with two handles, input on the first and a hang-up on
  the second, the wait returns the first handle and the second handle's hang-up is not
  recorded.
\<close>

theorem DkObjectsWaitAny_counterexample:
  "DkObjectsWaitAny linux_pal_defs input_then_hangup two_handles 0 [] (-1) None
     = Inr (Inr 0, None, two_handles)
   \<and> polled_entries (collect_pollfds linux_pal_defs two_handles [Some 0, Some 1]) [POLLIN, POLLHUP]
     = [(10, POLLIN, 0), (11, POLLHUP, 1)]
   \<and> (case DkObjectsWaitAny linux_pal_defs input_then_hangup two_handles 2 [Some 0, Some 1] (-1) None of
         Inl c \<Rightarrow> False
       | Inr (r, ph, store') \<Rightarrow>
           r = Inr 0 \<and> ph = Some 0 \<and> in_flags (store' 1) AND ERROR linux_pal_defs 0 = 0)"
proof (intro conjI)
  show "DkObjectsWaitAny linux_pal_defs input_then_hangup two_handles 0 [] (-1) None
     = Inr (Inr 0, None, two_handles)"
    by (simp add: DkObjectsWaitAny_def)
  show "polled_entries (collect_pollfds linux_pal_defs two_handles [Some 0, Some 1]) [POLLIN, POLLHUP]
     = [(10, POLLIN, 0), (11, POLLHUP, 1)]"
    by code_simp
  show "(case DkObjectsWaitAny linux_pal_defs input_then_hangup two_handles 2 [Some 0, Some 1] (-1) None of
         Inl c \<Rightarrow> False
       | Inr (r, ph, store') \<Rightarrow>
           r = Inr 0 \<and> ph = Some 0 \<and> in_flags (store' 1) AND ERROR linux_pal_defs 0 = 0)"
    by code_simp
qed

text \<open>
  C7, amended. A count of 0 or less returns 0 and touches nothing. A single handle
  without descriptors is waited for by its own \<open>wait\<close> operation, not-supported if it
  has none; among two or more entries a handle without descriptors gives not-supported.
  For a single handle that has descriptors, and for two or more entries whose handles
  all have descriptors: the wait returns try-again when no descriptor is eligible for
  polling and when \<open>ppoll\<close> returns 0, and interrupted when \<open>ppoll\<close> fails with
  \<open>EINTR\<close> or \<open>ERESTART\<close>, leaving the handles as they were. When \<open>ppoll\<close> returns
  a non-zero count, the wait on a single handle returns 0, whatever the entries report,
  and the handle gets the error flag of every polled slot that reports a hang-up or an
  error. With several handles the first entry with events fixes the polled handle and
  the wait returns 0 (try-again if no entry has events); a hang-up or error of that
  entry sets the error flag of the first slot in use that holds its descriptor, and so
  does a hang-up or error of every other entry of the polled handle (the flags that
  are recorded being other bits than those that tell the slots in use); no handle but
  the polled one is changed.
\<close>

theorem DkObjectsWaitAny_outcomes:
  "(count \<le> 0 \<longrightarrow>
     DkObjectsWaitAny D S store count handleArray timeout polled = Inr (Inr 0, polled, store))
   \<and> (count = 1 \<and> handleArray = Some h0 # rest \<and> in_flags (store h0) AND HAS_FDS D = 0 \<longrightarrow>
     DkObjectsWaitAny D S store count handleArray timeout polled
       = Inr (case handle_wait S h0 of None \<Rightarrow> Inl PAL_ERROR_NOTSUPPORT | Some wait \<Rightarrow> wait timeout,
              Some h0, store))
   \<and> (count = 1 \<and> handleArray = Some h0 # rest \<and> in_flags (store h0) AND HAS_FDS D \<noteq> 0 \<longrightarrow>
     (let off = poll_slots D (store h0);
         answer = sys_ppoll S (slot_request D (store h0) off) (timeout_ts timeout);
         result = DkObjectsWaitAny D S store count handleArray timeout polled
     in (off = [] \<longrightarrow> result = Inr (Inl PAL_ERROR_TRYAGAIN, Some h0, store))
      \<and> (off \<noteq> [] \<longrightarrow>
           (\<forall>e. answer = POLL_ERR e \<and> (e = EINTR \<or> e = ERESTART) \<longrightarrow>
                result = Inr (Inl PAL_ERROR_INTERRUPTED, Some h0, store))
         \<and> (\<forall>revs. answer = POLL_RET 0 revs \<longrightarrow>
                result = Inr (Inl PAL_ERROR_TRYAGAIN, Some h0, store))
         \<and> (\<forall>ret revs. answer = POLL_RET ret revs \<and> ret \<noteq> 0 \<longrightarrow>
              (\<exists>store'. result = Inr (Inr 0, Some h0, store')
                 \<and> (\<forall>q. q \<noteq> h0 \<longrightarrow> store' q = store q)
                 \<and> (\<forall>(slot, revents) \<in> set (zip off (revents_of (length off) revs)).
                       revents AND (POLLHUP OR POLLERR) \<noteq> 0 \<longrightarrow>
                       in_flags (store' h0) AND ERROR D slot = ERROR D slot))))))
   \<and> (2 \<le> count \<and> nat count \<le> length handleArray
        \<and> list_ex (lacks_fds D store) (take (nat count) handleArray) \<longrightarrow>
     DkObjectsWaitAny D S store count handleArray timeout polled
       = Inr (Inl PAL_ERROR_NOTSUPPORT, polled, store))
   \<and> (2 \<le> count \<and> nat count \<le> length handleArray
        \<and> \<not> list_ex (lacks_fds D store) (take (nat count) handleArray) \<longrightarrow>
     (let fds = collect_pollfds D store (take (nat count) handleArray);
         answer = sys_ppoll S (poll_request fds) (timeout_ts timeout);
         result = DkObjectsWaitAny D S store count handleArray timeout polled
     in (fds = [] \<longrightarrow> result = Inr (Inl PAL_ERROR_TRYAGAIN, polled, store))
      \<and> (fds \<noteq> [] \<longrightarrow>
           (\<forall>e. answer = POLL_ERR e \<and> (e = EINTR \<or> e = ERESTART) \<longrightarrow>
                result = Inr (Inl PAL_ERROR_INTERRUPTED, polled, store))
         \<and> (\<forall>revs. answer = POLL_RET 0 revs \<longrightarrow>
                result = Inr (Inl PAL_ERROR_TRYAGAIN, polled, store))
         \<and> (\<forall>ret revs. answer = POLL_RET ret revs \<and> ret \<noteq> 0 \<longrightarrow>
              (\<exists>r ph store'. result = Inr (r, ph, store')
                 \<and> (\<forall>q. Some q \<noteq> ph \<longrightarrow> store' q = store q)
                 \<and> (case find (\<lambda>e. fst (snd e) \<noteq> 0) (polled_entries fds revs) of
                      None \<Rightarrow> r = Inl PAL_ERROR_TRYAGAIN \<and> ph = None
                    | Some (fd, revents, hdl) \<Rightarrow>
                        r = Inr 0 \<and> ph = Some hdl
                        \<and> (revents AND (POLLHUP OR POLLERR) \<noteq> 0 \<longrightarrow>
                             (\<forall>j. find_slot D (store hdl) fd = Some j \<longrightarrow>
                                in_flags (store' hdl) AND ERROR D j = ERROR D j))
                        \<and> (flags_apart D \<longrightarrow>
                             (\<forall>(fd', r', h') \<in> set (polled_entries fds revs).
                                h' = hdl \<and> r' AND (POLLHUP OR POLLERR) \<noteq> 0 \<longrightarrow>
                                (\<forall>j. find_slot D (store hdl) fd' = Some j \<longrightarrow>
                                   in_flags (store' hdl) AND ERROR D j = ERROR D j)))))))))"
proof (intro conjI impI)
  assume "count \<le> 0"
  then show "DkObjectsWaitAny D S store count handleArray timeout polled = Inr (Inr 0, polled, store)"
    by (rule DkObjectsWaitAny_none)
next
  assume h: "count = 1 \<and> handleArray = Some h0 # rest \<and> in_flags (store h0) AND HAS_FDS D = 0"
  show "DkObjectsWaitAny D S store count handleArray timeout polled
       = Inr (case handle_wait S h0 of None \<Rightarrow> Inl PAL_ERROR_NOTSUPPORT | Some wait \<Rightarrow> wait timeout,
              Some h0, store)"
    by (rule DkObjectsWaitAny_one_object) (use h in simp_all)
next
  assume h: "count = 1 \<and> handleArray = Some h0 # rest \<and> in_flags (store h0) AND HAS_FDS D \<noteq> 0"
  show "(let off = poll_slots D (store h0);
         answer = sys_ppoll S (slot_request D (store h0) off) (timeout_ts timeout);
         result = DkObjectsWaitAny D S store count handleArray timeout polled
     in (off = [] \<longrightarrow> result = Inr (Inl PAL_ERROR_TRYAGAIN, Some h0, store))
      \<and> (off \<noteq> [] \<longrightarrow>
           (\<forall>e. answer = POLL_ERR e \<and> (e = EINTR \<or> e = ERESTART) \<longrightarrow>
                result = Inr (Inl PAL_ERROR_INTERRUPTED, Some h0, store))
         \<and> (\<forall>revs. answer = POLL_RET 0 revs \<longrightarrow>
                result = Inr (Inl PAL_ERROR_TRYAGAIN, Some h0, store))
         \<and> (\<forall>ret revs. answer = POLL_RET ret revs \<and> ret \<noteq> 0 \<longrightarrow>
              (\<exists>store'. result = Inr (Inr 0, Some h0, store')
                 \<and> (\<forall>q. q \<noteq> h0 \<longrightarrow> store' q = store q)
                 \<and> (\<forall>(slot, revents) \<in> set (zip off (revents_of (length off) revs)).
                       revents AND (POLLHUP OR POLLERR) \<noteq> 0 \<longrightarrow>
                       in_flags (store' h0) AND ERROR D slot = ERROR D slot)))))"
    by (rule DkObjectsWaitAny_one) (use h in simp_all)
next
  assume h: "2 \<le> count \<and> nat count \<le> length handleArray
        \<and> list_ex (lacks_fds D store) (take (nat count) handleArray)"
  show "DkObjectsWaitAny D S store count handleArray timeout polled
       = Inr (Inl PAL_ERROR_NOTSUPPORT, polled, store)"
    by (rule DkObjectsWaitAny_objects) (use h in simp_all)
next
  assume h: "2 \<le> count \<and> nat count \<le> length handleArray
        \<and> \<not> list_ex (lacks_fds D store) (take (nat count) handleArray)"
  show "(let fds = collect_pollfds D store (take (nat count) handleArray);
         answer = sys_ppoll S (poll_request fds) (timeout_ts timeout);
         result = DkObjectsWaitAny D S store count handleArray timeout polled
     in (fds = [] \<longrightarrow> result = Inr (Inl PAL_ERROR_TRYAGAIN, polled, store))
      \<and> (fds \<noteq> [] \<longrightarrow>
           (\<forall>e. answer = POLL_ERR e \<and> (e = EINTR \<or> e = ERESTART) \<longrightarrow>
                result = Inr (Inl PAL_ERROR_INTERRUPTED, polled, store))
         \<and> (\<forall>revs. answer = POLL_RET 0 revs \<longrightarrow>
                result = Inr (Inl PAL_ERROR_TRYAGAIN, polled, store))
         \<and> (\<forall>ret revs. answer = POLL_RET ret revs \<and> ret \<noteq> 0 \<longrightarrow>
              (\<exists>r ph store'. result = Inr (r, ph, store')
                 \<and> (\<forall>q. Some q \<noteq> ph \<longrightarrow> store' q = store q)
                 \<and> (case find (\<lambda>e. fst (snd e) \<noteq> 0) (polled_entries fds revs) of
                      None \<Rightarrow> r = Inl PAL_ERROR_TRYAGAIN \<and> ph = None
                    | Some (fd, revents, hdl) \<Rightarrow>
                        r = Inr 0 \<and> ph = Some hdl
                        \<and> (revents AND (POLLHUP OR POLLERR) \<noteq> 0 \<longrightarrow>
                             (\<forall>j. find_slot D (store hdl) fd = Some j \<longrightarrow>
                                in_flags (store' hdl) AND ERROR D j = ERROR D j))
                        \<and> (flags_apart D \<longrightarrow>
                             (\<forall>(fd', r', h') \<in> set (polled_entries fds revs).
                                h' = hdl \<and> r' AND (POLLHUP OR POLLERR) \<noteq> 0 \<longrightarrow>
                                (\<forall>j. find_slot D (store hdl) fd' = Some j \<longrightarrow>
                                   in_flags (store' hdl) AND ERROR D j = ERROR D j))))))))"
    by (rule DkObjectsWaitAny_many) (use h in simp_all)
qed

theorem DkObjectsWaitAny_outcomes_witness:
  "(\<exists>store'. DkObjectsWaitAny linux_pal_defs hangup_everywhere two_handles 1 [Some 0] (-1) None
        = Inr (Inr 0, Some 0, store')
      \<and> in_flags (store' 0) AND ERROR linux_pal_defs 0 = ERROR linux_pal_defs 0)
   \<and> (\<exists>store'. DkObjectsWaitAny linux_pal_defs hangup_everywhere two_handles 2 [Some 0, Some 1] (-1) None
        = Inr (Inr 0, Some 0, store')
      \<and> in_flags (store' 0) AND ERROR linux_pal_defs 0 = ERROR linux_pal_defs 0
      \<and> store' 1 = two_handles 1)
   \<and> DkObjectsWaitAny linux_pal_defs interrupted_poll two_handles 2 [Some 0, Some 1] (-1) None
        = Inr (Inl PAL_ERROR_INTERRUPTED, None, two_handles)
   \<and> DkObjectsWaitAny linux_pal_defs idle_poll two_handles 2 [Some 0, Some 1] (-1) None
        = Inr (Inl PAL_ERROR_TRYAGAIN, None, two_handles)
   \<and> DkObjectsWaitAny linux_pal_defs hangup_everywhere errored_handles 2 [Some 0, Some 1] (-1) None
        = Inr (Inl PAL_ERROR_TRYAGAIN, None, errored_handles)
   \<and> DkObjectsWaitAny linux_pal_defs hangup_everywhere two_handles 0 [Some 0] (-1) (Some 5)
        = Inr (Inr 0, Some 5, two_handles)
   \<and> DkObjectsWaitAny linux_pal_defs hangup_everywhere with_event 1 [Some 1] (-1) None
        = Inr (Inl PAL_ERROR_NOTSUPPORT, Some 1, with_event)
   \<and> DkObjectsWaitAny linux_pal_defs hangup_everywhere with_event 2 [Some 0, Some 1] (-1) None
        = Inr (Inl PAL_ERROR_NOTSUPPORT, None, with_event)
   \<and> (\<exists>store'. DkObjectsWaitAny linux_pal_defs input_then_hangup two_slots 2 [Some 0, Some 1] (-1) None
        = Inr (Inr 0, Some 0, store')
      \<and> in_flags (store' 0) AND ERROR linux_pal_defs 1 = ERROR linux_pal_defs 1
      \<and> store' 1 = two_slots 1)"
proof (intro conjI)
  have hup: "POLLHUP AND (POLLHUP OR POLLERR) \<noteq> 0"
    by (simp add: POLLHUP_def POLLERR_def)
  have one: "(1::int) = 1 \<and> [Some 0] = Some (0::nat) # []
      \<and> in_flags (two_handles 0) AND HAS_FDS linux_pal_defs \<noteq> 0"
    by (simp add: two_handles_def linux_pal_defs_def)
  have off: "poll_slots linux_pal_defs (two_handles 0) = [0]"
    by code_simp
  have ans1: "sys_ppoll hangup_everywhere (slot_request linux_pal_defs (two_handles 0) [0])
      (timeout_ts (-1)) = POLL_RET 1 [POLLHUP]"
    by (simp add: hangup_everywhere_def slot_request_def)
  show "\<exists>store'. DkObjectsWaitAny linux_pal_defs hangup_everywhere two_handles 1 [Some 0] (-1) None
        = Inr (Inr 0, Some 0, store')
      \<and> in_flags (store' 0) AND ERROR linux_pal_defs 0 = ERROR linux_pal_defs 0"
    using DkObjectsWaitAny_outcomes [where count=1 and handleArray="[Some 0]" and ?h0.0=0
        and rest="[]" and store=two_handles and D=linux_pal_defs and S=hangup_everywhere
        and timeout="-1" and polled=None, THEN conjunct2, THEN conjunct2, THEN conjunct1]
      one off ans1 hup
    by (auto simp add: Let_def revents_of_def)
  have many: "(2::int) \<le> 2 \<and> nat 2 \<le> length [Some (0::nat), Some 1]
      \<and> \<not> list_ex (lacks_fds linux_pal_defs two_handles) (take (nat 2) [Some 0, Some 1])"
    by (simp add: lacks_fds_def two_handles_def linux_pal_defs_def)
  have fds: "collect_pollfds linux_pal_defs two_handles (take (nat 2) [Some 0, Some 1])
      = [(10, 25, 0), (11, 25, 1)]"
    by code_simp
  have ans2: "sys_ppoll hangup_everywhere (poll_request [(10, 25, 0), (11, 25, 1)]) (timeout_ts (-1))
      = POLL_RET 2 [POLLHUP, POLLHUP]"
    by (simp add: hangup_everywhere_def poll_request_def numeral_2_eq_2)
  have first: "find (\<lambda>e. fst (snd e) \<noteq> 0) (polled_entries [(10, 25, 0), (11, 25, 1)] [POLLHUP, POLLHUP])
      = Some (10, POLLHUP, 0)"
    by code_simp
  have slot: "find_slot linux_pal_defs (two_handles 0) 10 = Some 0"
    by code_simp
  show "\<exists>store'. DkObjectsWaitAny linux_pal_defs hangup_everywhere two_handles 2 [Some 0, Some 1] (-1) None
        = Inr (Inr 0, Some 0, store')
      \<and> in_flags (store' 0) AND ERROR linux_pal_defs 0 = ERROR linux_pal_defs 0
      \<and> store' 1 = two_handles 1"
    using DkObjectsWaitAny_outcomes [where count=2 and handleArray="[Some 0, Some 1]"
        and store=two_handles and D=linux_pal_defs and S=hangup_everywhere
        and timeout="-1" and polled=None, THEN conjunct2, THEN conjunct2, THEN conjunct2, THEN conjunct2] many fds ans2 first slot hup
    by (auto simp add: Let_def)
  have ans3: "sys_ppoll interrupted_poll (poll_request [(10, 25, 0), (11, 25, 1)]) (timeout_ts (-1))
      = POLL_ERR EINTR"
    by (simp add: interrupted_poll_def)
  show "DkObjectsWaitAny linux_pal_defs interrupted_poll two_handles 2 [Some 0, Some 1] (-1) None
        = Inr (Inl PAL_ERROR_INTERRUPTED, None, two_handles)"
    using DkObjectsWaitAny_outcomes [where count=2 and handleArray="[Some 0, Some 1]"
        and store=two_handles and D=linux_pal_defs and S=interrupted_poll
        and timeout="-1" and polled=None, THEN conjunct2, THEN conjunct2, THEN conjunct2, THEN conjunct2] many fds ans3
    by (simp add: Let_def)
  have ans4: "sys_ppoll idle_poll (poll_request [(10, 25, 0), (11, 25, 1)]) (timeout_ts (-1))
      = POLL_RET 0 []"
    by (simp add: idle_poll_def)
  show "DkObjectsWaitAny linux_pal_defs idle_poll two_handles 2 [Some 0, Some 1] (-1) None
        = Inr (Inl PAL_ERROR_TRYAGAIN, None, two_handles)"
    using DkObjectsWaitAny_outcomes [where count=2 and handleArray="[Some 0, Some 1]"
        and store=two_handles and D=linux_pal_defs and S=idle_poll
        and timeout="-1" and polled=None, THEN conjunct2, THEN conjunct2, THEN conjunct2, THEN conjunct2] many fds ans4
    by (simp add: Let_def)
  have many5: "(2::int) \<le> 2 \<and> nat 2 \<le> length [Some (0::nat), Some 1]
      \<and> \<not> list_ex (lacks_fds linux_pal_defs errored_handles) (take (nat 2) [Some 0, Some 1])"
    by (simp add: lacks_fds_def errored_handles_def linux_pal_defs_def)
  have fds5: "collect_pollfds linux_pal_defs errored_handles (take (nat 2) [Some 0, Some 1]) = []"
    by code_simp
  show "DkObjectsWaitAny linux_pal_defs hangup_everywhere errored_handles 2 [Some 0, Some 1] (-1) None
        = Inr (Inl PAL_ERROR_TRYAGAIN, None, errored_handles)"
    using DkObjectsWaitAny_outcomes [where count=2 and handleArray="[Some 0, Some 1]"
        and store=errored_handles and D=linux_pal_defs and S=hangup_everywhere
        and timeout="-1" and polled=None, THEN conjunct2, THEN conjunct2, THEN conjunct2, THEN conjunct2] many5 fds5
    by (simp add: Let_def)
  show "DkObjectsWaitAny linux_pal_defs hangup_everywhere two_handles 0 [Some 0] (-1) (Some 5)
        = Inr (Inr 0, Some 5, two_handles)"
    using DkObjectsWaitAny_outcomes [where count=0 and handleArray="[Some 0]"
        and store=two_handles and D=linux_pal_defs and S=hangup_everywhere
        and timeout="-1" and polled="Some 5", THEN conjunct1]
    by simp
  have obj1: "(1::int) = 1 \<and> [Some 1] = Some (1::nat) # []
      \<and> in_flags (with_event 1) AND HAS_FDS linux_pal_defs = 0"
    by (simp add: with_event_def linux_pal_defs_def)
  have nowait: "handle_wait hangup_everywhere 1 = None"
    by (simp add: hangup_everywhere_def)
  show "DkObjectsWaitAny linux_pal_defs hangup_everywhere with_event 1 [Some 1] (-1) None
        = Inr (Inl PAL_ERROR_NOTSUPPORT, Some 1, with_event)"
    using DkObjectsWaitAny_outcomes [where count=1 and handleArray="[Some 1]" and ?h0.0=1
        and rest="[]" and store=with_event and D=linux_pal_defs and S=hangup_everywhere
        and timeout="-1" and polled=None, THEN conjunct2, THEN conjunct1] obj1 nowait
    by simp
  have objs: "(2::int) \<le> 2 \<and> nat 2 \<le> length [Some (0::nat), Some 1]
      \<and> list_ex (lacks_fds linux_pal_defs with_event) (take (nat 2) [Some 0, Some 1])"
    by (simp add: lacks_fds_def with_event_def linux_pal_defs_def)
  show "DkObjectsWaitAny linux_pal_defs hangup_everywhere with_event 2 [Some 0, Some 1] (-1) None
        = Inr (Inl PAL_ERROR_NOTSUPPORT, None, with_event)"
    using DkObjectsWaitAny_outcomes [where count=2 and handleArray="[Some 0, Some 1]"
        and store=with_event and D=linux_pal_defs and S=hangup_everywhere
        and timeout="-1" and polled=None, THEN conjunct2, THEN conjunct2, THEN conjunct2,
        THEN conjunct1] objs
    by auto
  have many6: "(2::int) \<le> 2 \<and> nat 2 \<le> length [Some (0::nat), Some 1]
      \<and> \<not> list_ex (lacks_fds linux_pal_defs two_slots) (take (nat 2) [Some 0, Some 1])"
    by (simp add: lacks_fds_def two_slots_def two_handles_def linux_pal_defs_def)
  have fds6: "collect_pollfds linux_pal_defs two_slots (take (nat 2) [Some 0, Some 1])
      = [(10, 25, 0), (20, 25, 0), (11, 25, 1)]"
    by code_simp
  have ans6: "sys_ppoll input_then_hangup (poll_request [(10, 25, 0), (20, 25, 0), (11, 25, 1)])
      (timeout_ts (-1)) = POLL_RET 3 [POLLIN, POLLHUP, POLLHUP]"
    by (simp add: input_then_hangup_def poll_request_def numeral_2_eq_2)
  have entries6: "polled_entries [(10, 25, 0), (20, 25, 0), (11, 25, 1)] [POLLIN, POLLHUP, POLLHUP]
      = [(10, POLLIN, 0), (20, POLLHUP, 0), (11, POLLHUP, 1)]"
    by code_simp
  have first6: "find (\<lambda>e. fst (snd e) \<noteq> 0)
        [(10::int, POLLIN, 0::nat), (20, POLLHUP, 0), (11, POLLHUP, 1)]
      = Some (10, POLLIN, 0)"
    by (simp add: POLLIN_def)
  have slot6: "find_slot linux_pal_defs (two_slots 0) 20 = Some 1"
    by code_simp
  have apart: "flags_apart linux_pal_defs"
    by code_simp
  show "\<exists>store'. DkObjectsWaitAny linux_pal_defs input_then_hangup two_slots 2 [Some 0, Some 1] (-1) None
        = Inr (Inr 0, Some 0, store')
      \<and> in_flags (store' 0) AND ERROR linux_pal_defs 1 = ERROR linux_pal_defs 1
      \<and> store' 1 = two_slots 1"
    using DkObjectsWaitAny_outcomes [where count=2 and handleArray="[Some 0, Some 1]"
        and store=two_slots and D=linux_pal_defs and S=input_then_hangup
        and timeout="-1" and polled=None, THEN conjunct2, THEN conjunct2, THEN conjunct2,
        THEN conjunct2, THEN mp, OF many6] fds6 ans6 entries6 first6 slot6 apart hup
    by (simp add: Let_def) blast
qed

section \<open>Properties of the helper's state machine\<close>

text \<open>
  C4, as stated, has the helper task started in the not-alive state whenever
  \<open>need_create\<close> holds. \<open>restart_ipc_helper\<close> calls \<open>create_ipc_helper\<close> and drops
  its result: when no thread object can be allocated (\<open>-ENOMEM\<close>) the state is left as
  it was, and when the thread cannot be created the helper is put back to not alive
  with no helper thread. In both runs no thread is created.
\<close>

theorem restart_ipc_helper_counterexample:
  "ipc_helper_state (boot\<lparr>ipc_helper_state := HELPER_NOTALIVE\<rparr>) = HELPER_NOTALIVE
   \<and> create_ipc_helper no_threads (boot\<lparr>ipc_helper_state := HELPER_NOTALIVE\<rparr>)
       = (- ENOMEM, boot\<lparr>ipc_helper_state := HELPER_NOTALIVE\<rparr>)
   \<and> restart_ipc_helper no_threads True (boot\<lparr>ipc_helper_state := HELPER_NOTALIVE\<rparr>)
       = boot\<lparr>ipc_helper_state := HELPER_NOTALIVE\<rparr>
   \<and> ipc_helper_state (restart_ipc_helper failing_create True (boot\<lparr>ipc_helper_state := HELPER_NOTALIVE\<rparr>))
       = HELPER_NOTALIVE
   \<and> ipc_helper_thread (restart_ipc_helper failing_create True (boot\<lparr>ipc_helper_state := HELPER_NOTALIVE\<rparr>))
       = None
   \<and> trace (restart_ipc_helper failing_create True (boot\<lparr>ipc_helper_state := HELPER_NOTALIVE\<rparr>)) = []"
  by (simp add: restart_ipc_helper_def create_ipc_helper_def no_threads_def failing_create_def
      shim1_def boot_def)

text \<open>
  C4, amended. \<open>restart_ipc_helper\<close> in each state of the helper: uninitialized becomes
  delayed; delayed is left alone; in not-alive nothing happens without \<open>need_create\<close>,
  and with it \<open>create_ipc_helper\<close> is called and its result dropped: the helper
  becomes alive on a new thread when a thread object can be allocated and the thread
  created, the state stays as it was when no thread object can be allocated, and the
  helper is not alive with no helper thread when the thread cannot be created; in alive
  the update flag is set when the caller is the helper thread and the wakeup event is
  set otherwise; in handed-over the update flag is set.
\<close>

theorem restart_ipc_helper_contract:
  "(ipc_helper_state s = HELPER_UNINITIALIZED \<longrightarrow>
      restart_ipc_helper E need_create s = s\<lparr>ipc_helper_state := HELPER_DELAYED\<rparr>)
   \<and> (ipc_helper_state s = HELPER_DELAYED \<longrightarrow> restart_ipc_helper E need_create s = s)
   \<and> (ipc_helper_state s = HELPER_NOTALIVE \<longrightarrow>
        (\<not> need_create \<longrightarrow> restart_ipc_helper E need_create s = s)
      \<and> (need_create \<longrightarrow>
            restart_ipc_helper E need_create s = snd (create_ipc_helper E s)
          \<and> (\<forall>new handle. get_new_internal_thread E = Some new \<and> thread_create E new = Inr handle \<longrightarrow>
                restart_ipc_helper E need_create s
                  = emit (THREAD_CREATE new)
                      (s\<lparr>ipc_helper_thread := Some new, ipc_helper_state := HELPER_ALIVE\<rparr>))
          \<and> (get_new_internal_thread E = None \<longrightarrow> restart_ipc_helper E need_create s = s)
          \<and> (\<forall>new ret. get_new_internal_thread E = Some new \<and> thread_create E new = Inl ret \<longrightarrow>
                restart_ipc_helper E need_create s
                  = s\<lparr>ipc_helper_thread := None, ipc_helper_state := HELPER_NOTALIVE\<rparr>)))
   \<and> (ipc_helper_state s = HELPER_ALIVE \<longrightarrow>
        (IN_HELPER E s \<longrightarrow> restart_ipc_helper E need_create s = s\<lparr>ipc_helper_update := True\<rparr>)
      \<and> (\<not> IN_HELPER E s \<longrightarrow> restart_ipc_helper E need_create s = emit SET_EVENT s))
   \<and> (ipc_helper_state s = HELPER_HANDEDOVER \<longrightarrow>
        restart_ipc_helper E need_create s = s\<lparr>ipc_helper_update := True\<rparr>)"
  by (simp add: restart_ipc_helper_def create_ipc_helper_def)

theorem restart_ipc_helper_contract_witness:
  "restart_ipc_helper shim1 False boot = boot\<lparr>ipc_helper_state := HELPER_DELAYED\<rparr>
   \<and> restart_ipc_helper shim1 True (boot\<lparr>ipc_helper_state := HELPER_DELAYED\<rparr>)
       = boot\<lparr>ipc_helper_state := HELPER_DELAYED\<rparr>
   \<and> restart_ipc_helper shim1 False (boot\<lparr>ipc_helper_state := HELPER_NOTALIVE\<rparr>)
       = boot\<lparr>ipc_helper_state := HELPER_NOTALIVE\<rparr>
   \<and> restart_ipc_helper shim1 True (boot\<lparr>ipc_helper_state := HELPER_NOTALIVE\<rparr>)
       = emit (THREAD_CREATE 9)
           (boot\<lparr>ipc_helper_state := HELPER_NOTALIVE, ipc_helper_thread := Some 9,
                 ipc_helper_state := HELPER_ALIVE\<rparr>)
   \<and> restart_ipc_helper shim1 False (one_port LISTEN 7) = (one_port LISTEN 7)\<lparr>ipc_helper_update := True\<rparr>
   \<and> restart_ipc_helper shim1 False (one_port LISTEN 9) = emit SET_EVENT (one_port LISTEN 9)
   \<and> restart_ipc_helper shim1 False (boot\<lparr>ipc_helper_state := HELPER_HANDEDOVER\<rparr>)
       = boot\<lparr>ipc_helper_state := HELPER_HANDEDOVER, ipc_helper_update := True\<rparr>
   \<and> restart_ipc_helper no_threads True (boot\<lparr>ipc_helper_state := HELPER_NOTALIVE\<rparr>)
       = boot\<lparr>ipc_helper_state := HELPER_NOTALIVE\<rparr>
   \<and> restart_ipc_helper failing_create True (boot\<lparr>ipc_helper_state := HELPER_NOTALIVE\<rparr>)
       = boot\<lparr>ipc_helper_state := HELPER_NOTALIVE, ipc_helper_thread := None,
              ipc_helper_state := HELPER_NOTALIVE\<rparr>"
proof -
  have none: "get_new_internal_thread no_threads = None"
    by (simp add: no_threads_def)
  have fails: "get_new_internal_thread failing_create = Some 9
      \<and> thread_create failing_create 9 = Inl (- ENOMEM)"
    by (simp add: failing_create_def shim1_def)
  have st: "ipc_helper_state boot = HELPER_UNINITIALIZED"
    "ipc_helper_state (one_port LISTEN 7) = HELPER_ALIVE"
    "ipc_helper_state (one_port LISTEN 9) = HELPER_ALIVE"
    by (simp_all add: boot_def one_port_def)
  have helper: "IN_HELPER shim1 (one_port LISTEN 7)" "\<not> IN_HELPER shim1 (one_port LISTEN 9)"
    by (simp_all add: IN_HELPER_def one_port_def shim1_def)
  have threads: "get_new_internal_thread shim1 = Some 9 \<and> thread_create shim1 9 = Inr 100"
    by (simp add: shim1_def)
  have not_alive: "ipc_helper_state (boot\<lparr>ipc_helper_state := HELPER_NOTALIVE\<rparr>) = HELPER_NOTALIVE"
    by simp
  have started: "restart_ipc_helper shim1 True (boot\<lparr>ipc_helper_state := HELPER_NOTALIVE\<rparr>)
       = emit (THREAD_CREATE 9)
           (boot\<lparr>ipc_helper_state := HELPER_NOTALIVE, ipc_helper_thread := Some 9,
                 ipc_helper_state := HELPER_ALIVE\<rparr>)"
    using restart_ipc_helper_contract [of "boot\<lparr>ipc_helper_state := HELPER_NOTALIVE\<rparr>" shim1 True]
      not_alive threads
    by blast
  have refused: "restart_ipc_helper no_threads True (boot\<lparr>ipc_helper_state := HELPER_NOTALIVE\<rparr>)
       = boot\<lparr>ipc_helper_state := HELPER_NOTALIVE\<rparr>"
    using restart_ipc_helper_contract [of "boot\<lparr>ipc_helper_state := HELPER_NOTALIVE\<rparr>" no_threads True]
      not_alive none
    by blast
  have failed: "restart_ipc_helper failing_create True (boot\<lparr>ipc_helper_state := HELPER_NOTALIVE\<rparr>)
       = boot\<lparr>ipc_helper_state := HELPER_NOTALIVE, ipc_helper_thread := None,
              ipc_helper_state := HELPER_NOTALIVE\<rparr>"
    using restart_ipc_helper_contract [of "boot\<lparr>ipc_helper_state := HELPER_NOTALIVE\<rparr>"
        failing_create True] not_alive fails
    by blast
  show ?thesis
    using st helper started refused failed
      restart_ipc_helper_contract [of boot shim1 False]
      restart_ipc_helper_contract [of "boot\<lparr>ipc_helper_state := HELPER_DELAYED\<rparr>" shim1 True]
      restart_ipc_helper_contract [of "boot\<lparr>ipc_helper_state := HELPER_NOTALIVE\<rparr>" shim1 False]
      restart_ipc_helper_contract [of "one_port LISTEN 7" shim1 False]
      restart_ipc_helper_contract [of "one_port LISTEN 9" shim1 False]
      restart_ipc_helper_contract [of "boot\<lparr>ipc_helper_state := HELPER_HANDEDOVER\<rparr>" shim1 False]
    by simp
qed

text \<open>
  C5, as stated, holds for every call. The function first returns 0 when the caller is
  the helper thread or the helper is not alive: the state stays as it is and the wakeup
  event is not set, also with a keep-alive port on the list and a handover requested.
\<close>

theorem exit_with_ipc_helper_counterexample:
  "IN_HELPER shim1 (one_port KEEPALIVE 7)
   \<and> (\<exists>pobj \<in> set (pobj_list (one_port KEEPALIVE 7)).
         info_type (ports (one_port KEEPALIVE 7) pobj) AND IPC_PORT_KEEPALIVE shim1 \<noteq> 0)
   \<and> exit_with_ipc_helper shim1 True (one_port KEEPALIVE 7) = (0, one_port KEEPALIVE 7)
   \<and> ipc_helper_state (one_port KEEPALIVE 7) = HELPER_ALIVE
   \<and> trace (one_port KEEPALIVE 7) = []
   \<and> exit_with_ipc_helper shim1 False boot = (0, boot)
   \<and> ipc_helper_state boot = HELPER_UNINITIALIZED
   \<and> trace boot = []"
  by (simp add: exit_with_ipc_helper_def IN_HELPER_def one_port_def boot_def shim1_def
      get_new_ipc_port_def KEEPALIVE_def)

text \<open>
  C5, amended. For a call from another thread than the helper's while the helper is
  alive: with a handover requested and a port with the keep-alive role on the port
  list, the state becomes handed-over and the call returns \<open>-EAGAIN\<close>; otherwise the
  state becomes not-alive and the call returns 0; in both cases the wakeup event is
  set. A call from the helper thread, or while the helper is not alive, returns 0 and
  changes nothing.
\<close>

theorem exit_with_ipc_helper_outcomes:
  "(\<not> IN_HELPER E s \<and> ipc_helper_state s = HELPER_ALIVE \<longrightarrow>
      (handover \<and> (\<exists>pobj \<in> set (pobj_list s). info_type (ports s pobj) AND IPC_PORT_KEEPALIVE E \<noteq> 0) \<longrightarrow>
         exit_with_ipc_helper E handover s
           = (- EAGAIN, emit SET_EVENT (s\<lparr>ipc_helper_state := HELPER_HANDEDOVER\<rparr>)))
    \<and> (\<not> (handover \<and> (\<exists>pobj \<in> set (pobj_list s). info_type (ports s pobj) AND IPC_PORT_KEEPALIVE E \<noteq> 0)) \<longrightarrow>
         exit_with_ipc_helper E handover s
           = (0, emit SET_EVENT (s\<lparr>ipc_helper_state := HELPER_NOTALIVE\<rparr>))))
   \<and> (IN_HELPER E s \<or> ipc_helper_state s \<noteq> HELPER_ALIVE \<longrightarrow>
        exit_with_ipc_helper E handover s = (0, s))
   \<and> - EAGAIN \<noteq> (0::int)"
  by (auto simp add: exit_with_ipc_helper_def Let_def list_ex_iff EAGAIN_def)


theorem exit_with_ipc_helper_outcomes_witness:
  "exit_with_ipc_helper shim1 True (one_port KEEPALIVE 9)
     = (- EAGAIN, emit SET_EVENT ((one_port KEEPALIVE 9)\<lparr>ipc_helper_state := HELPER_HANDEDOVER\<rparr>))
   \<and> exit_with_ipc_helper shim1 False (one_port KEEPALIVE 9)
     = (0, emit SET_EVENT ((one_port KEEPALIVE 9)\<lparr>ipc_helper_state := HELPER_NOTALIVE\<rparr>))
   \<and> exit_with_ipc_helper shim1 True (one_port LISTEN 9)
     = (0, emit SET_EVENT ((one_port LISTEN 9)\<lparr>ipc_helper_state := HELPER_NOTALIVE\<rparr>))
   \<and> exit_with_ipc_helper shim1 True (one_port KEEPALIVE 7) = (0, one_port KEEPALIVE 7)"
proof -
  have alive: "ipc_helper_state (one_port t h) = HELPER_ALIVE" for t h
    by (simp add: one_port_def)
  have helper: "\<not> IN_HELPER shim1 (one_port t 9)" "IN_HELPER shim1 (one_port t 7)" for t
    by (simp_all add: IN_HELPER_def one_port_def shim1_def)
  have keep: "\<exists>pobj \<in> set (pobj_list (one_port KEEPALIVE 9)).
      info_type (ports (one_port KEEPALIVE 9) pobj) AND IPC_PORT_KEEPALIVE shim1 \<noteq> 0"
    by (simp add: one_port_def boot_def shim1_def get_new_ipc_port_def KEEPALIVE_def)
  have nokeep: "\<not> (\<exists>pobj \<in> set (pobj_list (one_port LISTEN 9)).
      info_type (ports (one_port LISTEN 9) pobj) AND IPC_PORT_KEEPALIVE shim1 \<noteq> 0)"
    by (simp add: one_port_def boot_def shim1_def get_new_ipc_port_def KEEPALIVE_def LISTEN_def)
  show ?thesis
    using alive helper keep nokeep
      exit_with_ipc_helper_outcomes [of shim1 "one_port KEEPALIVE 9" True]
      exit_with_ipc_helper_outcomes [of shim1 "one_port KEEPALIVE 9" False]
      exit_with_ipc_helper_outcomes [of shim1 "one_port LISTEN 9" True]
      exit_with_ipc_helper_outcomes [of shim1 "one_port KEEPALIVE 7" True]
    by simp
qed

section \<open>Properties of the port registry\<close>

lemma update_port_fields:
  "ports (update_port port f s) = (ports s)(port := f (ports s port))"
  "pobj_list (update_port port f s) = pobj_list s"
  "ipc_port_pool (update_port port f s) = ipc_port_pool s"
  "trace (update_port port f s) = trace s"
  by (simp_all add: update_port_def)

lemma emit_fields:
  "ports (emit e s) = ports s"
  "pobj_list (emit e s) = pobj_list s"
  "ipc_port_pool (emit e s) = ipc_port_pool s"
  by (simp_all add: emit_def)

lemma list_empty_fields:
  "list_empty (update_port port f s) q = list_empty s q"
  "list_empty (emit e s) q = list_empty s q"
  "hlist_unhashed (update_port port f s) q = hlist_unhashed s q"
  "hlist_unhashed (emit e s) q = hlist_unhashed s q"
  by (simp_all add: list_empty_def hlist_unhashed_def update_port_fields emit_fields)

lemma put_ipc_port_fields:
  "pobj_list (put_ipc_port port s) = pobj_list s"
  "ipc_port_pool (put_ipc_port port s) = ipc_port_pool s"
  "ref_count (ports (put_ipc_port port s) port) = ref_count (ports s port) - 1"
  "info_type (ports (put_ipc_port port s) q) = info_type (ports s q)"
  "info_vmid (ports (put_ipc_port port s) q) = info_vmid (ports s q)"
  "fini (ports (put_ipc_port port s) q) = fini (ports s q)"
  "update (ports (put_ipc_port port s) q) = update (ports s q)"
  "q \<noteq> port \<Longrightarrow> ports (put_ipc_port port s) q = ports s q"
  by (simp_all add: put_ipc_port_def Let_def update_port_fields emit_fields split: option.splits)

lemma put_ipc_port_membership:
  "list_empty (put_ipc_port port s) q = list_empty s q"
  "hlist_unhashed (put_ipc_port port s) q = hlist_unhashed s q"
  by (simp_all add: list_empty_def hlist_unhashed_def put_ipc_port_fields)

lemma list_del_init_fields:
  "ports (list_del_init port s) = ports s"
  "pobj_list (list_del_init port s) = removeAll port (pobj_list s)"
  "ipc_port_pool (list_del_init port s) = ipc_port_pool s"
  "list_empty (list_del_init port s) port"
  "hlist_unhashed (list_del_init port s) q = hlist_unhashed s q"
  by (simp_all add: list_del_init_def list_empty_def hlist_unhashed_def)

lemma hlist_del_init_fields:
  "ports (hlist_del_init port s) = ports s"
  "pobj_list (hlist_del_init port s) = pobj_list s"
  "ipc_port_pool (hlist_del_init port s) b = removeAll port (ipc_port_pool s b)"
  "hlist_unhashed (hlist_del_init port s) port"
  "list_empty (hlist_del_init port s) q = list_empty s q"
  by (simp_all add: hlist_del_init_def list_empty_def hlist_unhashed_def list_all_iff)

lemma cleared_keepalive:
  "(if type0 \<noteq> 0 then type0 AND (t::32 word) else t) AND k = 0" if "t AND k = 0"
  using that by (simp add: and.assoc)

text \<open>
  C6, as stated, has evict clear exactly the given roles that the port has (all of them
  for the mask 0) and ask for a helper update only when the keep-alive status flipped or
  \<open>IFPOLL\<close> was among the cleared roles of a removed port. Port 0 is on the list with
  \<open>LISTEN\<close>, \<open>DIRPRT\<close> and \<open>IFPOLL\<close>. Evicted with the mask 0, it keeps \<open>IFPOLL\<close> in
  its role mask. Evicted with \<open>LISTEN\<close> and \<open>DIRPRT\<close>, which do not include
  \<open>IFPOLL\<close>, it is removed and a helper update is requested.
\<close>

theorem del_ipc_port_locked_counterexample:
  "info_type (ports admitted 0) = LISTEN OR DIRPRT OR IFPOLL
   \<and> pobj_list admitted = [0]
   \<and> info_type (ports (snd (del_ipc_port_locked shim1 0 0 admitted)) 0) = IFPOLL
   \<and> IFPOLL \<noteq> 0
   \<and> (LISTEN OR DIRPRT) AND IFPOLL = 0
   \<and> fst (del_ipc_port_locked shim1 0 (LISTEN OR DIRPRT) admitted)
   \<and> pobj_list (snd (del_ipc_port_locked shim1 0 (LISTEN OR DIRPRT) admitted)) = []"
  by code_simp

text \<open>
  C6, amended. The roles to clear are the given roles that the port has, or all its
  roles for the mask 0. If the port has a role outside these, \<open>IFPOLL\<close> and
  \<open>KEEPALIVE\<close>, exactly the roles to clear are cleared, the port is marked for update
  and stays on the list and in the hash table with its reference count. Otherwise the
  port is taken off the list and out of the hash table, one reference is released for
  each of the two it was in, it is marked for update, a port that was on the list keeps
  only \<open>IFPOLL\<close> of its roles (one that was not keeps its roles), and a helper update
  is requested whenever the port had \<open>IFPOLL\<close>. For a port without \<open>KEEPALIVE\<close> a
  helper update is requested in that case only. No other port changes.
\<close>

theorem del_ipc_port_locked_effect:
  assumes run: "del_ipc_port_locked E port type0 s = (need_restart, s')"
  shows
   "(let p = ports s port;
         p' = ports s' port;
         cleared = (if type0 \<noteq> 0 then type0 AND info_type p else info_type p)
     in update p'
      \<and> (\<forall>q. q \<noteq> port \<longrightarrow> ports s' q = ports s q)
      \<and> (info_type p AND NOT (cleared OR IPC_PORT_IFPOLL E OR IPC_PORT_KEEPALIVE E) \<noteq> 0 \<longrightarrow>
           info_type p' = info_type p AND NOT cleared
           \<and> pobj_list s' = pobj_list s \<and> ipc_port_pool s' = ipc_port_pool s
           \<and> ref_count p' = ref_count p
           \<and> (info_type p AND IPC_PORT_KEEPALIVE E = 0 \<longrightarrow> \<not> need_restart))
      \<and> (info_type p AND NOT (cleared OR IPC_PORT_IFPOLL E OR IPC_PORT_KEEPALIVE E) = 0 \<longrightarrow>
           pobj_list s' = removeAll port (pobj_list s)
           \<and> list_empty s' port \<and> hlist_unhashed s' port
           \<and> (\<forall>b q. q \<noteq> port \<longrightarrow> (q \<in> set (ipc_port_pool s' b) \<longleftrightarrow> q \<in> set (ipc_port_pool s b)))
           \<and> ref_count p' = ref_count p - (if list_empty s port then 0 else 1)
                               - (if hlist_unhashed s port then 0 else 1)
           \<and> info_type p' = (if list_empty s port then info_type p
                              else info_type p AND IPC_PORT_IFPOLL E)
           \<and> (info_type p AND IPC_PORT_IFPOLL E \<noteq> 0 \<longrightarrow> need_restart)
           \<and> (info_type p AND IPC_PORT_KEEPALIVE E = 0 \<longrightarrow>
                 (need_restart \<longleftrightarrow> info_type p AND IPC_PORT_IFPOLL E \<noteq> 0))))"
proof -
  define p where "p = ports s port"
  define cleared where "cleared = (if type0 \<noteq> 0 then type0 AND info_type p else info_type p)"
  define stays where "stays = (info_type p AND NOT (cleared OR IPC_PORT_IFPOLL E OR IPC_PORT_KEEPALIVE E) \<noteq> 0)"
  have nokeep: "cleared AND IPC_PORT_KEEPALIVE E = 0" if "info_type p AND IPC_PORT_KEEPALIVE E = 0"
    unfolding cleared_def using that by (rule cleared_keepalive)
  have a: "info_type (ports s' port) = info_type p AND NOT cleared
           \<and> pobj_list s' = pobj_list s \<and> ipc_port_pool s' = ipc_port_pool s
           \<and> ref_count (ports s' port) = ref_count p
           \<and> update (ports s' port) \<and> (\<forall>q. q \<noteq> port \<longrightarrow> ports s' q = ports s q)
           \<and> (info_type p AND IPC_PORT_KEEPALIVE E = 0 \<longrightarrow> \<not> need_restart)" if stays
    using run that nokeep unfolding del_ipc_port_locked_def stays_def cleared_def p_def
    by (auto simp add: Let_def update_port_fields)
  have b: "pobj_list s' = removeAll port (pobj_list s)
           \<and> list_empty s' port \<and> hlist_unhashed s' port
           \<and> (\<forall>b q. q \<noteq> port \<longrightarrow> (q \<in> set (ipc_port_pool s' b) \<longleftrightarrow> q \<in> set (ipc_port_pool s b)))
           \<and> ref_count (ports s' port) = ref_count p - (if list_empty s port then 0 else 1)
                               - (if hlist_unhashed s port then 0 else 1)
           \<and> info_type (ports s' port) = (if list_empty s port then info_type p
                              else info_type p AND IPC_PORT_IFPOLL E)
           \<and> update (ports s' port) \<and> (\<forall>q. q \<noteq> port \<longrightarrow> ports s' q = ports s q)
           \<and> (info_type p AND IPC_PORT_IFPOLL E \<noteq> 0 \<longrightarrow> need_restart)
           \<and> (info_type p AND IPC_PORT_KEEPALIVE E = 0 \<longrightarrow>
                 (need_restart \<longleftrightarrow> info_type p AND IPC_PORT_IFPOLL E \<noteq> 0))" if "\<not> stays"
    using run that nokeep unfolding del_ipc_port_locked_def stays_def cleared_def p_def
    by (auto simp add: Let_def update_port_fields put_ipc_port_fields put_ipc_port_membership
        list_del_init_fields hlist_del_init_fields list_empty_fields list_empty_def [symmetric]
        split: if_splits)
  show ?thesis
    using a b unfolding Let_def stays_def cleared_def p_def by blast
qed


theorem del_ipc_port_locked_effect_witness:
  "(case del_ipc_port_locked shim1 0 DIRPRT admitted of
      (need_restart, s') \<Rightarrow>
        \<not> need_restart \<and> info_type (ports s' 0) = LISTEN OR IFPOLL \<and> pobj_list s' = [0]
        \<and> ref_count (ports s' 0) = 3 \<and> update (ports s' 0))
   \<and> (case del_ipc_port_locked shim1 0 0 admitted of
      (need_restart, s') \<Rightarrow>
        need_restart \<and> pobj_list s' = [] \<and> hlist_unhashed s' 0
        \<and> ref_count (ports s' 0) = 1 \<and> info_type (ports s' 0) = IFPOLL \<and> update (ports s' 0))"
proof -
  have f1: "info_type (ports admitted 0) = 2066" by code_simp
  have f2: "pobj_list admitted = [0]" by code_simp
  have f3: "\<not> list_empty admitted 0" by code_simp
  have f4: "\<not> hlist_unhashed admitted 0" by code_simp
  have f5: "ref_count (ports admitted 0) = 3" by code_simp
  note facts = f1 f2 f3 f4 f5
  have vals: "IPC_PORT_IFPOLL shim1 = 2048" "IPC_PORT_KEEPALIVE shim1 = 4096" "DIRPRT = 16"
    "LISTEN = 2" "IFPOLL = 2048"
    by (simp_all add: shim1_def IFPOLL_def KEEPALIVE_def DIRPRT_def LISTEN_def)
  obtain r1 s1 where run1: "del_ipc_port_locked shim1 0 DIRPRT admitted = (r1, s1)"
    by (cases "del_ipc_port_locked shim1 0 DIRPRT admitted")
  obtain r2 s2 where run2: "del_ipc_port_locked shim1 0 0 admitted = (r2, s2)"
    by (cases "del_ipc_port_locked shim1 0 0 admitted")
  have w1: "\<not> r1 \<and> info_type (ports s1 0) = LISTEN OR IFPOLL \<and> pobj_list s1 = [0]
        \<and> ref_count (ports s1 0) = 3 \<and> update (ports s1 0)"
    using del_ipc_port_locked_effect [OF run1] by (simp add: Let_def facts vals)
  have w2: "r2 \<and> pobj_list s2 = [] \<and> hlist_unhashed s2 0
        \<and> ref_count (ports s2 0) = 1 \<and> info_type (ports s2 0) = IFPOLL \<and> update (ports s2 0)"
    using del_ipc_port_locked_effect [OF run2] by (simp add: Let_def facts vals)
  show ?thesis
    using w1 w2 run1 run2 by simp
qed

lemma get_ipc_port_fields:
  "pobj_list (get_ipc_port port s) = pobj_list s"
  "ipc_port_pool (get_ipc_port port s) = ipc_port_pool s"
  "ref_count (ports (get_ipc_port port s) port) = ref_count (ports s port) + 1"
  "fini (ports (get_ipc_port port s) q) = fini (ports s q)"
  "info_type (ports (get_ipc_port port s) q) = info_type (ports s q)"
  "list_empty (get_ipc_port port s) q = list_empty s q"
  by (simp_all add: get_ipc_port_def update_port_fields list_empty_fields)

lemma fini_slot_Some:
  "fini_slot E a f = Some k \<longleftrightarrow>
     k < MAX_IPC_PORT_FINI_CB E \<and> (a k = None \<or> a k = Some f)
     \<and> (\<forall>i<k. a i \<noteq> None \<and> a i \<noteq> Some f)"
  unfolding fini_slot_def find_Some_iff by auto

lemma fini_slot_None:
  "fini_slot E a f = None \<longleftrightarrow> (\<forall>i<MAX_IPC_PORT_FINI_CB E. a i \<noteq> None \<and> a i \<noteq> Some f)"
  unfolding fini_slot_def find_None_iff by auto

lemma add_port_roles_fini:
  "add_port_roles E port vmid type s = (nr, s3) \<Longrightarrow> fini (ports s3 q) = fini (ports s q)"
  by (auto simp add: add_port_roles_def Let_def update_port_fields get_ipc_port_fields)

lemma add_port_list_fini:
  "add_port_list port need_restart s = (r, s') \<Longrightarrow> fini (ports s' q) = fini (ports s q)"
  by (auto simp add: add_port_list_def Let_def update_port_fields get_ipc_port_fields
      list_del_init_fields split: if_splits)

lemma add_port_fini_result:
  "add_port_fini E port type fini_cb s =
    (case fini_cb of
       None \<Rightarrow> Inr s
     | Some f \<Rightarrow>
         if type AND NOT (IPC_PORT_IFPOLL E) = 0 then Inr s
         else (case fini_slot E (fini (ports s port)) f of
                 None \<Rightarrow> Inl ASSERT_FAILED
               | Some cb \<Rightarrow> Inr (update_port port (\<lambda>p. p\<lparr>fini := (fini p)(cb := Some f)\<rparr>) s)))"
  by (simp add: add_port_fini_def split: option.splits)

lemma add_ipc_port_locked_steps:
  assumes "vmid \<noteq> cur_vmid E" and "add_port_roles E port vmid type s = (nr, s3)"
  shows "add_ipc_port_locked E port vmid type fini_cb s =
    (case add_port_fini E port type fini_cb s3 of
       Inl c \<Rightarrow> Inl c
     | Inr s4 \<Rightarrow> Inr (add_port_list port nr s4))"
  using assms by (simp add: add_ipc_port_locked_def)

text \<open>
  C8, as stated, has every admit that supplies a new callback append it. An admit whose
  roles are \<open>IFPOLL\<close> alone does not install the callback: the callback array of the
  port is empty before and after.
\<close>

theorem add_ipc_port_locked_fini_counterexample:
  "map (fini (ports boot 0)) [0..<3] = [None, None, None]
   \<and> (case add_ipc_port_locked shim1 0 7 IFPOLL (Some (fini_callback 1)) boot of
         Inl c \<Rightarrow> False
       | Inr (r, s') \<Rightarrow> map (fini (ports s' 0)) [0..<3] = [None, None, None])"
  by code_simp

text \<open>
  C8, amended. An admit (with a peer id other than the process's own) whose roles have
  a bit besides \<open>IFPOLL\<close>: if the callback stands in the array with no free slot before
  it, the array is unchanged; if it is not in the array, it is stored in the first free
  slot, behind the entries there are; if it is not in the array and no slot is free, the
  assertion fails. An admit whose roles have no bit besides \<open>IFPOLL\<close> leaves the array
  as it is. No admit writes behind the \<open>MAX_IPC_PORT_FINI_CB\<close> slots or to the array
  of another port.
\<close>

theorem add_ipc_port_locked_fini:
  assumes ok: "vmid \<noteq> cur_vmid E"
  shows
   "(let a = fini (ports s port);
         result = add_ipc_port_locked E port vmid type (Some f) s
     in (type AND NOT (IPC_PORT_IFPOLL E) = 0 \<longrightarrow>
           (\<exists>r s'. result = Inr (r, s') \<and> fini (ports s' port) = a))
      \<and> (type AND NOT (IPC_PORT_IFPOLL E) \<noteq> 0 \<longrightarrow>
           (\<forall>k < MAX_IPC_PORT_FINI_CB E. a k = Some f \<and> (\<forall>i<k. a i \<noteq> None \<and> a i \<noteq> Some f) \<longrightarrow>
              (\<exists>r s'. result = Inr (r, s') \<and> fini (ports s' port) = a))
         \<and> (\<forall>k < MAX_IPC_PORT_FINI_CB E. a k = None \<and> (\<forall>i<k. a i \<noteq> None \<and> a i \<noteq> Some f) \<longrightarrow>
              (\<exists>r s'. result = Inr (r, s') \<and> fini (ports s' port) = a(k := Some f)))
         \<and> ((\<forall>i < MAX_IPC_PORT_FINI_CB E. a i \<noteq> None \<and> a i \<noteq> Some f) \<longrightarrow>
              result = Inl ASSERT_FAILED))
      \<and> (\<forall>r s'. result = Inr (r, s') \<longrightarrow>
           (\<forall>i \<ge> MAX_IPC_PORT_FINI_CB E. fini (ports s' port) i = a i)
           \<and> (\<forall>q. q \<noteq> port \<longrightarrow> fini (ports s' q) = fini (ports s q))))"
proof -
  define a where "a = fini (ports s port)"
  define result where "result = add_ipc_port_locked E port vmid type (Some f) s"
  obtain nr s3 where roles: "add_port_roles E port vmid type s = (nr, s3)"
    by (cases "add_port_roles E port vmid type s")
  have f3: "fini (ports s3 q) = fini (ports s q)" for q
    using add_port_roles_fini [OF roles] .
  have steps: "result =
    (case add_port_fini E port type (Some f) s3 of
       Inl c \<Rightarrow> Inl c
     | Inr s4 \<Rightarrow> Inr (add_port_list port nr s4))"
    unfolding result_def using add_ipc_port_locked_steps [OF ok roles] .
  have kept: "\<exists>r s'. result = Inr (r, s') \<and> (\<forall>q. fini (ports s' q) = fini (ports s4 q))"
    if "add_port_fini E port type (Some f) s3 = Inr s4" for s4
  proof -
    obtain r s' where l: "add_port_list port nr s4 = (r, s')"
      by (cases "add_port_list port nr s4")
    with steps that have "result = Inr (r, s')" by simp
    with add_port_list_fini [OF l] show ?thesis by blast
  qed
  have skip: "\<exists>r s'. result = Inr (r, s') \<and> fini (ports s' port) = a"
    if "type AND NOT (IPC_PORT_IFPOLL E) = 0"
    using kept [of s3] that f3 by (auto simp add: add_port_fini_result a_def)
  have slot: "\<exists>r s'. result = Inr (r, s') \<and> fini (ports s' port) = a(k := Some f)"
    if "type AND NOT (IPC_PORT_IFPOLL E) \<noteq> 0" "fini_slot E a f = Some k" for k
    using kept [of "update_port port (\<lambda>p. p\<lparr>fini := (fini p)(k := Some f)\<rparr>) s3"] that f3
    by (auto simp add: add_port_fini_result a_def update_port_fields)
  have present: "\<exists>r s'. result = Inr (r, s') \<and> fini (ports s' port) = a"
    if "type AND NOT (IPC_PORT_IFPOLL E) \<noteq> 0" "k < MAX_IPC_PORT_FINI_CB E" "a k = Some f"
      "\<forall>i<k. a i \<noteq> None \<and> a i \<noteq> Some f" for k
  proof -
    from that have "fini_slot E a f = Some k" by (simp add: fini_slot_Some)
    from slot [OF that(1) this] that(3) show ?thesis by (simp add: fun_upd_idem)
  qed
  have absent: "\<exists>r s'. result = Inr (r, s') \<and> fini (ports s' port) = a(k := Some f)"
    if "type AND NOT (IPC_PORT_IFPOLL E) \<noteq> 0" "k < MAX_IPC_PORT_FINI_CB E" "a k = None"
      "\<forall>i<k. a i \<noteq> None \<and> a i \<noteq> Some f" for k
  proof -
    from that have "fini_slot E a f = Some k" by (simp add: fini_slot_Some)
    from slot [OF that(1) this] show ?thesis .
  qed
  have full: "result = Inl ASSERT_FAILED"
    if "type AND NOT (IPC_PORT_IFPOLL E) \<noteq> 0" "\<forall>i < MAX_IPC_PORT_FINI_CB E. a i \<noteq> None \<and> a i \<noteq> Some f"
  proof -
    from that have "fini_slot E a f = None" by (simp add: fini_slot_None)
    with that(1) steps f3 show ?thesis by (simp add: add_port_fini_result a_def)
  qed
  have frame: "(\<forall>i \<ge> MAX_IPC_PORT_FINI_CB E. fini (ports s' port) i = a i)
           \<and> (\<forall>q. q \<noteq> port \<longrightarrow> fini (ports s' q) = fini (ports s q))"
    if res: "result = Inr (r, s')" for r s'
  proof -
    from res steps obtain s4 where s4: "add_port_fini E port type (Some f) s3 = Inr s4"
      by (cases "add_port_fini E port type (Some f) s3") auto
    from kept [OF s4] res have same: "fini (ports s' q) = fini (ports s4 q)" for q by auto
    have "(\<forall>i \<ge> MAX_IPC_PORT_FINI_CB E. fini (ports s4 port) i = a i)
           \<and> (\<forall>q. q \<noteq> port \<longrightarrow> fini (ports s4 q) = fini (ports s q))"
      using s4 f3
      by (auto simp add: add_port_fini_result a_def update_port_fields fini_slot_Some
          split: if_splits option.splits)
    with same show ?thesis by simp
  qed
  show ?thesis
    unfolding Let_def a_def [symmetric] result_def [symmetric]
    using skip present absent full frame by blast
qed


theorem add_ipc_port_locked_fini_witness:
  "(\<exists>r s'. add_ipc_port_locked shim1 0 7 LISTEN (Some (fini_callback 1)) admitted = Inr (r, s')
      \<and> fini (ports s' 0) = (fini (ports admitted 0))(0 := Some (fini_callback 1)))
   \<and> (\<exists>r s'. add_ipc_port_locked shim1 0 7 LISTEN (Some (fini_callback 1)) admitted_fini = Inr (r, s')
      \<and> fini (ports s' 0) = fini (ports admitted_fini 0))
   \<and> (\<exists>r s'. add_ipc_port_locked shim1 0 7 LISTEN (Some (fini_callback 2)) admitted_fini = Inr (r, s')
      \<and> fini (ports s' 0) = (fini (ports admitted_fini 0))(1 := Some (fini_callback 2)))
   \<and> (\<exists>r s'. add_ipc_port_locked shim1 0 7 IFPOLL (Some (fini_callback 2)) admitted_fini = Inr (r, s')
      \<and> fini (ports s' 0) = fini (ports admitted_fini 0))
   \<and> add_ipc_port_locked shim1 0 7 LISTEN (Some (fini_callback 9)) crowded = Inl ASSERT_FAILED"
proof -
  have ok: "(7::32 word) \<noteq> cur_vmid shim1" by (simp add: shim1_def)
  have vals: "IPC_PORT_IFPOLL shim1 = 2048" "MAX_IPC_PORT_FINI_CB shim1 = 3" "LISTEN = 2" "IFPOLL = 2048"
    by (simp_all add: shim1_def IFPOLL_def LISTEN_def)
  have a0: "fini (ports admitted 0) 0 = None" by code_simp
  have b0: "fini (ports admitted_fini 0) 0 = Some (fini_callback 1)" by code_simp
  have b1: "fini (ports admitted_fini 0) 1 = None" by code_simp
  have c: "fini (ports crowded 0) i = Some (fini_callback i)" for i
    by (simp add: crowded_def update_port_fields)
  have listen: "LISTEN AND NOT (IPC_PORT_IFPOLL shim1) \<noteq> 0"
    and ifpoll: "IFPOLL AND NOT (IPC_PORT_IFPOLL shim1) = 0"
    by (simp_all add: vals)
  note T1 = add_ipc_port_locked_fini [OF ok, where s=admitted and port=0 and type=LISTEN
        and f="fini_callback 1", unfolded Let_def]
  note T2 = add_ipc_port_locked_fini [OF ok, where s=admitted_fini and port=0 and type=LISTEN
        and f="fini_callback 1", unfolded Let_def]
  note T3 = add_ipc_port_locked_fini [OF ok, where s=admitted_fini and port=0 and type=LISTEN
        and f="fini_callback 2", unfolded Let_def]
  note T4 = add_ipc_port_locked_fini [OF ok, where s=admitted_fini and port=0 and type=IFPOLL
        and f="fini_callback 2", unfolded Let_def]
  note T5 = add_ipc_port_locked_fini [OF ok, where s=crowded and port=0 and type=LISTEN
        and f="fini_callback 9", unfolded Let_def]
  have w1: "\<exists>r s'. add_ipc_port_locked shim1 0 7 LISTEN (Some (fini_callback 1)) admitted = Inr (r, s')
      \<and> fini (ports s' 0) = (fini (ports admitted 0))(0 := Some (fini_callback 1))"
    using T1 [THEN conjunct2, THEN conjunct1, THEN mp, OF listen, THEN conjunct2, THEN conjunct1,
        rule_format, of 0] a0
    by (simp add: vals)
  have w2: "\<exists>r s'. add_ipc_port_locked shim1 0 7 LISTEN (Some (fini_callback 1)) admitted_fini = Inr (r, s')
      \<and> fini (ports s' 0) = fini (ports admitted_fini 0)"
    using T2 [THEN conjunct2, THEN conjunct1, THEN mp, OF listen, THEN conjunct1,
        rule_format, of 0] b0
    by (simp add: vals)
  have w3: "\<exists>r s'. add_ipc_port_locked shim1 0 7 LISTEN (Some (fini_callback 2)) admitted_fini = Inr (r, s')
      \<and> fini (ports s' 0) = (fini (ports admitted_fini 0))(1 := Some (fini_callback 2))"
    using T3 [THEN conjunct2, THEN conjunct1, THEN mp, OF listen, THEN conjunct2, THEN conjunct1,
        rule_format, of 1] b0 b1
    by (simp add: vals)
  have w4: "\<exists>r s'. add_ipc_port_locked shim1 0 7 IFPOLL (Some (fini_callback 2)) admitted_fini = Inr (r, s')
      \<and> fini (ports s' 0) = fini (ports admitted_fini 0)"
    using T4 [THEN conjunct1, THEN mp, OF ifpoll] .
  have w5: "add_ipc_port_locked shim1 0 7 LISTEN (Some (fini_callback 9)) crowded = Inl ASSERT_FAILED"
    using T5 [THEN conjunct2, THEN conjunct1, THEN mp, OF listen, THEN conjunct2, THEN conjunct2,
        THEN mp] c
    by (simp add: vals)
  show ?thesis
    using w1 w2 w3 w4 w5 by blast
qed

section \<open>Properties of the broadcast\<close>

lemma sent_to_append: "sent_to p (es @ es') = sent_to p es @ sent_to p es'"
  by (induction p es rule: sent_to.induct) simp_all

lemma put_ipc_port_trace:
  "\<exists>new. trace (put_ipc_port port s) = trace s @ new \<and> (\<forall>q. sent_to q new = [])"
proof (cases "ref_count (ports s port) - 1 = 0 \<and> pal_handle (ports s port) \<noteq> None")
  case True
  then obtain hdl where "pal_handle (ports s port) = Some hdl" by auto
  with True have "trace (put_ipc_port port s) = trace s @ [OBJECT_CLOSE hdl]"
    by (simp add: put_ipc_port_def Let_def update_port_def emit_def)
  then show ?thesis by (intro exI [of _ "[OBJECT_CLOSE hdl]"]) simp
next
  case False
  then have "trace (put_ipc_port port s) = trace s @ []"
    by (auto simp add: put_ipc_port_def Let_def update_port_def emit_def split: option.splits)
  then show ?thesis by (intro exI [of _ "[]"]) simp
qed

lemma do_send_effect:
  "do_send E msg port s = (ret, msg', s1) \<Longrightarrow>
   ports s1 = ports s \<and> pobj_list s1 = pobj_list s \<and> trace s1 = trace s @ [SEND_MESSAGE port msg]"
  by (auto simp add: do_send_def emit_def split: prod.splits)

lemma do_send_message:
  "do_send E msg port s = (ret, msg', s1) \<Longrightarrow> msg' = snd (send_ipc_message E msg port)"
  by (auto simp add: do_send_def split: prod.splits)

lemma broadcast_ports_sends:
  assumes keeps: "\<And>m port. K (snd (send_ipc_message E m port)) = K m"
    and dst: "\<And>m d. K (m\<lparr>msg_dst := d\<rparr>) = K m"
  shows "broadcast_ports E exclude target_type ps (msg, s) = (msg', s') \<Longrightarrow>
   ports s' = ports s \<and> pobj_list s' = pobj_list s
   \<and> (\<exists>new. trace s' = trace s @ new
        \<and> (\<forall>q. length (sent_to q new)
                  = (if info_type (ports s q) AND target_type \<noteq> 0 \<and> q \<notin> set exclude
                     then count_list ps q else 0)
               \<and> (\<forall>m \<in> set (sent_to q new). msg_dst m = info_vmid (ports s q) \<and> K m = K msg)))"
proof (induction ps arbitrary: msg s)
  case Nil
  then show ?case by simp
next
  case (Cons pobj rest)
  show ?case
  proof (cases "info_type (ports s pobj) AND target_type \<noteq> 0 \<and> pobj \<notin> set exclude")
    case False
    with Cons.prems have "broadcast_ports E exclude target_type rest (msg, s) = (msg', s')"
      by (auto split: if_splits)
    from Cons.IH [OF this] obtain new where new:
      "ports s' = ports s" "pobj_list s' = pobj_list s"
      "trace s' = trace s @ new"
      "\<And>q. length (sent_to q new)
                  = (if info_type (ports s q) AND target_type \<noteq> 0 \<and> q \<notin> set exclude
                     then count_list rest q else 0)"
      "\<And>q m. m \<in> set (sent_to q new) \<Longrightarrow> msg_dst m = info_vmid (ports s q) \<and> K m = K msg"
      by auto
    have "length (sent_to q new)
                  = (if info_type (ports s q) AND target_type \<noteq> 0 \<and> q \<notin> set exclude
                     then count_list (pobj # rest) q else 0)" for q
      using new(4) [of q] False by (cases "q = pobj") auto
    with new(1,2,3,5) show ?thesis by blast
  next
    case True
    define msg1 where "msg1 = msg\<lparr>msg_dst := info_vmid (ports s pobj)\<rparr>"
    obtain ret msg2 s1 where send: "do_send E msg1 pobj s = (ret, msg2, s1)"
      by (cases "do_send E msg1 pobj s")
    from True Cons.prems send have rest: "broadcast_ports E exclude target_type rest (msg2, s1) = (msg', s')"
      by (auto simp add: msg1_def)
    note s1 = do_send_effect [OF send]
    have k1: "K msg1 = K msg" by (simp add: msg1_def dst)
    have k2: "K msg2 = K msg"
      using do_send_message [OF send] keeps [of msg1 pobj] k1 by simp
    from Cons.IH [OF rest] s1 k2 obtain new where new:
      "ports s' = ports s" "pobj_list s' = pobj_list s"
      "trace s' = trace s @ [SEND_MESSAGE pobj msg1] @ new"
      "\<And>q. length (sent_to q new)
                  = (if info_type (ports s q) AND target_type \<noteq> 0 \<and> q \<notin> set exclude
                     then count_list rest q else 0)"
      "\<And>q m. m \<in> set (sent_to q new) \<Longrightarrow> msg_dst m = info_vmid (ports s q) \<and> K m = K msg"
      by auto
    have len: "length (sent_to q ([SEND_MESSAGE pobj msg1] @ new))
                  = (if info_type (ports s q) AND target_type \<noteq> 0 \<and> q \<notin> set exclude
                     then count_list (pobj # rest) q else 0)" for q
      using new(4) [of q] True by (cases "q = pobj") auto
    have content: "msg_dst m = info_vmid (ports s q) \<and> K m = K msg"
      if "m \<in> set (sent_to q ([SEND_MESSAGE pobj msg1] @ new))" for q m
      using that new(5) [of m q] k1 by (auto simp add: msg1_def split: if_splits)
    from new(1,2,3) len content show ?thesis by blast
  qed
qed

lemma count_list_distinct: "distinct xs \<Longrightarrow> x \<in> set xs \<Longrightarrow> count_list xs x = 1"
  by (induction xs) auto

lemma broadcast_all_sends:
  assumes "broadcast_all E exclude target_type (msg, s) = (ret, msg', s')"
    and keeps: "\<And>m port. K (snd (send_ipc_message E m port)) = K m"
    and dst: "\<And>m d. K (m\<lparr>msg_dst := d\<rparr>) = K m"
  shows "ret = 0
   \<and> (\<exists>new. trace s' = trace s @ new
        \<and> (\<forall>q. length (sent_to q new)
                  = (if info_type (ports s q) AND target_type \<noteq> 0 \<and> q \<notin> set exclude
                     then count_list (pobj_list s) q else 0)
               \<and> (\<forall>m \<in> set (sent_to q new). msg_dst m = info_vmid (ports s q) \<and> K m = K msg)))"
proof -
  obtain m1 s1 where loop: "broadcast_ports E exclude target_type (pobj_list s) (msg, s) = (m1, s1)"
    by (cases "broadcast_ports E exclude target_type (pobj_list s) (msg, s)")
  with assms(1) have "ret = 0" "s' = s1" by (simp_all add: broadcast_all_def)
  with broadcast_ports_sends [of K E, OF keeps dst loop] show ?thesis by simp
qed

lemma broadcast_ipc_sends:
  assumes run: "broadcast_ipc E msg exclude target_type s = (ret, msg', s')"
    and keeps: "\<And>m port. K (snd (send_ipc_message E m port)) = K m"
    and dst: "\<And>m d. K (m\<lparr>msg_dst := d\<rparr>) = K m"
  shows "ret = 0
   \<and> (\<exists>new. trace s' = trace s @ new
        \<and> (\<forall>p \<in> set exclude. sent_to p new = [])
        \<and> (distinct (pobj_list s) \<longrightarrow>
             (\<forall>p \<in> set (pobj_list s).
                info_type (ports s p) AND target_type \<noteq> 0 \<and> p \<notin> set exclude \<longrightarrow>
                (\<exists>m. sent_to p new = [m] \<and> msg_dst m = info_vmid (ports s p) \<and> K m = K msg)))
        \<and> (\<forall>bp. target_type = 0 \<and> broadcast_port s = Some bp \<and> bp \<notin> set exclude \<longrightarrow>
             sent_to bp new = [msg] \<and> (\<forall>p. p \<noteq> bp \<longrightarrow> sent_to p new = [])))"
proof (cases "target_type = 0 \<and> broadcast_port s \<noteq> None")
  case False
  with run have "broadcast_all E exclude target_type (msg, s) = (ret, msg', s')"
    by (auto simp add: broadcast_ipc_def)
  from broadcast_all_sends [of E exclude target_type msg s ret msg' s' K, OF this keeps dst]
  obtain new where new:
    "ret = 0" "trace s' = trace s @ new"
    "\<And>q. length (sent_to q new)
                  = (if info_type (ports s q) AND target_type \<noteq> 0 \<and> q \<notin> set exclude
                     then count_list (pobj_list s) q else 0)"
    "\<And>q m. m \<in> set (sent_to q new) \<Longrightarrow> msg_dst m = info_vmid (ports s q) \<and> K m = K msg"
    by auto
  have excl: "sent_to p new = []" if "p \<in> set exclude" for p
    using new(3) [of p] that by simp
  have once: "\<exists>m. sent_to p new = [m] \<and> msg_dst m = info_vmid (ports s p) \<and> K m = K msg"
    if "distinct (pobj_list s)" "p \<in> set (pobj_list s)"
      "info_type (ports s p) AND target_type \<noteq> 0" "p \<notin> set exclude" for p
  proof -
    from that have "length (sent_to p new) = 1"
      using new(3) [of p] by (simp add: count_list_distinct)
    then obtain m where "sent_to p new = [m]"
      by (cases "sent_to p new") auto
    with new(4) [of m p] show ?thesis by simp
  qed
  have nobp: "\<not> (target_type = 0 \<and> broadcast_port s = Some bp \<and> bp \<notin> set exclude)" for bp
    using False by auto
  from new(1,2) excl once nobp show ?thesis by blast
next
  case True
  then obtain bp where bp: "broadcast_port s = Some bp" and t0: "target_type = 0" by auto
  have vacuous: "\<not> (info_type (ports s p) AND target_type \<noteq> 0)" for p
    using t0 by simp
  show ?thesis
  proof (cases "bp \<in> set exclude")
    case True
    with run bp t0 have "ret = 0" "s' = s" by (simp_all add: broadcast_ipc_def)
    then have "ret = 0 \<and> trace s' = trace s @ [] \<and> (\<forall>p \<in> set exclude. sent_to p [] = [])" by simp
    moreover have "\<not> (target_type = 0 \<and> broadcast_port s = Some b \<and> b \<notin> set exclude)" for b
      using True bp by auto
    ultimately show ?thesis using vacuous by blast
  next
    case False
    define s1 where "s1 = get_ipc_port bp s"
    obtain r1 msg1 s2 where send: "do_send E msg bp s1 = (r1, msg1, s2)"
      by (cases "do_send E msg bp s1")
    define s3 where "s3 = put_ipc_port bp s2"
    have t1: "trace s1 = trace s"
      by (simp add: s1_def get_ipc_port_def update_port_fields)
    from do_send_effect [OF send] t1 have t2: "trace s2 = trace s @ [SEND_MESSAGE bp msg]" by simp
    obtain ev where ev: "trace s3 = trace s2 @ ev" "\<And>q. sent_to q ev = []"
      using put_ipc_port_trace [of bp s2] unfolding s3_def by auto
    have quiet: "sent_to p ([SEND_MESSAGE bp msg] @ ev) = []" if "p \<noteq> bp" for p
      using that ev(2) by auto
    have loud: "sent_to bp ([SEND_MESSAGE bp msg] @ ev) = [msg]"
      using ev(2) by auto
    have only: "b = bp" if "broadcast_port s = Some b" for b
      using that bp by simp
    show ?thesis
    proof (cases "r1 = 0")
      case True
      with run bp t0 False send have "ret = 0" "s' = s3"
        by (simp_all add: broadcast_ipc_def Let_def s1_def s3_def)
      with t2 ev(1) have "ret = 0 \<and> trace s' = trace s @ ([SEND_MESSAGE bp msg] @ ev)" by simp
      moreover have "\<forall>p \<in> set exclude. sent_to p ([SEND_MESSAGE bp msg] @ ev) = []"
      proof
        fix p assume "p \<in> set exclude"
        with False have "p \<noteq> bp" by auto
        then show "sent_to p ([SEND_MESSAGE bp msg] @ ev) = []" by (rule quiet)
      qed
      moreover have "\<forall>b. target_type = 0 \<and> broadcast_port s = Some b \<and> b \<notin> set exclude \<longrightarrow>
             sent_to b ([SEND_MESSAGE bp msg] @ ev) = [msg]
             \<and> (\<forall>p. p \<noteq> b \<longrightarrow> sent_to p ([SEND_MESSAGE bp msg] @ ev) = [])"
        using quiet loud only by blast
      ultimately show ?thesis using vacuous by blast
    next
      case nz: False
      with run bp t0 False send
      have "broadcast_all E exclude target_type (msg1, s3) = (ret, msg', s')"
        by (simp add: broadcast_ipc_def Let_def s1_def s3_def)
      from broadcast_all_sends [of E exclude target_type msg1 s3 ret msg' s' K, OF this keeps dst] t0
      obtain new where new:
        "ret = 0" "trace s' = trace s3 @ new" "\<And>q. length (sent_to q new) = 0"
        by auto
      have q2: "sent_to p (([SEND_MESSAGE bp msg] @ ev) @ new) = []" if "p \<noteq> bp" for p
        using quiet [OF that] new(3) [of p] by (simp only: sent_to_append) simp
      have l2: "sent_to bp (([SEND_MESSAGE bp msg] @ ev) @ new) = [msg]"
        using loud new(3) [of bp] by (simp only: sent_to_append) simp
      have "\<forall>p \<in> set exclude. sent_to p (([SEND_MESSAGE bp msg] @ ev) @ new) = []"
      proof
        fix p assume "p \<in> set exclude"
        with False have "p \<noteq> bp" by auto
        then show "sent_to p (([SEND_MESSAGE bp msg] @ ev) @ new) = []" by (rule q2)
      qed
      moreover have "\<forall>b. target_type = 0 \<and> broadcast_port s = Some b \<and> b \<notin> set exclude \<longrightarrow>
             sent_to b (([SEND_MESSAGE bp msg] @ ev) @ new) = [msg]
             \<and> (\<forall>p. p \<noteq> b \<longrightarrow> sent_to p (([SEND_MESSAGE bp msg] @ ev) @ new) = [])"
        using q2 l2 only by blast
      moreover have "trace s' = trace s @ (([SEND_MESSAGE bp msg] @ ev) @ new)"
        using new(2) ev(1) t2 by simp
      ultimately show ?thesis using new(1) vacuous by blast
    qed
  qed
qed


text \<open>
  C2. Whatever the message, the exclusion list, the target roles and the results of the
  sends: \<open>broadcast_ipc\<close> returns 0, it sends nothing to a port of the exclusion list,
  and every port of the port list whose roles meet the target roles and which is not
  excluded is sent exactly one message: the caller's message with \<open>dst\<close> set to the
  port's peer id. The message is handed to \<open>send_ipc_message\<close> by pointer, and that
  function is not in this file: what it does to the message reaches the later
  recipients. So the message sent is the caller's in every part \<open>K\<close> of a message that
  \<open>send_ipc_message\<close> keeps and that does not depend on \<open>dst\<close>; and it is the
  caller's message with \<open>dst\<close> set when \<open>send_ipc_message\<close> leaves the message as it
  is. Without target roles and with a broadcast port that is not excluded, the
  broadcast port is sent the caller's message as it is, and no other port is sent
  anything. The port list is a linked list, so it holds a port once (\<open>distinct\<close>). A
  failed send changes nothing of this: the statement holds for every answer of
  \<open>send_ipc_message\<close>.
\<close>

theorem broadcast_ipc_recipients:
  assumes run: "broadcast_ipc E msg exclude target_type s = (ret, msg', s')"
  shows "ret = 0
   \<and> (\<exists>new. trace s' = trace s @ new
        \<and> (\<forall>p \<in> set exclude. sent_to p new = [])
        \<and> (distinct (pobj_list s) \<longrightarrow>
             (\<forall>p \<in> set (pobj_list s).
                info_type (ports s p) AND target_type \<noteq> 0 \<and> p \<notin> set exclude \<longrightarrow>
                (\<exists>m. sent_to p new = [m] \<and> msg_dst m = info_vmid (ports s p)
                   \<and> (\<forall>K :: shim_ipc_msg \<Rightarrow> shim_ipc_msg.
                         (\<forall>m port. K (snd (send_ipc_message E m port)) = K m)
                         \<and> (\<forall>m d. K (m\<lparr>msg_dst := d\<rparr>) = K m) \<longrightarrow> K m = K msg)
                   \<and> ((\<forall>m port. snd (send_ipc_message E m port) = m) \<longrightarrow>
                         m = msg\<lparr>msg_dst := info_vmid (ports s p)\<rparr>))))
        \<and> (\<forall>bp. target_type = 0 \<and> broadcast_port s = Some bp \<and> bp \<notin> set exclude \<longrightarrow>
             sent_to bp new = [msg] \<and> (\<forall>p. p \<noteq> bp \<longrightarrow> sent_to p new = [])))"
proof -
  from broadcast_ipc_sends [of E msg exclude target_type s ret msg' s' "\<lambda>m. ()", OF run]
  obtain new where new:
    "ret = 0" "trace s' = trace s @ new"
    "\<forall>p \<in> set exclude. sent_to p new = []"
    "\<forall>bp. target_type = 0 \<and> broadcast_port s = Some bp \<and> bp \<notin> set exclude \<longrightarrow>
             sent_to bp new = [msg] \<and> (\<forall>p. p \<noteq> bp \<longrightarrow> sent_to p new = [])"
    by auto
  have part: "\<exists>m. sent_to p new = [m] \<and> msg_dst m = info_vmid (ports s p) \<and> K m = K msg"
    if keeps: "\<And>m port. K (snd (send_ipc_message E m port)) = K m"
      and dst: "\<And>m d. K (m\<lparr>msg_dst := d\<rparr>) = K m"
      and p: "distinct (pobj_list s)" "p \<in> set (pobj_list s)"
        "info_type (ports s p) AND target_type \<noteq> 0" "p \<notin> set exclude"
    for K :: "shim_ipc_msg \<Rightarrow> 'a" and p
  proof -
    from broadcast_ipc_sends [of E msg exclude target_type s ret msg' s' K, OF run keeps dst]
    obtain new' where new':
      "trace s' = trace s @ new'"
      "distinct (pobj_list s) \<longrightarrow>
             (\<forall>p \<in> set (pobj_list s).
                info_type (ports s p) AND target_type \<noteq> 0 \<and> p \<notin> set exclude \<longrightarrow>
                (\<exists>m. sent_to p new' = [m] \<and> msg_dst m = info_vmid (ports s p) \<and> K m = K msg))"
      by blast
    from new'(1) new(2) have "new' = new" by simp
    with new'(2) p show ?thesis by blast
  qed
  have once: "\<exists>m. sent_to p new = [m] \<and> msg_dst m = info_vmid (ports s p)
                   \<and> (\<forall>K :: shim_ipc_msg \<Rightarrow> shim_ipc_msg.
                         (\<forall>m port. K (snd (send_ipc_message E m port)) = K m)
                         \<and> (\<forall>m d. K (m\<lparr>msg_dst := d\<rparr>) = K m) \<longrightarrow> K m = K msg)
                   \<and> ((\<forall>m port. snd (send_ipc_message E m port) = m) \<longrightarrow>
                         m = msg\<lparr>msg_dst := info_vmid (ports s p)\<rparr>)"
    if p: "distinct (pobj_list s)" "p \<in> set (pobj_list s)"
        "info_type (ports s p) AND target_type \<noteq> 0" "p \<notin> set exclude" for p
  proof -
    from part [of "\<lambda>m. ()", OF _ _ p] obtain m where
      m: "sent_to p new = [m]" "msg_dst m = info_vmid (ports s p)"
      by auto
    have k: "K m = K msg"
      if "\<forall>m port. K (snd (send_ipc_message E m port)) = K m" "\<forall>m d. K (m\<lparr>msg_dst := d\<rparr>) = K m"
      for K :: "shim_ipc_msg \<Rightarrow> shim_ipc_msg"
      using part [of K, OF _ _ p] that m(1) by auto
    have whole: "m = msg\<lparr>msg_dst := info_vmid (ports s p)\<rparr>"
      if same: "\<forall>m port. snd (send_ipc_message E m port) = m"
    proof -
      have "m\<lparr>msg_dst := 0\<rparr> = msg\<lparr>msg_dst := 0\<rparr>"
        using k [of "\<lambda>m. m\<lparr>msg_dst := 0\<rparr>"] same by simp
      then have "(m\<lparr>msg_dst := 0\<rparr>)\<lparr>msg_dst := msg_dst m\<rparr> = (msg\<lparr>msg_dst := 0\<rparr>)\<lparr>msg_dst := msg_dst m\<rparr>"
        by simp
      then have "m\<lparr>msg_dst := msg_dst m\<rparr> = msg\<lparr>msg_dst := msg_dst m\<rparr>"
        by simp
      moreover have "m\<lparr>msg_dst := msg_dst m\<rparr> = m"
        by simp
      ultimately show ?thesis using m(2) by metis
    qed
    from m k whole show ?thesis by blast
  qed
  from new once show ?thesis by blast
qed

theorem broadcast_ipc_recipients_witness:
  "\<exists>msg' s' new.
     broadcast_ipc failing_sends hello [1] (DIRPRT OR LISTEN) three_ports = (0, msg', s')
     \<and> trace s' = trace three_ports @ new
     \<and> sent_to 1 new = []
     \<and> sent_to 0 new = [hello\<lparr>msg_dst := 10\<rparr>]
     \<and> sent_to 2 new = [hello\<lparr>msg_dst := 12\<rparr>]"
proof -
  obtain ret msg' s' where
    run: "broadcast_ipc failing_sends hello [1] (DIRPRT OR LISTEN) three_ports = (ret, msg', s')"
    by (cases "broadcast_ipc failing_sends hello [1] (DIRPRT OR LISTEN) three_ports")
  have list: "pobj_list three_ports = [0, 1, 2]"
    by (simp add: three_ports_def)
  have roles: "info_type (ports three_ports 0) AND (DIRPRT OR LISTEN) \<noteq> 0"
    "info_type (ports three_ports 2) AND (DIRPRT OR LISTEN) \<noteq> 0"
    by (simp_all add: three_ports_def DIRPRT_def LISTEN_def)
  have peers: "info_vmid (ports three_ports 0) = 10" "info_vmid (ports three_ports 2) = 12"
    by (simp_all add: three_ports_def)
  have same: "\<forall>m port. snd (send_ipc_message failing_sends m port) = m"
    by (simp add: failing_sends_def)
  note T = broadcast_ipc_recipients [OF run]
  from T have r0: "ret = 0" by (rule conjunct1)
  from T [THEN conjunct2] obtain new where rest: "trace s' = trace three_ports @ new
        \<and> (\<forall>p \<in> set [1]. sent_to p new = [])
        \<and> (distinct (pobj_list three_ports) \<longrightarrow>
             (\<forall>p \<in> set (pobj_list three_ports).
                info_type (ports three_ports p) AND (DIRPRT OR LISTEN) \<noteq> 0 \<and> p \<notin> set [1] \<longrightarrow>
                (\<exists>m. sent_to p new = [m] \<and> msg_dst m = info_vmid (ports three_ports p)
                   \<and> (\<forall>K :: shim_ipc_msg \<Rightarrow> shim_ipc_msg.
                         (\<forall>m port. K (snd (send_ipc_message failing_sends m port)) = K m)
                         \<and> (\<forall>m d. K (m\<lparr>msg_dst := d\<rparr>) = K m) \<longrightarrow> K m = K hello)
                   \<and> ((\<forall>m port. snd (send_ipc_message failing_sends m port) = m) \<longrightarrow>
                         m = hello\<lparr>msg_dst := info_vmid (ports three_ports p)\<rparr>))))
        \<and> (\<forall>bp. (DIRPRT OR LISTEN) = 0 \<and> broadcast_port three_ports = Some bp \<and> bp \<notin> set [1] \<longrightarrow>
             sent_to bp new = [hello] \<and> (\<forall>p. p \<noteq> bp \<longrightarrow> sent_to p new = []))"
    by (rule exE)
  from rest have tr: "trace s' = trace three_ports @ new" by (rule conjunct1)
  from rest [THEN conjunct2, THEN conjunct1] have n1: "sent_to 1 new = []" by simp
  have d: "distinct (pobj_list three_ports)" by (simp add: list)
  have in0: "0 \<in> set (pobj_list three_ports)" and in2: "2 \<in> set (pobj_list three_ports)"
    by (simp_all add: list)
  have out: "(0::nat) \<notin> set [1]" "(2::nat) \<notin> set [1]" by simp_all
  note each = rest [THEN conjunct2, THEN conjunct2, THEN conjunct1, THEN mp, OF d]
  from each [THEN bspec, OF in0, THEN mp, OF conjI, OF roles(1) out(1)]
  obtain m0 where m0: "sent_to 0 new = [m0]"
    "(\<forall>m port. snd (send_ipc_message failing_sends m port) = m) \<longrightarrow>
       m0 = hello\<lparr>msg_dst := info_vmid (ports three_ports 0)\<rparr>"
    by (elim exE conjE)
  from each [THEN bspec, OF in2, THEN mp, OF conjI, OF roles(2) out(2)]
  obtain m2 where m2: "sent_to 2 new = [m2]"
    "(\<forall>m port. snd (send_ipc_message failing_sends m port) = m) \<longrightarrow>
       m2 = hello\<lparr>msg_dst := info_vmid (ports three_ports 2)\<rparr>"
    by (elim exE conjE)
  from m0 same peers(1) have n0: "sent_to 0 new = [hello\<lparr>msg_dst := 10\<rparr>]" by simp
  from m2 same peers(2) have n2: "sent_to 2 new = [hello\<lparr>msg_dst := 12\<rparr>]" by simp
  from run r0 tr n0 n1 n2 show ?thesis by blast
qed

section \<open>Properties of the teardown of a port\<close>

lemma extends_refl: "extends P s s"
  by (simp add: extends_def)

lemma extends_same: "trace s' = trace s \<Longrightarrow> extends P s s'"
  by (simp add: extends_def)

lemma extends_trans: "extends P s s1 \<Longrightarrow> extends P s1 s2 \<Longrightarrow> extends P s s2"
  by (auto simp add: extends_def)

lemma extends_emit: "P e \<Longrightarrow> extends P s (emit e s)"
  by (simp add: extends_def emit_def)

lemma extends_put: "(\<And>hdl. P (OBJECT_CLOSE hdl)) \<Longrightarrow> extends P s (put_ipc_port port s)"
  by (auto simp add: extends_def put_ipc_port_def Let_def update_port_def emit_def split: option.splits)

lemma trace_get_ipc_port: "trace (get_ipc_port port s) = trace s"
  by (simp add: get_ipc_port_def update_port_fields)

lemma extends_del_locked:
  assumes "\<And>hdl. P (OBJECT_CLOSE hdl)"
  shows "extends P s (snd (del_ipc_port_locked E port type0 s))"
proof -
  have put: "extends P t (put_ipc_port port t)" for t
    by (rule extends_put) (rule assms)
  have a: "extends P s (put_ipc_port port
                           (update_port port f (list_del_init port s)))" for f
    using put [of "update_port port f (list_del_init port s)"]
    by (simp add: extends_def update_port_fields list_del_init_def)
  have b: "extends P t (put_ipc_port port (hlist_del_init port t))" for t
    using put [of "hlist_del_init port t"]
    by (simp add: extends_def hlist_del_init_def)
  have upd: "extends P s t \<Longrightarrow> extends P s (update_port port f t)" for t f
    by (simp add: extends_def update_port_fields)
  show ?thesis
    unfolding del_ipc_port_locked_def Let_def
    by (auto intro!: upd a extends_refl extends_trans [OF a b] b)
qed


lemma extends_restart:
  assumes "P SET_EVENT" "\<And>t. P (THREAD_CREATE t)"
  shows "extends P s (restart_ipc_helper E need_create s)"
  using assms
  by (auto simp add: restart_ipc_helper_def create_ipc_helper_def extends_def emit_def Let_def
      split: helper_state.splits option.splits sum.splits)

lemma extends_run_fini:
  assumes "P (FINI_CALL f port vmid exitcode)" "\<And>hdl. P (OBJECT_CLOSE hdl)"
  shows "extends P s (run_fini f port vmid exitcode s)"
proof -
  have e: "extends P s (emit (FINI_CALL f port vmid exitcode) s)"
    by (rule extends_emit) (rule assms)
  have p: "extends P (emit (FINI_CALL f port vmid exitcode) s)
     (put_ipc_port port ((emit (FINI_CALL f port vmid exitcode) s)\<lparr>broadcast_port := None\<rparr>))"
    using extends_put [of P "(emit (FINI_CALL f port vmid exitcode) s)\<lparr>broadcast_port := None\<rparr>" port]
      assms(2)
    by (simp add: extends_def)
  show ?thesis
    using e extends_trans [OF e p]
    by (cases f) (auto simp add: run_fini_def Let_def)
qed

lemma extends_fold_run_fini:
  assumes "\<And>f. P (FINI_CALL f port vmid exitcode)" "\<And>hdl. P (OBJECT_CLOSE hdl)"
  shows "extends P s (fold (\<lambda>f. run_fini f port vmid exitcode) fs s)"
proof (induction fs arbitrary: s)
  case Nil
  show ?case by (simp add: extends_refl)
next
  case (Cons f fs)
  have "extends P s (run_fini f port vmid exitcode s)"
    by (rule extends_run_fini) (rule assms)+
  from extends_trans [OF this Cons.IH] show ?case by simp
qed

lemma extends_fold_msgs:
  assumes "\<And>obj r. P (MSG_RETVAL obj r)" "\<And>t. P (THREAD_WAKEUP t)"
  shows "extends P s
     (fold (\<lambda>m st.
               let st1 = emit (MSG_RETVAL (obj_id m) (- ECONNRESET)) st in
               case obj_thread m of None \<Rightarrow> st1 | Some t \<Rightarrow> emit (THREAD_WAKEUP t) st1) ms s)"
proof (induction ms arbitrary: s)
  case Nil
  show ?case by (simp add: extends_refl)
next
  case (Cons m ms)
  let ?st1 = "emit (MSG_RETVAL (obj_id m) (- ECONNRESET)) s"
  have a: "extends P s ?st1" by (rule extends_emit) (rule assms)
  have b: "extends P ?st1 (emit (THREAD_WAKEUP t) ?st1)" for t
    by (rule extends_emit) (rule assms)
  have "extends P s (case obj_thread m of None \<Rightarrow> ?st1 | Some t \<Rightarrow> emit (THREAD_WAKEUP t) ?st1)"
    using a extends_trans [OF a b] by (simp split: option.splits)
  from extends_trans [OF this Cons.IH] show ?case by (simp add: Let_def)
qed

lemma extends_complete_msgs:
  assumes "\<And>obj r. P (MSG_RETVAL obj r)" "\<And>t. P (THREAD_WAKEUP t)"
  shows "extends P s (complete_msgs port s)"
  using extends_fold_msgs [of P s "msgs (ports s port)", OF assms]
  by (simp add: complete_msgs_def extends_def update_port_fields)

lemma extends_del_ipc_port_fini:
  assumes "del_ipc_port_fini E port exitcode s = Inr s'"
  shows "extends (teardown_event port (info_vmid (ports s port)) exitcode) s s'"
proof -
  define vmid where "vmid = info_vmid (ports s port)"
  define T where "T = teardown_event port vmid exitcode"
  define called where "called = installed_fini E (ports s port)"
  define s1 where "s1 = update_port port
      (\<lambda>p. p\<lparr>fini := (\<lambda>i. if i < MAX_IPC_PORT_FINI_CB E then None else fini p i)\<rparr>) s"
  define s2 where "s2 = get_ipc_port port s1"
  define s3 where "s3 = snd (del_ipc_port_locked E port 0 s2)"
  define s4 where "s4 = fold (\<lambda>f. run_fini f port vmid exitcode) called s3"
  define s5 where "s5 = (if \<not> list_empty s4 port then complete_msgs port s4 else s4)"
  define s6 where "s6 = put_ipc_port port s5"
  have e2: "extends T s s2"
    by (rule extends_same) (simp add: s2_def s1_def trace_get_ipc_port update_port_fields)
  have e3: "extends T s2 s3"
    unfolding s3_def by (rule extends_del_locked) (simp add: teardown_event_def T_def)
  have e4: "extends T s3 s4"
    unfolding s4_def by (rule extends_fold_run_fini) (simp_all add: teardown_event_def T_def)
  have e5: "extends T s4 s5"
    unfolding s5_def
    using extends_complete_msgs [of T s4 port]
    by (simp add: teardown_event_def T_def extends_refl)
  have e6: "extends T s5 s6"
    unfolding s6_def by (rule extends_put) (simp add: teardown_event_def T_def)
  have e7: "extends T s6 (restart_ipc_helper E False s6)"
    by (rule extends_restart) (simp_all add: teardown_event_def T_def)
  from assms have "s' = s6 \<or> s' = restart_ipc_helper E False s6"
    unfolding del_ipc_port_fini_def Let_def s6_def s5_def s4_def s3_def s2_def s1_def called_def vmid_def
    by (auto split: if_splits prod.splits)
  with e2 e3 e4 e5 e6 e7 have "extends T s s'"
    by (meson extends_trans)
  then show ?thesis by (simp add: T_def vmid_def)
qed

lemma extends_mono: "extends P s s' \<Longrightarrow> (\<And>e. P e \<Longrightarrow> Q e) \<Longrightarrow> extends Q s s'"
  by (auto simp add: extends_def list_all_iff)

lemma teardown_benign: "teardown_event port vmid exitcode e \<Longrightarrow> benign E e"
  by (cases e) (simp_all add: teardown_event_def benign_def)

lemma put_ipc_port_broadcast: "broadcast_port (put_ipc_port port s) = broadcast_port s"
  by (simp add: put_ipc_port_def Let_def update_port_def emit_def split: option.splits)

lemma broadcast_port_membership:
  "list_empty (s\<lparr>broadcast_port := x\<rparr>) q = list_empty s q"
  "hlist_unhashed (s\<lparr>broadcast_port := x\<rparr>) q = hlist_unhashed s q"
  by (simp_all add: list_empty_def hlist_unhashed_def)

lemma run_fini_cases:
  "run_fini f port vmid exitcode s = emit (FINI_CALL f port vmid exitcode) s
   \<or> run_fini f port vmid exitcode s
       = put_ipc_port port ((emit (FINI_CALL f port vmid exitcode) s)\<lparr>broadcast_port := None\<rparr>)
     \<and> broadcast_port s = Some port"
  by (cases f) (simp_all add: run_fini_def Let_def emit_def)

lemma run_fini_membership:
  "list_empty (run_fini f port vmid exitcode s) q = list_empty s q"
  "hlist_unhashed (run_fini f port vmid exitcode s) q = hlist_unhashed s q"
  using run_fini_cases [of f port vmid exitcode s]
  by (auto simp add: put_ipc_port_membership list_empty_fields broadcast_port_membership)

lemma roles_all_cleared: "(t::32 word) AND NOT t AND x = 0"
  by (rule bit_eqI) (auto simp add: bit_simps)

lemma del_ipc_port_locked_all:
  assumes "del_ipc_port_locked E port 0 s = (need_restart, s')"
  shows "list_empty s' port" "hlist_unhashed s' port"
    "ref_count (ports s port) - 2 \<le> ref_count (ports s' port)"
    "broadcast_port s' = broadcast_port s"
proof -
  define s1 where "s1 = (if \<not> list_empty s port
                    then put_ipc_port port
                           (update_port port (\<lambda>p. p\<lparr>info_type := info_type p AND IPC_PORT_IFPOLL E\<rparr>)
                              (list_del_init port s))
                    else s)"
  define s2 where "s2 = (if \<not> hlist_unhashed s1 port
                    then put_ipc_port port (hlist_del_init port s1)
                    else s1)"
  have "snd (del_ipc_port_locked E port 0 s) = update_port port (\<lambda>p. p\<lparr>update := True\<rparr>) s2"
    unfolding del_ipc_port_locked_def Let_def s2_def s1_def
    by (simp add: roles_all_cleared)
  with assms have s': "s' = update_port port (\<lambda>p. p\<lparr>update := True\<rparr>) s2"
    by simp
  have l1: "list_empty s1 port"
    by (simp add: s1_def put_ipc_port_membership list_empty_fields list_del_init_fields)
  have r1: "ref_count (ports s port) - 1 \<le> ref_count (ports s1 port)"
    by (simp add: s1_def put_ipc_port_fields update_port_fields list_del_init_fields)
  have b1: "broadcast_port s1 = broadcast_port s"
    by (simp add: s1_def put_ipc_port_broadcast update_port_def list_del_init_def)
  have l2: "list_empty s2 port"
    using l1 by (simp add: s2_def put_ipc_port_membership hlist_del_init_fields)
  have h2: "hlist_unhashed s2 port"
    by (simp add: s2_def put_ipc_port_membership hlist_del_init_fields)
  have r2: "ref_count (ports s1 port) - 1 \<le> ref_count (ports s2 port)"
    by (simp add: s2_def put_ipc_port_fields hlist_del_init_fields)
  have b2: "broadcast_port s2 = broadcast_port s1"
    by (simp add: s2_def put_ipc_port_broadcast hlist_del_init_def)
  show "list_empty s' port" using l2 by (simp add: s' list_empty_fields)
  show "hlist_unhashed s' port" using h2 by (simp add: s' list_empty_fields)
  show "ref_count (ports s port) - 2 \<le> ref_count (ports s' port)"
    using r1 r2 by (simp add: s' update_port_fields)
  show "broadcast_port s' = broadcast_port s"
    using b1 b2 by (simp add: s' update_port_def)
qed

lemma fold_run_fini_membership:
  "list_empty (fold (\<lambda>f. run_fini f port vmid exitcode) fs s) q = list_empty s q
   \<and> hlist_unhashed (fold (\<lambda>f. run_fini f port vmid exitcode) fs s) q = hlist_unhashed s q"
  by (induction fs arbitrary: s) (simp_all add: run_fini_membership)

text \<open>Only \<open>ipc_broadcast_exit\<close> drops a reference, and only once.\<close>

lemma run_fini_ref_count:
  "ref_count (ports s port) - (if broadcast_port s = Some port then 1 else 0)
   \<le> ref_count (ports (run_fini f port vmid exitcode s) port)
      - (if broadcast_port (run_fini f port vmid exitcode s) = Some port then 1 else 0)"
proof -
  let ?s1 = "emit (FINI_CALL f port vmid exitcode) s"
  have "ref_count (ports ?s1 port) = ref_count (ports s port)" "broadcast_port ?s1 = broadcast_port s"
    by (simp_all add: emit_def)
  moreover have "ref_count (ports (put_ipc_port port (?s1\<lparr>broadcast_port := None\<rparr>)) port)
      = ref_count (ports s port) - 1"
    by (simp add: put_ipc_port_fields emit_def)
  moreover have "broadcast_port (put_ipc_port port (?s1\<lparr>broadcast_port := None\<rparr>)) = None"
    by (simp add: put_ipc_port_broadcast)
  ultimately show ?thesis
    using run_fini_cases [of f port vmid exitcode s] by auto
qed

lemma fold_run_fini_ref_count:
  "ref_count (ports s port) - (if broadcast_port s = Some port then 1 else 0)
   \<le> ref_count (ports (fold (\<lambda>f. run_fini f port vmid exitcode) fs s) port)
      - (if broadcast_port (fold (\<lambda>f. run_fini f port vmid exitcode) fs s) = Some port then 1 else 0)"
proof (induction fs arbitrary: s)
  case Nil
  show ?case by simp
next
  case (Cons f fs)
  from run_fini_ref_count [of s port f vmid exitcode]
    Cons.IH [of "run_fini f port vmid exitcode s"]
  show ?case by simp
qed

lemma run_fini_trace:
  "\<exists>new. trace (run_fini f port vmid exitcode s) = trace s @ FINI_CALL f port vmid exitcode # new"
proof -
  let ?s1 = "emit (FINI_CALL f port vmid exitcode) s"
  have a: "trace ?s1 = trace s @ FINI_CALL f port vmid exitcode # []"
    by (simp add: emit_def)
  have "extends (\<lambda>e. True) (?s1\<lparr>broadcast_port := None\<rparr>) (put_ipc_port port (?s1\<lparr>broadcast_port := None\<rparr>))"
    by (rule extends_put) simp
  then obtain new where "trace (put_ipc_port port (?s1\<lparr>broadcast_port := None\<rparr>))
      = trace s @ FINI_CALL f port vmid exitcode # new"
    by (auto simp add: extends_def emit_def)
  with a show ?thesis
    using run_fini_cases [of f port vmid exitcode s] by metis
qed

lemma fold_run_fini_calls:
  "\<exists>new. trace (fold (\<lambda>f. run_fini f port vmid exitcode) fs s) = trace s @ new
     \<and> (\<forall>f\<in>set fs. FINI_CALL f port vmid exitcode \<in> set new)"
proof (induction fs arbitrary: s)
  case Nil
  show ?case by simp
next
  case (Cons f fs)
  obtain n1 where n1: "trace (run_fini f port vmid exitcode s) = trace s @ FINI_CALL f port vmid exitcode # n1"
    using run_fini_trace by blast
  obtain n2 where n2: "trace (fold (\<lambda>f. run_fini f port vmid exitcode) fs (run_fini f port vmid exitcode s))
      = trace (run_fini f port vmid exitcode s) @ n2"
    "\<forall>f\<in>set fs. FINI_CALL f port vmid exitcode \<in> set n2"
    using Cons.IH by blast
  have "trace (fold (\<lambda>f. run_fini f port vmid exitcode) (f # fs) s)
      = trace s @ (FINI_CALL f port vmid exitcode # n1 @ n2)"
    using n1 n2(1) by simp
  moreover have "\<forall>g\<in>set (f # fs). FINI_CALL g port vmid exitcode \<in> set (FINI_CALL f port vmid exitcode # n1 @ n2)"
    using n2(2) by auto
  ultimately show ?case by blast
qed

lemma restart_ipc_helper_fields:
  "ports (restart_ipc_helper E need_create s) = ports s"
  "pobj_list (restart_ipc_helper E need_create s) = pobj_list s"
  "ipc_port_pool (restart_ipc_helper E need_create s) = ipc_port_pool s"
  by (auto simp add: restart_ipc_helper_def create_ipc_helper_def emit_def Let_def
      split: helper_state.splits option.splits sum.splits)

lemma del_ipc_port_fini_unfold:
  "del_ipc_port_fini E port exitcode s =
    (if \<not> ref_count (ports s port) > 0 then Inl ASSERT_FAILED
     else
       let s2 = get_ipc_port port (update_port port
                  (\<lambda>p. p\<lparr>fini := (\<lambda>i. if i < MAX_IPC_PORT_FINI_CB E then None else fini p i)\<rparr>) s);
           s3 = snd (del_ipc_port_locked E port 0 s2);
           s4 = fold (\<lambda>f. run_fini f port (info_vmid (ports s port)) exitcode)
                  (installed_fini E (ports s port)) s3;
           s6 = put_ipc_port port (if \<not> list_empty s4 port then complete_msgs port s4 else s4)
       in if \<not> ref_count (ports s6 port) > 0 then Inl ASSERT_FAILED
          else Inr (if fst (del_ipc_port_locked E port 0 s2)
                    then restart_ipc_helper E False s6 else s6))"
  by (simp add: del_ipc_port_fini_def Let_def split: prod.splits)

lemma del_ipc_port_fini_steps:
  fixes E port exitcode s
  assumes s2: "s2 = get_ipc_port port (update_port port
                  (\<lambda>p. p\<lparr>fini := (\<lambda>i. if i < MAX_IPC_PORT_FINI_CB E then None else fini p i)\<rparr>) s)"
    and s3: "s3 = snd (del_ipc_port_locked E port 0 s2)"
    and s4: "s4 = fold (\<lambda>f. run_fini f port (info_vmid (ports s port)) exitcode)
                  (installed_fini E (ports s port)) s3"
    and s6: "s6 = put_ipc_port port (if \<not> list_empty s4 port then complete_msgs port s4 else s4)"
  shows "list_empty s6 port" "hlist_unhashed s6 port"
    "ref_count (ports s port) - 3 \<le> ref_count (ports s6 port)"
    "\<exists>n3 n4 n6. trace s3 = trace s @ n3 \<and> trace s4 = trace s3 @ n4 \<and> trace s6 = trace s4 @ n6
       \<and> (\<forall>f\<in>set (installed_fini E (ports s port)).
             FINI_CALL f port (info_vmid (ports s port)) exitcode \<in> set n4)"
proof -
  have del: "del_ipc_port_locked E port 0 s2 = (fst (del_ipc_port_locked E port 0 s2), s3)"
    by (simp add: s3)
  note d = del_ipc_port_locked_all [OF del]
  have r2: "ref_count (ports s2 port) = ref_count (ports s port) + 1"
    by (simp add: s2 get_ipc_port_def update_port_fields)
  have m4: "list_empty s4 port" "hlist_unhashed s4 port"
    using d(1,2) fold_run_fini_membership [of port "info_vmid (ports s port)" exitcode
        "installed_fini E (ports s port)" s3 port]
    by (simp_all add: s4)
  have r4: "ref_count (ports s3 port) - 1 \<le> ref_count (ports s4 port)"
    using fold_run_fini_ref_count [of s3 port "info_vmid (ports s port)" exitcode
        "installed_fini E (ports s port)"]
    by (simp add: s4 split: if_splits)
  have s6': "s6 = put_ipc_port port s4"
    using m4(1) by (simp add: s6)
  show "list_empty s6 port" "hlist_unhashed s6 port"
    using m4 by (simp_all add: s6' put_ipc_port_membership)
  show "ref_count (ports s port) - 3 \<le> ref_count (ports s6 port)"
    using r2 d(3) r4 by (simp add: s6' put_ipc_port_fields)
  have "trace s2 = trace s"
    by (simp add: s2 trace_get_ipc_port update_port_fields)
  moreover have "extends (\<lambda>e. True) s2 s3"
    unfolding s3 by (rule extends_del_locked) simp
  ultimately obtain n3 where n3: "trace s3 = trace s @ n3"
    by (auto simp add: extends_def)
  obtain n4 where n4: "trace s4 = trace s3 @ n4"
    "\<forall>f\<in>set (installed_fini E (ports s port)).
         FINI_CALL f port (info_vmid (ports s port)) exitcode \<in> set n4"
    unfolding s4 using fold_run_fini_calls by blast
  have "extends (\<lambda>e. True) s4 s6"
    unfolding s6' by (rule extends_put) simp
  then obtain n6 where n6: "trace s6 = trace s4 @ n6"
    by (auto simp add: extends_def)
  from n3 n4 n6 show "\<exists>n3 n4 n6. trace s3 = trace s @ n3 \<and> trace s4 = trace s3 @ n4 \<and> trace s6 = trace s4 @ n6
       \<and> (\<forall>f\<in>set (installed_fini E (ports s port)).
             FINI_CALL f port (info_vmid (ports s port)) exitcode \<in> set n4)"
    by blast
qed

lemma del_ipc_port_fini_returns:
  assumes "3 < ref_count (ports s port)"
  shows "\<exists>s'. del_ipc_port_fini E port exitcode s = Inr s'"
proof -
  define s2 where "s2 = get_ipc_port port (update_port port
                  (\<lambda>p. p\<lparr>fini := (\<lambda>i. if i < MAX_IPC_PORT_FINI_CB E then None else fini p i)\<rparr>) s)"
  define s3 where "s3 = snd (del_ipc_port_locked E port 0 s2)"
  define s4 where "s4 = fold (\<lambda>f. run_fini f port (info_vmid (ports s port)) exitcode)
                  (installed_fini E (ports s port)) s3"
  define s6 where "s6 = put_ipc_port port (if \<not> list_empty s4 port then complete_msgs port s4 else s4)"
  from del_ipc_port_fini_steps(3) [OF s2_def s3_def s4_def s6_def] assms
  have "0 < ref_count (ports s6 port)" by simp
  with assms show ?thesis
    unfolding del_ipc_port_fini_unfold Let_def s6_def s4_def s3_def s2_def by simp
qed

lemma del_ipc_port_fini_removed:
  assumes run: "del_ipc_port_fini E port exitcode s = Inr s'"
  shows "list_empty s' port \<and> hlist_unhashed s' port
    \<and> (\<exists>new. trace s' = trace s @ new
          \<and> list_all (teardown_event port (info_vmid (ports s port)) exitcode) new
          \<and> (\<forall>f\<in>set (installed_fini E (ports s port)).
                FINI_CALL f port (info_vmid (ports s port)) exitcode \<in> set new))"
proof -
  define s2 where "s2 = get_ipc_port port (update_port port
                  (\<lambda>p. p\<lparr>fini := (\<lambda>i. if i < MAX_IPC_PORT_FINI_CB E then None else fini p i)\<rparr>) s)"
  define s3 where "s3 = snd (del_ipc_port_locked E port 0 s2)"
  define s4 where "s4 = fold (\<lambda>f. run_fini f port (info_vmid (ports s port)) exitcode)
                  (installed_fini E (ports s port)) s3"
  define s6 where "s6 = put_ipc_port port (if \<not> list_empty s4 port then complete_msgs port s4 else s4)"
  note st = del_ipc_port_fini_steps [OF s2_def s3_def s4_def s6_def]
  from run have s': "s' = s6 \<or> s' = restart_ipc_helper E False s6"
    unfolding del_ipc_port_fini_unfold Let_def s6_def s4_def s3_def s2_def
    by (auto split: if_splits)
  have mem: "list_empty s' port \<and> hlist_unhashed s' port"
    using s' st(1,2)
    by (auto simp add: list_empty_def hlist_unhashed_def restart_ipc_helper_fields)
  from st(4) obtain n3 n4 n6 where n:
    "trace s3 = trace s @ n3" "trace s4 = trace s3 @ n4" "trace s6 = trace s4 @ n6"
    "\<forall>f\<in>set (installed_fini E (ports s port)).
         FINI_CALL f port (info_vmid (ports s port)) exitcode \<in> set n4"
    by blast
  have "extends (\<lambda>e. True) s6 s'"
    using s' extends_refl [of "\<lambda>e. True" s6]
      extends_restart [of "\<lambda>e. True" s6 E False] by auto
  then obtain n7 where n7: "trace s' = trace s6 @ n7"
    by (auto simp add: extends_def)
  from extends_del_ipc_port_fini [OF run] obtain new where new:
    "trace s' = trace s @ new"
    "list_all (teardown_event port (info_vmid (ports s port)) exitcode) new"
    by (auto simp add: extends_def)
  from n(1-3) n7 new(1) have "new = n3 @ n4 @ n6 @ n7" by simp
  with n(4) have "\<forall>f\<in>set (installed_fini E (ports s port)).
         FINI_CALL f port (info_vmid (ports s port)) exitcode \<in> set new"
    by simp
  with mem new show ?thesis by blast
qed

section \<open>Properties of the receive routine\<close>

lemma trace_DkStreamRead: "trace (snd (DkStreamRead count s)) = trace s"
  by (simp add: DkStreamRead_def split: list.splits read_outcome.splits)

lemma trace_read_once: "trace (snd (snd (read_once R ls))) = trace (snd ls)"
proof -
  obtain d s1 where r: "DkStreamRead (nat (expected_size (grow R (fst ls)) - bytes (grow R (fst ls))
      + int (IPC_MSG_READAHEAD R))) (snd ls) = (d, s1)"
    by (cases "DkStreamRead (nat (expected_size (grow R (fst ls)) - bytes (grow R (fst ls))
      + int (IPC_MSG_READAHEAD R))) (snd ls)")
  with trace_DkStreamRead [of "nat (expected_size (grow R (fst ls)) - bytes (grow R (fst ls))
      + int (IPC_MSG_READAHEAD R))" "snd ls"]
  show ?thesis by (simp add: read_once_def Let_def)
qed

lemma trace_read_body: "trace (snd (read_body R ls)) = trace (snd ls)"
proof (induction R ls rule: read_body.induct)
  case (1 R ls)
  show ?case
  proof (cases "fst (read_once R ls)
        \<and> bytes (fst (snd (read_once R ls))) < expected_size (fst (snd (read_once R ls)))")
    case True
    then have "read_body R ls = read_body R (snd (read_once R ls))"
      by (subst read_body.simps) simp
    with 1 True trace_read_once [of R ls] show ?thesis by simp
  next
    case False
    then have "read_body R ls = snd (read_once R ls)"
      by (subst read_body.simps) auto
    with trace_read_once [of R ls] show ?thesis by simp
  qed
qed

lemma trace_read_top: "trace (snd (read_top R ls)) = trace (snd ls)"
  by (simp add: read_top_def Let_def trace_read_body)

lemma extends_do_send:
  "(\<And>m. P (SEND_MESSAGE port m)) \<Longrightarrow> extends P s (snd (snd (do_send E msg port s)))"
  by (simp add: do_send_def extends_def emit_def split: prod.splits)

lemma extends_dispatch:
  assumes "msg_src h \<noteq> cur_vmid E"
  shows "extends (benign E) (snd ls) (snd (dispatch E R port h ls))"
proof (cases "ipc_callbacks R (msg_code h)")
  case None
  then show ?thesis by (simp add: dispatch_def extends_refl)
next
  case (Some callback)
  let ?s1 = "emit (CALLBACK (msg_code h) h port) (snd ls)"
  have a: "extends (benign E) (snd ls) ?s1"
    by (rule extends_emit) (simp add: benign_def assms)
  have b: "extends (benign E) ?s1 (snd (snd (do_send E m port ?s1)))" for m
    by (rule extends_do_send) (simp add: benign_def)
  have c: "extends (benign E) ?s1 (snd (response_ipc_message E R port dest r seq ?s1))" for dest r seq
    using b by (simp add: response_ipc_message_def Let_def split: prod.splits) (metis snd_conv)
  show ?thesis
    using Some a extends_trans [OF a c]
    by (auto simp add: dispatch_def Let_def split: prod.splits) (metis snd_conv)+
qed


lemma extends_finish:
  "extends (benign E) s (snd ls) \<Longrightarrow> extends (benign E) s (state_of (finish port ls))"
proof -
  assume a: "extends (benign E) s (snd ls)"
  have "extends (benign E) (snd ls) (put_ipc_port port (snd ls))"
    by (rule extends_put) (simp add: benign_def)
  from extends_trans [OF a this] show ?thesis by (simp add: finish_def)
qed

lemma extends_stream_closed:
  assumes "extends (benign E) s (snd ls)"
  shows "extends (benign E) s (state_of (stream_closed E R port ls))"
proof (cases "pal_errno (snd ls) \<noteq> 0")
  case False
  with extends_finish [OF assms] show ?thesis by (simp add: stream_closed_def)
next
  case True
  show ?thesis
  proof (cases "del_ipc_port_fini E port (word_of_int (- ECHILD)) (snd ls)")
    case (Inl c)
    with True assms show ?thesis by (simp add: stream_closed_def)
  next
    case (Inr s2)
    from extends_del_ipc_port_fini [OF Inr] have "extends (benign E) (snd ls) s2"
      by (rule extends_mono) (rule teardown_benign)
    from extends_trans [OF assms this]
    have "extends (benign E) s (snd (l, s2))" for l :: recv_locals by simp
    from extends_finish [OF this] True Inr show ?thesis by (simp add: stream_closed_def)
  qed
qed

lemma extends_skip_or_dispatch:
  "extends (benign E) (snd ls) (snd (skip_or_dispatch E R port h ls))"
  by (simp add: skip_or_dispatch_def extends_refl extends_dispatch)

lemma extends_next_message:
  assumes "extends (benign E) s (snd ls)"
  shows "(case next_message R port seq ls of
      DONE outcome \<Rightarrow> extends (benign E) s (state_of outcome)
    | AGAIN e' ls' \<Rightarrow> extends (benign E) s (snd ls'))"
  using assms extends_finish [of E s "(consume (fst ls), snd ls)" port]
  by (simp add: next_message_def Let_def)

lemma extends_recv_iteration:
  "(case recv_iteration E R port seq msgptr e ls of
      DONE outcome \<Rightarrow> extends (benign E) (snd ls) (state_of outcome)
    | AGAIN e' ls' \<Rightarrow> extends (benign E) (snd ls) (snd ls'))"
proof -
  define ls1 where "ls1 = (case e of LOOP_HEAD \<Rightarrow> read_top R ls | RETRY_READ \<Rightarrow> read_body R ls)"
  have "trace (snd ls1) = trace (snd ls)"
    unfolding ls1_def using trace_read_top [of R ls] trace_read_body [of R ls] by (cases e) auto
  then have e1: "extends (benign E) (snd ls) (snd ls1)" by (rule extends_same)
  define h where "h = read_header R (buf (fst ls1))"
  define ls2 where "ls2 = ((fst ls1)\<lparr>expected_size := msg_size h\<rparr>, snd ls1)"
  have e2: "extends (benign E) (snd ls) (snd ls2)"
    using e1 by (simp add: ls2_def)
  have closed: "extends (benign E) (snd ls) (state_of (stream_closed E R port ls1))"
    using e1 by (rule extends_stream_closed)
  have del: "extends (benign E) (snd ls) (state_of (deliver R p h ls2))" for p
    using e2 by (simp add: deliver_def Let_def)
  have "extends (benign E) (snd ls) (snd (skip_or_dispatch E R port h ls2))"
    using e2 extends_skip_or_dispatch by (rule extends_trans)
  then have nxt: "(case next_message R port seq (skip_or_dispatch E R port h ls2) of
      DONE outcome \<Rightarrow> extends (benign E) (snd ls) (state_of outcome)
    | AGAIN e' ls' \<Rightarrow> extends (benign E) (snd ls) (snd ls'))"
    by (rule extends_next_message)
  have "recv_iteration E R port seq msgptr e ls =
    (if bytes (fst ls1) = 0 then DONE (stream_closed E R port ls1)
     else if bytes (fst ls2) < expected_size (fst ls2) then AGAIN RETRY_READ ls2
     else if msgptr \<noteq> None \<and> (seq = 0 \<or> msg_seq h = seq)
     then DONE (deliver R (the msgptr) h ls2)
     else next_message R port seq (skip_or_dispatch E R port h ls2))"
    unfolding recv_iteration_def Let_def ls1_def ls2_def h_def ..
  with closed e2 del nxt show ?thesis by simp
qed

lemma extends_recv_loop:
  "extends (benign E) (snd ls) (state_of (recv_loop n E R port seq msgptr e ls))"
proof (induction n arbitrary: e ls)
  case 0
  show ?case by (simp add: extends_refl)
next
  case (Suc n)
  show ?case
  proof (cases "recv_iteration E R port seq msgptr e ls")
    case (DONE outcome)
    with extends_recv_iteration [where E=E and R=R and port=port and seq=seq and msgptr=msgptr and e=e and ls=ls] show ?thesis by simp
  next
    case (AGAIN e' ls')
    with extends_recv_iteration [where E=E and R=R and port=port and seq=seq and msgptr=msgptr and e=e and ls=ls]
    have "extends (benign E) (snd ls) (snd ls')" by simp
    from extends_trans [OF this Suc.IH [where e=e' and ls=ls']] AGAIN show ?thesis by simp
  qed
qed

text \<open>
  C3. Whatever the stream carries and however long the routine runs, every message
  callback that \<open>receive_ipc_message\<close> calls is called on a message whose \<open>src\<close> is
  not the id of the process. And a complete message of the process itself that is not
  handed to the caller goes straight to the label \<open>next\<close>, where it is taken off the
  buffer, with the state as the read left it: nothing is called and nothing is sent.
\<close>

theorem receive_ipc_message_no_self_dispatch:
  "(\<exists>new. trace (state_of (receive_ipc_message fuel E R port seq msgptr s)) = trace s @ new
      \<and> (\<forall>code m p. CALLBACK code m p \<in> set new \<longrightarrow> msg_src m \<noteq> cur_vmid E))
   \<and> (\<forall>l1 s1 h.
        (case e of LOOP_HEAD \<Rightarrow> read_top R ls | RETRY_READ \<Rightarrow> read_body R ls) = (l1, s1)
        \<and> bytes l1 \<noteq> 0 \<and> h = read_header R (buf l1) \<and> msg_size h \<le> bytes l1
        \<and> \<not> (msgptr \<noteq> None \<and> (seq = 0 \<or> msg_seq h = seq))
        \<and> msg_src h = cur_vmid E \<longrightarrow>
        recv_iteration E R port seq msgptr e ls
          = next_message R port seq (l1\<lparr>expected_size := msg_size h\<rparr>, s1))"
proof -
  have "extends (benign E) (get_ipc_port port s)
     (state_of (recv_loop fuel E R port seq msgptr LOOP_HEAD (entry_locals R, get_ipc_port port s)))"
    using extends_recv_loop [where E=E and ls="(entry_locals R, get_ipc_port port s)"] by simp
  then obtain new where new:
    "trace (state_of (receive_ipc_message fuel E R port seq msgptr s)) = trace s @ new"
    "list_all (benign E) new"
    by (auto simp add: extends_def receive_ipc_message_def trace_get_ipc_port)
  have "msg_src m \<noteq> cur_vmid E" if "CALLBACK code m p \<in> set new" for code m p
    using new(2) that by (auto simp add: list_all_iff benign_def)
  with new(1) have a: "\<exists>new. trace (state_of (receive_ipc_message fuel E R port seq msgptr s)) = trace s @ new
      \<and> (\<forall>code m p. CALLBACK code m p \<in> set new \<longrightarrow> msg_src m \<noteq> cur_vmid E)"
    by blast
  have b: "recv_iteration E R port seq msgptr e ls
          = next_message R port seq (l1\<lparr>expected_size := msg_size h\<rparr>, s1)"
    if "(case e of LOOP_HEAD \<Rightarrow> read_top R ls | RETRY_READ \<Rightarrow> read_body R ls) = (l1, s1)"
      "bytes l1 \<noteq> 0" "h = read_header R (buf l1)" "msg_size h \<le> bytes l1"
      "\<not> (msgptr \<noteq> None \<and> (seq = 0 \<or> msg_seq h = seq))" "msg_src h = cur_vmid E" for l1 s1 h
    using that by (auto simp add: recv_iteration_def Let_def skip_or_dispatch_def)
  from a b show ?thesis by blast
qed

theorem receive_ipc_message_no_self_dispatch_witness:
  "trace (state_of (receive_ipc_message 9 shim1 recv1 0 4 (Some None) busy))
     = [CALLBACK 3 \<lparr>msg_code = 3, msg_size = 5, msg_src = 9, msg_dst = 1, msg_seq = 0,
                    msg_payload = []\<rparr> 0]
   \<and> (\<exists>new. trace (state_of (receive_ipc_message 9 shim1 recv1 0 4 (Some None) busy))
              = trace busy @ new \<and> list_all (benign shim1) new)
   \<and> msg_src (read_header recv1 (buf (fst (read_top recv1 (entry_locals recv1, get_ipc_port 0 echo)))))
       = cur_vmid shim1
   \<and> recv_iteration shim1 recv1 0 0 None LOOP_HEAD (entry_locals recv1, get_ipc_port 0 echo)
       = next_message recv1 0 0
           ((fst (read_top recv1 (entry_locals recv1, get_ipc_port 0 echo)))\<lparr>expected_size := 6\<rparr>,
            snd (read_top recv1 (entry_locals recv1, get_ipc_port 0 echo)))
   \<and> trace (state_of (receive_ipc_message 9 shim1 recv1 0 0 None echo)) = []"
proof -
  note T = receive_ipc_message_no_self_dispatch [where fuel=9 and E=shim1 and R=recv1 and port=0
      and seq=4 and msgptr="Some None" and s=busy, THEN conjunct1]
  note U = receive_ipc_message_no_self_dispatch [where E=shim1 and R=recv1 and port=0
      and seq=0 and msgptr=None and e=LOOP_HEAD and ls="(entry_locals recv1, get_ipc_port 0 echo)",
      THEN conjunct2, rule_format,
      of "fst (read_top recv1 (entry_locals recv1, get_ipc_port 0 echo))"
         "snd (read_top recv1 (entry_locals recv1, get_ipc_port 0 echo))"
         "read_header recv1 (buf (fst (read_top recv1 (entry_locals recv1, get_ipc_port 0 echo))))"]
  have run: "trace (state_of (receive_ipc_message 9 shim1 recv1 0 4 (Some None) busy))
     = [CALLBACK 3 \<lparr>msg_code = 3, msg_size = 5, msg_src = 9, msg_dst = 1, msg_seq = 0,
                    msg_payload = []\<rparr> 0]"
    by code_simp
  from T obtain new where new:
    "trace (state_of (receive_ipc_message 9 shim1 recv1 0 4 (Some None) busy)) = trace busy @ new"
    "\<forall>code m p. CALLBACK code m p \<in> set new \<longrightarrow> msg_src m \<noteq> cur_vmid shim1"
    by blast
  have "benign shim1 e" if "e \<in> set new" for e
    using new(2) that by (cases e) (auto simp add: benign_def)
  then have ben: "list_all (benign shim1) new"
    by (simp add: list_all_iff)
  have some: "bytes (fst (read_top recv1 (entry_locals recv1, get_ipc_port 0 echo))) \<noteq> 0"
    by code_simp
  have size: "msg_size (read_header recv1 (buf (fst (read_top recv1 (entry_locals recv1, get_ipc_port 0 echo))))) = 6"
    by code_simp
  have whole: "msg_size (read_header recv1 (buf (fst (read_top recv1 (entry_locals recv1, get_ipc_port 0 echo)))))
      \<le> bytes (fst (read_top recv1 (entry_locals recv1, get_ipc_port 0 echo)))"
    by code_simp
  have self: "msg_src (read_header recv1 (buf (fst (read_top recv1 (entry_locals recv1, get_ipc_port 0 echo)))))
      = cur_vmid shim1"
    by code_simp
  have skipped: "recv_iteration shim1 recv1 0 0 None LOOP_HEAD (entry_locals recv1, get_ipc_port 0 echo)
       = next_message recv1 0 0
           ((fst (read_top recv1 (entry_locals recv1, get_ipc_port 0 echo)))\<lparr>expected_size := 6\<rparr>,
            snd (read_top recv1 (entry_locals recv1, get_ipc_port 0 echo)))"
    using U some whole self by (simp add: size)
  have quiet: "trace (state_of (receive_ipc_message 9 shim1 recv1 0 0 None echo)) = []"
    by code_simp
  from run new(1) ben self skipped quiet show ?thesis by blast
qed


text \<open>
  C1, as stated, has the port torn down with the code \<open>ECONNRESET\<close>. The routine calls
  \<open>del_ipc_port_fini(port, -ECHILD)\<close>; \<open>-ECONNRESET\<close> is what the teardown gives the
  requests that wait on the port, not its exit code. Here the stream fails at once with
  the PAL error 7: the callback of the port is called with \<open>-ECHILD\<close> (as an unsigned
  number) and the routine returns -7.
\<close>

theorem receive_ipc_message_stream_failure_counterexample:
  "stream broken = [READ_FAIL 7]
   \<and> (case receive_ipc_message 1 shim1 recv1 0 0 None broken of
         RETURNED r m s' \<Rightarrow>
           r = - 7 \<and> m = None
           \<and> trace s' = [FINI_CALL (fini_callback 1) 0 7 (word_of_int (- ECHILD))]
       | _ \<Rightarrow> False)
   \<and> (word_of_int (- ECHILD) :: 32 word) = 4294967286
   \<and> (word_of_int ECONNRESET :: 32 word) = 104
   \<and> (word_of_int (- ECONNRESET) :: 32 word) = 4294967192"
  by code_simp

text \<open>
  C1, amended. In every iteration of the loop of \<open>receive_ipc_message\<close> (\<open>recv_loop\<close>,
  entered at the loop head or at \<open>retry_read\<close>, with a buffer of positive size): when
  the read loop ends with no byte in the buffer and a PAL error is set, the routine
  calls \<open>del_ipc_port_fini\<close> on the port with the exit code \<open>-ECHILD\<close> (not
  \<open>ECONNRESET\<close>), then releases its reference and returns the negated PAL error; it
  stops instead if an assertion of the teardown on the reference count fails, which
  cannot happen when the port has more than three references. After the teardown the
  port is off the port list and out of the hash table, and every callback that was
  installed on the port has been called with the port, its peer id and \<open>-ECHILD\<close>;
  the teardown calls no callback with another code, sends no message and dispatches
  none.
\<close>

theorem receive_ipc_message_stream_failure:
  assumes rd: "(case e of LOOP_HEAD \<Rightarrow> read_top R ls | RETRY_READ \<Rightarrow> read_body R ls) = (l1, s1)"
    and zero: "bytes l1 = 0"
    and err: "pal_errno s1 \<noteq> 0"
    and room: "0 < bufsize (fst ls)"
  shows "recv_loop (Suc n) E R port seq msgptr e ls =
           (case del_ipc_port_fini E port (word_of_int (- ECHILD)) s1 of
              Inl c \<Rightarrow> CRASHED c s1
            | Inr s2 \<Rightarrow> RETURNED (- convert_pal_errno R (pal_errno s2)) None (put_ipc_port port s2))
     \<and> (3 < ref_count (ports s1 port) \<longrightarrow>
          (\<exists>s2. del_ipc_port_fini E port (word_of_int (- ECHILD)) s1 = Inr s2))
     \<and> (\<forall>s2. del_ipc_port_fini E port (word_of_int (- ECHILD)) s1 = Inr s2 \<longrightarrow>
          list_empty s2 port \<and> hlist_unhashed s2 port
          \<and> (\<exists>new. trace s2 = trace s1 @ new
                \<and> list_all (teardown_event port (info_vmid (ports s1 port)) (word_of_int (- ECHILD))) new
                \<and> (\<forall>f\<in>set (installed_fini E (ports s1 port)).
                      FINI_CALL f port (info_vmid (ports s1 port)) (word_of_int (- ECHILD)) \<in> set new)))
     \<and> (word_of_int (- ECHILD) :: 32 word) \<noteq> word_of_int ECONNRESET
     \<and> (word_of_int (- ECHILD) :: 32 word) \<noteq> word_of_int (- ECONNRESET)"
proof -
  have "recv_iteration E R port seq msgptr e ls = DONE (stream_closed E R port (l1, s1))"
    using rd zero by (simp add: recv_iteration_def Let_def)
  then have a: "recv_loop (Suc n) E R port seq msgptr e ls =
           (case del_ipc_port_fini E port (word_of_int (- ECHILD)) s1 of
              Inl c \<Rightarrow> CRASHED c s1
            | Inr s2 \<Rightarrow> RETURNED (- convert_pal_errno R (pal_errno s2)) None (put_ipc_port port s2))"
    using err by (simp add: stream_closed_def finish_def split: sum.splits)
  have b: "3 < ref_count (ports s1 port) \<longrightarrow>
          (\<exists>s2. del_ipc_port_fini E port (word_of_int (- ECHILD)) s1 = Inr s2)"
    using del_ipc_port_fini_returns by blast
  have c: "\<forall>s2. del_ipc_port_fini E port (word_of_int (- ECHILD)) s1 = Inr s2 \<longrightarrow>
          list_empty s2 port \<and> hlist_unhashed s2 port
          \<and> (\<exists>new. trace s2 = trace s1 @ new
                \<and> list_all (teardown_event port (info_vmid (ports s1 port)) (word_of_int (- ECHILD))) new
                \<and> (\<forall>f\<in>set (installed_fini E (ports s1 port)).
                      FINI_CALL f port (info_vmid (ports s1 port)) (word_of_int (- ECHILD)) \<in> set new))"
    using del_ipc_port_fini_removed by blast
  have d: "(word_of_int (- ECHILD) :: 32 word) \<noteq> word_of_int ECONNRESET"
    "(word_of_int (- ECHILD) :: 32 word) \<noteq> word_of_int (- ECONNRESET)"
    by (simp_all add: ECHILD_def ECONNRESET_def)
  from a b c d show ?thesis by blast
qed

theorem receive_ipc_message_stream_failure_witness:
  "bytes (fst (read_top recv1 (entry_locals recv1, get_ipc_port 0 broken))) = 0
   \<and> pal_errno (snd (read_top recv1 (entry_locals recv1, get_ipc_port 0 broken))) = 7
   \<and> (\<exists>s2. del_ipc_port_fini shim1 0 (word_of_int (- ECHILD))
              (snd (read_top recv1 (entry_locals recv1, get_ipc_port 0 broken))) = Inr s2
        \<and> receive_ipc_message (Suc 0) shim1 recv1 0 0 None broken
            = RETURNED (- 7) None (put_ipc_port 0 s2)
        \<and> list_empty s2 0 \<and> hlist_unhashed s2 0
        \<and> FINI_CALL (fini_callback 1) 0 7 (word_of_int (- ECHILD)) \<in> set (trace s2))"
proof -
  define ls where "ls = (entry_locals recv1, get_ipc_port 0 broken)"
  have rd: "(case LOOP_HEAD of LOOP_HEAD \<Rightarrow> read_top recv1 ls | RETRY_READ \<Rightarrow> read_body recv1 ls)
      = (fst (read_top recv1 ls), snd (read_top recv1 ls))"
    by simp
  have zero: "bytes (fst (read_top recv1 ls)) = 0"
    unfolding ls_def by code_simp
  have err: "pal_errno (snd (read_top recv1 ls)) = 7"
    unfolding ls_def by code_simp
  then have err': "pal_errno (snd (read_top recv1 ls)) \<noteq> 0" by simp
  have refs: "3 < ref_count (ports (snd (read_top recv1 ls)) 0)"
    unfolding ls_def by code_simp
  have inst: "installed_fini shim1 (ports (snd (read_top recv1 ls)) 0) = [fini_callback 1]"
    unfolding ls_def by code_simp
  have peer: "info_vmid (ports (snd (read_top recv1 ls)) 0) = 7"
    unfolding ls_def by code_simp
  have room: "0 < bufsize (fst ls)"
    unfolding ls_def by code_simp
  have after: "(case del_ipc_port_fini shim1 0 (word_of_int (- ECHILD)) (snd (read_top recv1 ls)) of
        Inl c \<Rightarrow> 0 | Inr s2 \<Rightarrow> pal_errno s2) = 7"
    unfolding ls_def by code_simp
  note T = receive_ipc_message_stream_failure [where e=LOOP_HEAD and R=recv1 and ls=ls
      and E=shim1 and port=0 and seq=0 and msgptr=None and n=0, OF rd zero err' room]
  from T [THEN conjunct2, THEN conjunct1] refs obtain s2 where
    s2: "del_ipc_port_fini shim1 0 (word_of_int (- ECHILD)) (snd (read_top recv1 ls)) = Inr s2"
    by blast
  from after s2 have e2: "pal_errno s2 = 7" by simp
  from T [THEN conjunct1] s2 e2
  have ret: "receive_ipc_message (Suc 0) shim1 recv1 0 0 None broken
            = RETURNED (- 7) None (put_ipc_port 0 s2)"
    by (simp add: receive_ipc_message_def ls_def recv1_def)
  from T [THEN conjunct2, THEN conjunct2, THEN conjunct1, rule_format, OF s2] inst peer
  obtain new where new: "list_empty s2 0" "hlist_unhashed s2 0"
    "trace s2 = trace (snd (read_top recv1 ls)) @ new"
    "FINI_CALL (fini_callback 1) 0 7 (word_of_int (- ECHILD)) \<in> set new"
    by auto
  from new(3,4) have "FINI_CALL (fini_callback 1) 0 7 (word_of_int (- ECHILD)) \<in> set (trace s2)"
    by simp
  with zero err s2 ret new(1,2) show ?thesis
    unfolding ls_def by blast
qed

end
